theory Spec2Isabelle
  imports Complex_Main "HOL-Library.Product_Lexorder" "HOL-Library.Multiset"
    "HOL-Library.Log_Nat"
begin

section \<open>Data model of \<^verbatim>\<open>plotshpcreate\<close>\<close>

text \<open>
  The embedding follows \<^verbatim>\<open>python-package/uastools/plotshpcreate.py\<close>.
  Python floats and numpy float64 values are modelled as \<^typ>\<open>real\<close>; the Plot, Range and
  Row columns of the design table hold integers and are modelled as \<^typ>\<open>int\<close>.
  Every \<^verbatim>\<open>raise\<close> of the function, and every exception its numpy and Python
  primitives throw on the inputs covered here, is a value of \<open>error\<close>. The \<^verbatim>\<open>TypeError\<close>
  of line 117 has no value: \<open>infile\<close> is a table by its type. The \<^verbatim>\<open>print\<close> of
  \<^verbatim>\<open>_write_shapefile\<close> and the drawing of the two renderers are not modelled; what is
  handed to them is.
\<close>

datatype validation =
    MissingColumns "string list"  \<comment> \<open>"infile missing required columns"\<close>
  | StaggerFirstPlot              \<comment> \<open>"Stagger must be in reference to plots beyond first plot polygon"\<close>
  | StaggerPlanter                \<comment> \<open>"Stagger is based on planter dimensions"\<close>
  | StaggerCombined               \<comment> \<open>"Combined plots will not be correctly adjusted by stagger"\<close>
  | SubsetSingular                \<comment> \<open>"nrowplot == 1: Cannot subset singular plot"\<close>
  | SubsetCentral                 \<comment> \<open>"nrowplot < 3: Cannot subset central plot"\<close>
  | SubsetEmpty                   \<comment> \<open>"nrowplot == 2*plotsubset: no polygons will be created"\<close>

datatype error =
    ValidationError validation    \<comment> \<open>the \<^verbatim>\<open>ValueError\<close>s the function raises itself\<close>
  | ZeroDivisionError             \<comment> \<open>Python float division by zero\<close>
  | LibraryValueError             \<comment> \<open>\<^verbatim>\<open>ValueError\<close> of numpy or pandas: reduction of an empty array,
                                     \<^verbatim>\<open>vstack\<close> of no arrays, columns of unequal length\<close>
  | IndexError                    \<comment> \<open>Python list index out of range\<close>

subsection \<open>AB line (lines 147--164)\<close>

text \<open>
  \<open>A\<close> and \<open>B\<close> are tuples of Python floats: the division of line 150 raises
  \<^verbatim>\<open>ZeroDivisionError\<close> when \<^verbatim>\<open>abs(DeltaEasting)\<close> is zero. The last branch of the quadrant
  test is an \<^verbatim>\<open>else\<close> and also takes the inputs with \<open>DeltaNorthing = 0\<close>.
\<close>

record ab_line =
  DeltaEasting :: real
  DeltaNorthing :: real
  DirectionTheta :: real
  Theta :: real
  srt_theta :: real

definition ab_line_of :: "real \<times> real \<Rightarrow> real \<times> real \<Rightarrow> error + ab_line" where
  "ab_line_of A B =
    (let dE = fst B - fst A;
         dN = snd B - snd A
     in if \<bar>dE\<bar> = 0 then Inl ZeroDivisionError
        else
          let dt = arctan (\<bar>dN\<bar> / \<bar>dE\<bar>) in
          if dN > 0 \<and> dE > 0 then
            Inr \<lparr>DeltaEasting = dE, DeltaNorthing = dN, DirectionTheta = dt,
                 Theta = ((3 * pi) / 2) + dt, srt_theta = 90 - dt * (180 / pi)\<rparr>
          else if dN > 0 \<and> dE < 0 then
            Inr \<lparr>DeltaEasting = dE, DeltaNorthing = dN, DirectionTheta = dt,
                 Theta = (pi / 2) - dt, srt_theta = 270 + dt * (180 / pi)\<rparr>
          else if dN < 0 \<and> dE < 0 then
            Inr \<lparr>DeltaEasting = dE, DeltaNorthing = dN, DirectionTheta = dt,
                 Theta = (pi / 2) + dt, srt_theta = dt * (180 / pi)\<rparr>
          else
            Inr \<lparr>DeltaEasting = dE, DeltaNorthing = dN, DirectionTheta = dt,
                 Theta = ((3 * pi) / 2) - dt, srt_theta = 270 + dt * (180 / pi)\<rparr>)"

subsection \<open>Input table and working matrix\<close>

text \<open>
  One row of the \<^verbatim>\<open>infile\<close> DataFrame. The field names carry the suffix \<open>_col\<close>
  because \<open>Range\<close> is a constant of HOL.
\<close>

record plot_row =
  Plot_col :: int
  Range_col :: int
  Row_col :: int
  Barcode_col :: string

record dataframe =
  columns :: "string list"
  rows :: "plot_row list"

text \<open>
  One row of the matrix \<^verbatim>\<open>PlotsSquareM\<close> (12 columns): \<open>c0\<close> the plot number, \<open>c1\<close> the
  local range, \<open>c2\<close> the local row, \<open>c3\<close>..\<open>c10\<close> the four corners as (Y, X) pairs
  (bottom left, bottom right, top right, top left), \<open>c11\<close> the local row before any
  renumbering.
\<close>

record psm_row =
  c0 :: int
  c1 :: int
  c2 :: int
  c3 :: real
  c4 :: real
  c5 :: real
  c6 :: real
  c7 :: real
  c8 :: real
  c9 :: real
  c10 :: real
  c11 :: int

definition required_cols :: "string list" where
  "required_cols = [''Plot'', ''Range'', ''Row'', ''Barcode'']"

definition missing_cols :: "dataframe \<Rightarrow> string list" where
  "missing_cols df = filter (\<lambda>col. col \<notin> set (columns df)) required_cols"

text \<open>Lines 125--131: the stagger tuple is (start row, rows per pass, offset).\<close>

definition check_stagger :: "(int \<times> int \<times> real) option \<Rightarrow> int \<Rightarrow> bool \<Rightarrow> error + unit" where
  "check_stagger stagger nrowplot multirowind =
    (case stagger of
       None \<Rightarrow> Inr ()
     | Some (s0, s1, s2) \<Rightarrow>
         if s0 = 1 then Inl (ValidationError StaggerFirstPlot)
         else if s0 > s1 + 1 then Inl (ValidationError StaggerPlanter)
         else if nrowplot > 1 \<and> \<not> multirowind \<and> real_of_int nrowplot > real_of_int s1 / 2
           then Inl (ValidationError StaggerCombined)
         else Inr ())"

text \<open>Line 137: sort by (Plot, Row), ascending and stable.\<close>

definition sort_infile :: "plot_row list \<Rightarrow> plot_row list" where
  "sort_infile rs = sort_key (\<lambda>r. (Plot_col r, Row_col r)) rs"

text \<open>pandas \<^verbatim>\<open>unique()\<close>: the distinct values in order of first appearance.\<close>

fun unique :: "'a list \<Rightarrow> 'a list" where
  "unique [] = []"
| "unique (x # xs) = x # unique (filter (\<lambda>y. y \<noteq> x) xs)"

text \<open>Lines 181--185. On an empty table the matrix has no rows (the minima are never used).\<close>

definition init_matrix :: "plot_row list \<Rightarrow> psm_row list" where
  "init_matrix rs =
    (let range_min = Min (set (map Range_col rs));
         row_min = Min (set (map Row_col rs))
     in map (\<lambda>r. \<lparr>c0 = Plot_col r,
                   c1 = Range_col r - range_min + 1,
                   c2 = Row_col r - row_min + 1,
                   c3 = 0, c4 = 0, c5 = 0, c6 = 0, c7 = 0, c8 = 0, c9 = 0, c10 = 0,
                   c11 = Row_col r - row_min + 1\<rparr>) rs)"

subsection \<open>numpy and Python primitives\<close>

text \<open>\<^verbatim>\<open>np.arange(start, stop, step)\<close> for a positive step.\<close>

definition arange :: "int \<Rightarrow> int \<Rightarrow> int \<Rightarrow> int list" where
  "arange start stop step =
     map (\<lambda>k. start + int k * step)
       [0..<nat \<lceil>real_of_int (stop - start) / real_of_int step\<rceil>]"

text \<open>Boolean-mask indexing \<^verbatim>\<open>M[mask]\<close> of an array by a mask of its own length.\<close>

definition compress :: "bool list \<Rightarrow> 'a list \<Rightarrow> 'a list" where
  "compress msk xs = map snd (filter fst (zip msk xs))"

text \<open>
  \<^verbatim>\<open>[row_names[i] for i, m in enumerate(mask) if m]\<close>: a selected position beyond the end
  of the list raises \<^verbatim>\<open>IndexError\<close>.
\<close>

definition select_names :: "bool list \<Rightarrow> 'a list \<Rightarrow> error + 'a list" where
  "select_names msk names =
     (if list_ex (\<lambda>i. msk ! i \<and> length names \<le> i) [0..<length msk] then Inl IndexError
      else Inr (compress msk names))"

text \<open>\<^verbatim>\<open>[xs[j] for j in idx]\<close> on a Python list.\<close>

definition index_all :: "'a list \<Rightarrow> nat list \<Rightarrow> error + 'a list" where
  "index_all xs idx =
     (if list_ex (\<lambda>j. length xs \<le> j) idx then Inl IndexError else Inr (map (nth xs) idx))"

text \<open>
  \<^verbatim>\<open>np.argsort\<close> returns the positions of the keys in an order that puts the keys in
  ascending order. Its default sort is not stable: where two keys are equal, the order of
  their positions is whatever the sorting routine of the numpy build leaves. What every
  such routine guarantees is \<open>is_argsort\<close>: the result is a permutation of the positions,
  and the keys read in that order are sorted.
\<close>

definition is_argsort :: "int list \<Rightarrow> nat list \<Rightarrow> bool" where
  "is_argsort ks idx = (mset idx = mset [0..<length ks] \<and> sorted (map (nth ks) idx))"

text \<open>
  One such routine, which keeps equal keys in their input order. It is the one the
  operation is run with below wherever a single result has to be computed.
\<close>

definition argsort :: "int list \<Rightarrow> nat list" where
  "argsort ks = sort_key (\<lambda>j. ks ! j) [0..<length ks]"

text \<open>Decimal rendering of a natural number, as an f-string does.\<close>

fun str_nat :: "nat \<Rightarrow> string" where
  "str_nat n =
     (if n < 10 then [char_of (48 + n)]
      else str_nat (n div 10) @ [char_of (48 + n mod 10)])"

subsection \<open>Row grouping (lines 190--247)\<close>

text \<open>Lines 200--203. \<^verbatim>\<open>max()\<close> of the row column is taken by the caller's guard.\<close>

definition combined_mask :: "int \<Rightarrow> int \<Rightarrow> psm_row list \<Rightarrow> bool list" where
  "combined_mask nrowplot plotsubset M =
     map (\<lambda>r. c2 r = 1 + plotsubset \<or>
              c2 r \<in> set (arange (1 + nrowplot + plotsubset) (Max (set (map c2 M)) + 1) nrowplot)) M"

text \<open>Lines 209--211.\<close>

definition renumber :: "int \<Rightarrow> psm_row \<Rightarrow> psm_row" where
  "renumber nrowplot r =
     (if c2 r > 1 then r\<lparr>c2 := \<lceil>real_of_int (c2 r) / real_of_int nrowplot\<rceil>\<rparr> else r)"

text \<open>
  Lines 198--211, the body of the combined-rows branch. \<^verbatim>\<open>PlotsSquareM[:, 2].max()\<close>
  raises \<^verbatim>\<open>ValueError\<close> on a matrix without rows.
\<close>

definition combine_rows ::
  "int \<Rightarrow> int \<Rightarrow> psm_row list \<Rightarrow> string list \<Rightarrow> error + (psm_row list \<times> string list)" where
  "combine_rows nrowplot plotsubset M row_names =
     (if M = [] then Inl LibraryValueError
      else
        let msk = combined_mask nrowplot plotsubset M in
        case select_names msk row_names of
          Inl e \<Rightarrow> Inl e
        | Inr names' \<Rightarrow> Inr (map (renumber nrowplot) (compress msk M), names'))"

text \<open>Lines 215--223: within each barcode group the labels are \<open>barcode_1, barcode_2, ...\<close>.\<close>

definition new_row_names :: "string list \<Rightarrow> string list" where
  "new_row_names barcodes =
     concat (map (\<lambda>barcode.
                    map (\<lambda>k. barcode @ ''_'' @ str_nat (k + 1))
                      [0..<length (filter (\<lambda>b. b = barcode) barcodes)])
                 (unique barcodes))"

text \<open>Lines 229--234.\<close>

definition check_subset :: "int \<Rightarrow> int \<Rightarrow> error + unit" where
  "check_subset nrowplot plotsubset =
     (if nrowplot = 1 then Inl (ValidationError SubsetSingular)
      else if nrowplot < 3 then Inl (ValidationError SubsetCentral)
      else if nrowplot = 2 * plotsubset then Inl (ValidationError SubsetEmpty)
      else Inr ())"

text \<open>Lines 237--244.\<close>

definition plot_mask :: "int \<Rightarrow> psm_row list \<Rightarrow> bool list" where
  "plot_mask plotsubset M =
     map (\<lambda>r. let plot_rows = map c2 (filter (\<lambda>q. c0 q = c0 r) M)
              in c2 r \<in> set (arange (Min (set plot_rows) + plotsubset)
                                    (Max (set plot_rows) - plotsubset + 1) 1)) M"

text \<open>
  Line 225: the relabelled names, cut to the number of matrix rows. (Line 220 reads matrix
  rows that it never uses; the indices are those of the table, which has as many rows as
  the matrix whenever this branch runs.)
\<close>

definition relabel :: "string list \<Rightarrow> psm_row list \<Rightarrow> string list" where
  "relabel barcodes M = take (length M) (new_row_names barcodes)"

text \<open>Lines 228--247: the subset validation and the filter to the interior rows.\<close>

definition subset_rows ::
  "int \<Rightarrow> int \<Rightarrow> psm_row list \<Rightarrow> string list \<Rightarrow> error + (psm_row list \<times> string list)" where
  "subset_rows nrowplot plotsubset M row_names =
     (case check_subset nrowplot plotsubset of
        Inl e \<Rightarrow> Inl e
      | Inr _ \<Rightarrow>
          let pm = plot_mask plotsubset M in
          case select_names pm row_names of
            Inl e \<Rightarrow> Inl e
          | Inr names' \<Rightarrow> Inr (compress pm M, names'))"

text \<open>
  Lines 190--247. \<open>barcodes\<close> is the Barcode column of the sorted table, \<open>M\<close> and
  \<open>row_names\<close> the matrix and labels built from it.
\<close>

definition row_grouping ::
  "int \<Rightarrow> bool \<Rightarrow> int \<Rightarrow> string list \<Rightarrow> psm_row list \<Rightarrow> string list
     \<Rightarrow> error + (psm_row list \<times> string list)" where
  "row_grouping nrowplot multirowind plotsubset barcodes M row_names =
     (case (if nrowplot > 1 \<and> \<not> multirowind \<and> plotsubset = 0
            then combine_rows nrowplot plotsubset M row_names
            else Inr (M, row_names)) of
        Inl e \<Rightarrow> Inl e
      | Inr (M1, names1) \<Rightarrow>
          if (nrowplot > 1 \<and> multirowind) \<or> plotsubset \<noteq> 0 then
            let names2 = relabel barcodes M1 in
            if plotsubset \<noteq> 0 then subset_rows nrowplot plotsubset M1 names2
            else Inr (M1, names2)
          else Inr (M1, names1))"

subsection \<open>Serpentine ordering (lines 249--266)\<close>

text \<open>
  One pass of the loop body, for range index \<open>i\<close>. The sorting routine behind
  \<^verbatim>\<open>np.argsort\<close> (line 258) is the parameter \<open>srt\<close>.
\<close>

definition serp_range ::
  "(int list \<Rightarrow> nat list) \<Rightarrow> psm_row list \<Rightarrow> string list \<Rightarrow> int
     \<Rightarrow> error + (psm_row list \<times> string list)" where
  "serp_range srt M row_names i =
     (let range_mask = map (\<lambda>r. c1 r = i) M;
          subset_PSM = compress range_mask M
      in case select_names range_mask row_names of
           Inl e \<Rightarrow> Inl e
         | Inr subset_names \<Rightarrow>
             let sort_idx0 = srt (map c2 subset_PSM);
                 sort_idx = (if i mod 2 = 0 then rev sort_idx0 else sort_idx0)
             in case index_all subset_names sort_idx of
                  Inl e \<Rightarrow> Inl e
                | Inr names' \<Rightarrow> Inr (map (nth subset_PSM) sort_idx, names'))"

fun serp_loop ::
  "(int list \<Rightarrow> nat list) \<Rightarrow> psm_row list \<Rightarrow> string list \<Rightarrow> int list
     \<Rightarrow> error + (psm_row list list \<times> string list)" where
  "serp_loop srt M row_names [] = Inr ([], [])"
| "serp_loop srt M row_names (i # rest) =
     (case serp_range srt M row_names i of
        Inl e \<Rightarrow> Inl e
      | Inr (ps, ns) \<Rightarrow>
          (case serp_loop srt M row_names rest of
             Inl e \<Rightarrow> Inl e
           | Inr (ordered_plots, ordered_names) \<Rightarrow> Inr (ps # ordered_plots, ns @ ordered_names)))"

text \<open>\<^verbatim>\<open>np.vstack\<close> of an empty list of arrays raises \<^verbatim>\<open>ValueError\<close>.\<close>

definition serpentine_by ::
  "(int list \<Rightarrow> nat list) \<Rightarrow> nat \<Rightarrow> psm_row list \<Rightarrow> string list
     \<Rightarrow> error + (psm_row list \<times> string list)" where
  "serpentine_by srt nRange M row_names =
     (case serp_loop srt M row_names [1..int nRange] of
        Inl e \<Rightarrow> Inl e
      | Inr (ordered_plots, ordered_names) \<Rightarrow>
          if ordered_plots = [] then Inl LibraryValueError
          else Inr (concat ordered_plots, ordered_names))"

definition serpentine ::
  "nat \<Rightarrow> psm_row list \<Rightarrow> string list \<Rightarrow> error + (psm_row list \<times> string list)" where
  "serpentine nRange M row_names = serpentine_by argsort nRange M row_names"

subsection \<open>Geometry (lines 166--178 and 269--366)\<close>

text \<open>Unit conversion, 1 m = 3.281 ft.\<close>

definition to_meters :: "string \<Rightarrow> real \<Rightarrow> real" where
  "to_meters u v = (if u = ''feet'' then v / 3.281 else v)"

text \<open>Lines 272--284, with \<^verbatim>\<open>ZeroZero = (0, 0)\<close>.\<close>

definition square_corners :: "real \<Rightarrow> real \<Rightarrow> psm_row \<Rightarrow> psm_row" where
  "square_corners RangeSpacingM RowSpacingM r =
     r\<lparr>c3 := 0 + ((real_of_int (c1 r) - 1) * RangeSpacingM),
       c4 := 0 + ((real_of_int (c2 r) - 1) * RowSpacingM),
       c5 := 0 + ((real_of_int (c1 r) - 1) * RangeSpacingM),
       c6 := 0 + (real_of_int (c2 r) * RowSpacingM),
       c7 := 0 + (real_of_int (c1 r) * RangeSpacingM),
       c8 := 0 + (real_of_int (c2 r) * RowSpacingM),
       c9 := 0 + (real_of_int (c1 r) * RangeSpacingM),
       c10 := 0 + ((real_of_int (c2 r) - 1) * RowSpacingM)\<rparr>"

text \<open>
  Lines 290 and 345: \<^verbatim>\<open>ceil((floor((o - s0) + 1) + s1) / s1) % 2 == 0\<close>. The division is a
  numpy float division: for \<open>s1 = 0\<close> it yields \<open>inf\<close> or \<open>nan\<close>, whose remainder is \<open>nan\<close>,
  and the comparison with 0 is false.
\<close>

definition stagger_check :: "int \<times> int \<times> real \<Rightarrow> psm_row \<Rightarrow> bool" where
  "stagger_check st r =
     (case st of (s0, s1, s2) \<Rightarrow>
        s1 \<noteq> 0 \<and>
        \<lceil>(real_of_int \<lfloor>real_of_int (c11 r - s0) + 1\<rfloor> + real_of_int s1) / real_of_int s1\<rceil> mod 2 = 0)"

text \<open>Lines 289--295: the staggered copy that is handed to the square-plot renderer.\<close>

definition stagger_row :: "int \<times> int \<times> real \<Rightarrow> real \<Rightarrow> psm_row \<Rightarrow> psm_row" where
  "stagger_row st staggerM r =
     (if stagger_check st r
      then r\<lparr>c3 := c3 r + staggerM, c5 := c5 r + staggerM,
             c7 := c7 r + staggerM, c9 := c9 r + staggerM\<rparr>
      else r)"

text \<open>Lines 300--312.\<close>

definition buffer_row :: "real \<Rightarrow> real \<Rightarrow> psm_row \<Rightarrow> psm_row" where
  "buffer_row RangeBufferM RowBufferM r =
     r\<lparr>c3 := c3 r + RangeBufferM, c4 := c4 r + RowBufferM,
       c5 := c5 r + RangeBufferM, c6 := c6 r - RowBufferM,
       c7 := c7 r - RangeBufferM, c8 := c8 r - RowBufferM,
       c9 := c9 r - RangeBufferM, c10 := c10 r + RowBufferM\<rparr>"

text \<open>Lines 324--336: the origin (Easting, Northing) used for staggered plots.\<close>

definition stag_origin :: "ab_line \<Rightarrow> real \<times> real \<Rightarrow> real \<Rightarrow> real \<times> real" where
  "stag_origin ab A staggerM =
     (if DeltaNorthing ab > 0 \<and> DeltaEasting ab > 0 then
        (fst A - staggerM * sin (Theta ab), snd A + staggerM * cos (Theta ab))
      else if DeltaNorthing ab > 0 \<and> DeltaEasting ab < 0 then
        (fst A - staggerM * cos (Theta ab), snd A + staggerM * sin (Theta ab))
      else if DeltaNorthing ab < 0 \<and> DeltaEasting ab < 0 then
        (fst A - staggerM * cos (Theta ab), snd A + staggerM * sin (Theta ab))
      else
        (fst A + staggerM * cos (Theta ab), snd A - staggerM * sin (Theta ab)))"

text \<open>Lines 343--349: the origin of row \<open>r\<close>.\<close>

definition origin_of ::
  "(int \<times> int \<times> real) option \<Rightarrow> real \<times> real \<Rightarrow> real \<times> real \<Rightarrow> psm_row \<Rightarrow> real \<times> real" where
  "origin_of stagger corner_0_0 corner_0_0_stag r =
     (case stagger of
        None \<Rightarrow> corner_0_0
      | Some st \<Rightarrow> if stagger_check st r then corner_0_0_stag else corner_0_0)"

text \<open>Lines 352--366 for one row: every corner (Y, X) is rotated and moved to the origin.\<close>

definition rotate_row :: "real \<Rightarrow> real \<times> real \<Rightarrow> psm_row \<Rightarrow> psm_row" where
  "rotate_row th origin r =
     r\<lparr>c3 := c3 r * cos th + c4 r * sin th + snd origin,
       c4 := c4 r * cos th - c3 r * sin th + fst origin,
       c5 := c5 r * cos th + c6 r * sin th + snd origin,
       c6 := c6 r * cos th - c5 r * sin th + fst origin,
       c7 := c7 r * cos th + c8 r * sin th + snd origin,
       c8 := c8 r * cos th - c7 r * sin th + fst origin,
       c9 := c9 r * cos th + c10 r * sin th + snd origin,
       c10 := c10 r * cos th - c9 r * sin th + fst origin\<rparr>"

text \<open>The closed ring of \<^verbatim>\<open>_write_shapefile\<close>, in (X, Y) order (lines 467--473).\<close>

definition ring :: "psm_row \<Rightarrow> (real \<times> real) list" where
  "ring r = [(c4 r, c3 r), (c6 r, c5 r), (c8 r, c7 r), (c10 r, c9 r), (c4 r, c3 r)]"

subsection \<open>The same geometry in float64 arithmetic\<close>

text \<open>
  The matrix is a numpy array of float64 and the spacings are Python floats, so every
  arithmetic operation of lines 166--178 and 272--366 returns the float64 nearest to its
  exact result, ties going to the even significand. \<open>float64\<close> is that rounding: a
  significand of 53 bits, exponents from \<open>-1022\<close> on, below which the spacing of the
  numbers stays \<open>2\<^sup>-\<^sup>1\<^sup>0\<^sup>7\<^sup>4\<close>. Results of magnitude \<open>2\<^sup>1\<^sup>0\<^sup>2\<^sup>4\<close> and more, which float64
  turns into infinities, are far from the coordinates of a field and are left out.
\<close>

text \<open>The nearest integer, the even one of two that are equally near.\<close>

definition round_even :: "real \<Rightarrow> int" where
  "round_even x =
     (let f = \<lfloor>x\<rfloor>; d = x - of_int f
      in if d < 1 / 2 then f else if 1 / 2 < d then f + 1 else if even f then f else f + 1)"

text \<open>The binary exponent of a nonzero number: \<open>2\<^sup>e \<le> \<bar>x\<bar> < 2\<^sup>e\<^sup>+\<^sup>1\<close>.\<close>

definition expo :: "real \<Rightarrow> int" where
  "expo x = (if 1 \<le> \<bar>x\<bar> then bitlen \<lfloor>\<bar>x\<bar>\<rfloor> - 1 else - bitlen (\<lceil>1 / \<bar>x\<bar>\<rceil> - 1))"

definition float64 :: "real \<Rightarrow> real" where
  "float64 x =
     (if x = 0 then 0
      else let e = max (expo x) (- 1022) - 52
           in of_int (round_even (x / 2 powi e)) * 2 powi e)"

text \<open>
  Lines 167--178 in float64: the literal \<^verbatim>\<open>3.281\<close> is itself the nearest float64, and the
  quotient is rounded.
\<close>

definition to_meters_f64 :: "string \<Rightarrow> real \<Rightarrow> real" where
  "to_meters_f64 u v = (if u = ''feet'' then float64 (v / float64 3.281) else v)"

text \<open>Lines 272--284 in float64: a difference, a product and a sum for each coordinate.\<close>

definition square_corners_f64 :: "real \<Rightarrow> real \<Rightarrow> psm_row \<Rightarrow> psm_row" where
  "square_corners_f64 RangeSpacingM RowSpacingM r =
     r\<lparr>c3 := float64 (0 + float64 (float64 (real_of_int (c1 r) - 1) * RangeSpacingM)),
       c4 := float64 (0 + float64 (float64 (real_of_int (c2 r) - 1) * RowSpacingM)),
       c5 := float64 (0 + float64 (float64 (real_of_int (c1 r) - 1) * RangeSpacingM)),
       c6 := float64 (0 + float64 (real_of_int (c2 r) * RowSpacingM)),
       c7 := float64 (0 + float64 (real_of_int (c1 r) * RangeSpacingM)),
       c8 := float64 (0 + float64 (real_of_int (c2 r) * RowSpacingM)),
       c9 := float64 (0 + float64 (real_of_int (c1 r) * RangeSpacingM)),
       c10 := float64 (0 + float64 (float64 (real_of_int (c2 r) - 1) * RowSpacingM))\<rparr>"

text \<open>
  Lines 352--366 in float64 for one row. \<open>cosT\<close> and \<open>sinT\<close> are the float64 numbers that
  \<^verbatim>\<open>np.cos(Theta)\<close> and \<^verbatim>\<open>np.sin(Theta)\<close> return; the two products, their sum or
  difference, and the sum with the origin are rounded one after the other.
\<close>

definition rotate_row_f64 :: "real \<Rightarrow> real \<Rightarrow> real \<times> real \<Rightarrow> psm_row \<Rightarrow> psm_row" where
  "rotate_row_f64 cosT sinT origin r =
     r\<lparr>c3 := float64 (float64 (float64 (c3 r * cosT) + float64 (c4 r * sinT)) + snd origin),
       c4 := float64 (float64 (float64 (c4 r * cosT) - float64 (c3 r * sinT)) + fst origin),
       c5 := float64 (float64 (float64 (c5 r * cosT) + float64 (c6 r * sinT)) + snd origin),
       c6 := float64 (float64 (float64 (c6 r * cosT) - float64 (c5 r * sinT)) + fst origin),
       c7 := float64 (float64 (float64 (c7 r * cosT) + float64 (c8 r * sinT)) + snd origin),
       c8 := float64 (float64 (float64 (c8 r * cosT) - float64 (c7 r * sinT)) + fst origin),
       c9 := float64 (float64 (float64 (c9 r * cosT) + float64 (c10 r * sinT)) + snd origin),
       c10 := float64 (float64 (float64 (c10 r * cosT) - float64 (c9 r * sinT)) + fst origin)\<rparr>"

section \<open>The operation \<^verbatim>\<open>plotshpcreate\<close>\<close>

text \<open>
  The parameters of \<^verbatim>\<open>plotshpcreate\<close>. \<open>A_point\<close>, \<open>B_point\<close>, \<open>field_id\<close> and \<open>unit_name\<close>
  are the parameters \<^verbatim>\<open>A\<close>, \<^verbatim>\<open>B\<close>, \<^verbatim>\<open>field\<close> and \<^verbatim>\<open>unit\<close>.
\<close>

record args =
  A_point :: "real \<times> real"
  B_point :: "real \<times> real"
  infile :: dataframe
  outfile :: string
  UTMzone :: "string option"
  Hemisphere :: string
  nrowplot :: int
  multirowind :: bool
  rowspc :: real
  rowbuf :: real
  rangespc :: real
  rangebuf :: real
  stagger :: "(int \<times> int \<times> real) option"
  plotsubset :: int
  field_id :: "string option"
  unit_name :: string
  SquarePlot :: bool
  RotatePlot :: bool

text \<open>
  What a call does besides returning: the warnings it issues and the artifacts it hands to
  the renderer and to the shapefile writer, in the order of the calls. A shapefile is its
  file name, its coordinate reference system and its (id, ring) records.
\<close>

datatype event =
    Warning string
  | SquarePdf string "psm_row list" "psm_row list" "string list"
  | RotatedPdf string "psm_row list" "psm_row list" "string list" real
  | Shapefile string "string option" "(string \<times> (real \<times> real) list) list"

fun is_artifact :: "event \<Rightarrow> bool" where
  "is_artifact (Warning _) = False"
| "is_artifact _ = True"

text \<open>\<^verbatim>\<open>f"{field}_{outfile}" if field else f"{outfile}"\<close>.\<close>

definition prefixed :: "string option \<Rightarrow> string \<Rightarrow> string" where
  "prefixed fld out =
     (case fld of None \<Rightarrow> out | Some f \<Rightarrow> if f = [] then out else f @ ''_'' @ out)"

text \<open>Lines 374--382.\<close>

definition crs_of :: "string option \<Rightarrow> string \<Rightarrow> string option" where
  "crs_of zone hemi =
     (case zone of
        None \<Rightarrow> None
      | Some z \<Rightarrow>
          if hemi = ''N''
          then Some (''+proj=utm +zone='' @ z @ '' +datum=NAD83 +units=m +no_defs +ellps=GRS80'')
          else Some (''+proj=utm +zone='' @ z @ '' +south +datum=NAD83 +units=m +no_defs +ellps=GRS80''))"

text \<open>
  \<^verbatim>\<open>_write_shapefile\<close>: one polygon per matrix row; the GeoDataFrame constructor raises
  \<^verbatim>\<open>ValueError\<close> when the id column and the geometry column differ in length.
\<close>

definition write_shapefile ::
  "psm_row list \<Rightarrow> string list \<Rightarrow> string option \<Rightarrow> string \<Rightarrow> string option \<Rightarrow> bool
     \<Rightarrow> error + event" where
  "write_shapefile PlotsAdjusted row_names fld out crs buffered =
     (let polygons = map ring PlotsAdjusted in
      if length row_names \<noteq> length polygons then Inl LibraryValueError
      else Inr (Shapefile (prefixed fld out @ (if buffered then ''_buff.shp'' else ''.shp''))
                  crs (zip row_names polygons)))"

text \<open>Row spacing in meters (lines 167--178 and 192--196).\<close>

definition row_spacing_m :: "args \<Rightarrow> real" where
  "row_spacing_m a =
     (if nrowplot a > 1 \<and> \<not> multirowind a \<and> plotsubset a = 0
      then to_meters (unit_name a) (real_of_int (nrowplot a) * rowspc a)
      else to_meters (unit_name a) (rowspc a))"

text \<open>
  The loops over the matrix (lines 272--366) read and write row \<open>i\<close> only, so each is a
  map of a function of one row. \<open>square_row\<close> is lines 272--284 for one row.
\<close>

definition square_row :: "args \<Rightarrow> psm_row \<Rightarrow> psm_row" where
  "square_row a r =
     square_corners (to_meters (unit_name a) (rangespc a)) (row_spacing_m a) r"

definition plots_square :: "args \<Rightarrow> psm_row list \<Rightarrow> psm_row list" where
  "plots_square a M = map (square_row a) M"

text \<open>Row spacing and one row of \<^verbatim>\<open>PlotsSquareM\<close> in float64.\<close>

definition row_spacing_m_f64 :: "args \<Rightarrow> real" where
  "row_spacing_m_f64 a =
     (if nrowplot a > 1 \<and> \<not> multirowind a \<and> plotsubset a = 0
      then to_meters_f64 (unit_name a) (float64 (real_of_int (nrowplot a) * rowspc a))
      else to_meters_f64 (unit_name a) (rowspc a))"

definition square_row_f64 :: "args \<Rightarrow> psm_row \<Rightarrow> psm_row" where
  "square_row_f64 a r =
     square_corners_f64 (to_meters_f64 (unit_name a) (rangespc a)) (row_spacing_m_f64 a) r"

text \<open>
  \<^verbatim>\<open>PlotSquare4plot\<close>: copied at line 267, before the corners are set; replaced by the
  staggered copy of the matrix only when a stagger is given (lines 287--295).
\<close>

definition plot_square_4plot :: "args \<Rightarrow> psm_row list \<Rightarrow> psm_row list" where
  "plot_square_4plot a M =
     (case stagger a of
        None \<Rightarrow> M
      | Some st \<Rightarrow>
          map (stagger_row st (to_meters (unit_name a) (snd (snd st)))) (plots_square a M))"

definition buffer_of :: "args \<Rightarrow> psm_row \<Rightarrow> psm_row" where
  "buffer_of a =
     buffer_row (to_meters (unit_name a) (rangebuf a)) (to_meters (unit_name a) (rowbuf a))"

text \<open>The origin of a row: \<open>A\<close>, or the staggered origin (lines 320--349).\<close>

definition row_origin :: "args \<Rightarrow> ab_line \<Rightarrow> psm_row \<Rightarrow> real \<times> real" where
  "row_origin a ab r =
     (case stagger a of
        None \<Rightarrow> A_point a
      | Some st \<Rightarrow>
          origin_of (stagger a) (A_point a)
            (stag_origin ab (A_point a) (to_meters (unit_name a) (snd (snd st)))) r)"

text \<open>
  One row of \<^verbatim>\<open>PlotsAdjustedM\<close> and of \<^verbatim>\<open>PlotsAdjustedMBuf\<close> (lines 338--366): the
  origin is chosen from column 11 of \<^verbatim>\<open>PlotsSquareM\<close> for both.
\<close>

definition adjusted_row :: "args \<Rightarrow> ab_line \<Rightarrow> psm_row \<Rightarrow> psm_row" where
  "adjusted_row a ab r =
     (let q = square_row a r in rotate_row (Theta ab) (row_origin a ab q) q)"

definition adjusted_buf_row :: "args \<Rightarrow> ab_line \<Rightarrow> psm_row \<Rightarrow> psm_row" where
  "adjusted_buf_row a ab r =
     (let q = square_row a r in rotate_row (Theta ab) (row_origin a ab q) (buffer_of a q))"

definition plots_adjusted :: "args \<Rightarrow> ab_line \<Rightarrow> psm_row list \<Rightarrow> psm_row list" where
  "plots_adjusted a ab M = map (adjusted_row a ab) M"

definition plots_adjusted_buf :: "args \<Rightarrow> ab_line \<Rightarrow> psm_row list \<Rightarrow> psm_row list" where
  "plots_adjusted_buf a ab M = map (adjusted_buf_row a ab) M"

text \<open>The two warnings of the function (lines 144--145 and 374--377).\<close>

definition length_warning :: "nat \<Rightarrow> nat \<Rightarrow> nat \<Rightarrow> event list" where
  "length_warning nPlot nRange nRow =
     (if nPlot \<noteq> nRange * nRow
      then [Warning ''Length of file is not equal to number of plots: may cause errors'']
      else [])"

definition crs_warning :: "args \<Rightarrow> event list" where
  "crs_warning a =
     (if UTMzone a = None
      then [Warning ''Coordinate reference system not defined'']
      else [])"

text \<open>
  Lines 269--386 on the serpentine-ordered matrix \<open>M\<close> and its labels. The renderers take
  \<^verbatim>\<open>max()\<close> and \<^verbatim>\<open>min()\<close> of a column and raise \<^verbatim>\<open>ValueError\<close> on a matrix without rows.
\<close>

definition emit ::
  "args \<Rightarrow> ab_line \<Rightarrow> psm_row list \<Rightarrow> string list \<Rightarrow> event list \<times> (error + unit)" where
  "emit a ab M row_names =
     (let PlotSquare4plot = plot_square_4plot a M;
          PlotsSquareMBuf = map (buffer_of a) (plots_square a M);
          PlotsAdjustedM = plots_adjusted a ab M;
          PlotsAdjustedMBuf = plots_adjusted_buf a ab M
      in
      if SquarePlot a \<and> PlotSquare4plot = [] then ([], Inl LibraryValueError)
      else
        let ev1 = (if SquarePlot a
                   then [SquarePdf (prefixed (field_id a) (outfile a) @ ''_Square_plots.pdf'')
                           PlotSquare4plot PlotsSquareMBuf row_names]
                   else [])
        in
        if RotatePlot a \<and> PlotsAdjustedM = [] then (ev1, Inl LibraryValueError)
        else
          let ev2 = (if RotatePlot a
                     then [RotatedPdf (prefixed (field_id a) (outfile a) @ ''_Rotated_plots.pdf'')
                             PlotsAdjustedM PlotsAdjustedMBuf row_names (srt_theta ab)]
                     else []);
              w2 = crs_warning a;
              crs = crs_of (UTMzone a) (Hemisphere a)
          in
          case write_shapefile PlotsAdjustedM row_names (field_id a) (outfile a) crs False of
            Inl e \<Rightarrow> (ev1 @ ev2 @ w2, Inl e)
          | Inr shp \<Rightarrow>
              (case write_shapefile PlotsAdjustedMBuf row_names (field_id a) (outfile a) crs True of
                 Inl e \<Rightarrow> (ev1 @ ev2 @ w2 @ [shp], Inl e)
               | Inr shp_buf \<Rightarrow> (ev1 @ ev2 @ w2 @ [shp, shp_buf], Inr ())))"

text \<open>Lines 180--266: the matrix and its labels after row grouping and serpentine ordering.\<close>

definition grid_stage :: "args \<Rightarrow> plot_row list \<Rightarrow> nat \<Rightarrow> error + (psm_row list \<times> string list)" where
  "grid_stage a tbl nRange =
     (case row_grouping (nrowplot a) (multirowind a) (plotsubset a)
             (map Barcode_col tbl) (init_matrix tbl) (map Barcode_col tbl) of
        Inl e \<Rightarrow> Inl e
      | Inr (M, row_names) \<Rightarrow> serpentine nRange M row_names)"

text \<open>
  The whole function: the log of warnings and artifacts, and the outcome. An exception ends
  the call with the log written so far.
\<close>

definition plotshpcreate :: "args \<Rightarrow> event list \<times> (error + unit)" where
  "plotshpcreate a =
     (let missing = missing_cols (infile a) in
      if missing \<noteq> [] then ([], Inl (ValidationError (MissingColumns missing)))
      else
        case check_stagger (stagger a) (nrowplot a) (multirowind a) of
          Inl e \<Rightarrow> ([], Inl e)
        | Inr _ \<Rightarrow>
            let tbl = sort_infile (rows (infile a));
                nRange = length (unique (map Range_col tbl));
                nRow = length (unique (map Row_col tbl));
                nPlot = length tbl;
                w1 = length_warning nPlot nRange nRow
            in
            case ab_line_of (A_point a) (B_point a) of
              Inl e \<Rightarrow> (w1, Inl e)
            | Inr ab \<Rightarrow>
                (case grid_stage a tbl nRange of
                   Inl e \<Rightarrow> (w1, Inl e)
                 | Inr (M, row_names) \<Rightarrow>
                     (case emit a ab M row_names of (evs, res) \<Rightarrow> (w1 @ evs, res))))"

section \<open>Notions used to state the properties\<close>

text \<open>
  The serpentine order in the words of the specification: for each range index from 1 to
  \<open>nRange\<close>, the records of that range sorted ascending by local row, reversed when the
  index is even; the passes concatenated in increasing range order. A record is a matrix
  row paired with whatever travels with it (its label).
\<close>

definition serp_pass :: "int \<Rightarrow> (psm_row \<times> 'a) list \<Rightarrow> (psm_row \<times> 'a) list" where
  "serp_pass i recs =
     (let s = sort_key (\<lambda>p. c2 (fst p)) (filter (\<lambda>p. c1 (fst p) = i) recs)
      in if even i then rev s else s)"

definition serpentine_spec :: "nat \<Rightarrow> (psm_row \<times> 'a) list \<Rightarrow> (psm_row \<times> 'a) list" where
  "serpentine_spec nRange recs = concat (map (\<lambda>i. serp_pass i recs) [1..int nRange])"

text \<open>
  What the specification says of one pass whatever the order of records that share a row:
  the pass holds exactly the records of range \<open>i\<close>, and read forwards (backwards when \<open>i\<close>
  is even) their local rows ascend.
\<close>

definition serp_pass_ok :: "(psm_row \<times> 'a) list \<Rightarrow> int \<Rightarrow> (psm_row \<times> 'a) list \<Rightarrow> bool" where
  "serp_pass_ok recs i pass =
     (mset pass = filter_mset (\<lambda>p. c1 (fst p) = i) (mset recs)
      \<and> sorted (map (\<lambda>p. c2 (fst p)) (if even i then rev pass else pass)))"

text \<open>The pass of range \<open>i\<close> as lines 253--263 build it from the sorting routine \<open>srt\<close>.\<close>

definition pass_by :: "(int list \<Rightarrow> nat list) \<Rightarrow> int \<Rightarrow> (psm_row \<times> 'a) list \<Rightarrow> (psm_row \<times> 'a) list" where
  "pass_by srt i recs =
     (let Z = filter (\<lambda>p. c1 (fst p) = i) recs;
          idx0 = srt (map (\<lambda>p. c2 (fst p)) Z)
      in map (nth Z) (if even i then rev idx0 else idx0))"

text \<open>The records of the shapefiles a call has written, in the order of writing.\<close>

fun shapefile_records :: "event \<Rightarrow> (string \<times> (real \<times> real) list) list list" where
  "shapefile_records (Shapefile name crs recs) = [recs]"
| "shapefile_records _ = []"

definition shapefiles :: "event list \<Rightarrow> (string \<times> (real \<times> real) list) list list" where
  "shapefiles evs = concat (map shapefile_records evs)"





text \<open>The sorted table and \<^verbatim>\<open>nRange\<close> of a call (lines 137 and 140).\<close>

definition table_of :: "args \<Rightarrow> plot_row list" where
  "table_of a = sort_infile (rows (infile a))"

definition n_range :: "args \<Rightarrow> nat" where
  "n_range a = length (unique (map Range_col (table_of a)))"

text \<open>
  The invalid configurations in the words of the specification: a stagger whose start row
  is 1 or exceeds the rows per pass plus one, or that meets combined rows wider than half
  a pass; a subset with one row per plot, fewer than three, or twice the subset; a missing
  required column.
\<close>

definition stagger_invalid :: "args \<Rightarrow> bool" where
  "stagger_invalid a =
     (case stagger a of
        None \<Rightarrow> False
      | Some (startRow, rowsPerPass, offset) \<Rightarrow>
          startRow = 1 \<or> startRow > rowsPerPass + 1 \<or>
          (nrowplot a > 1 \<and> \<not> multirowind a
            \<and> real_of_int (nrowplot a) > real_of_int rowsPerPass / 2))"

definition subset_invalid :: "args \<Rightarrow> bool" where
  "subset_invalid a =
     (plotsubset a \<noteq> 0 \<and>
      (nrowplot a = 1 \<or> nrowplot a < 3 \<or> nrowplot a = 2 * plotsubset a))"

definition invalid_configuration :: "args \<Rightarrow> bool" where
  "invalid_configuration a =
     (stagger_invalid a \<or> subset_invalid a \<or> missing_cols (infile a) \<noteq> [])"

definition raises_validation :: "args \<Rightarrow> bool" where
  "raises_validation a = (case snd (plotshpcreate a) of Inl (ValidationError v) \<Rightarrow> True | _ \<Rightarrow> False)"

text \<open>
  Inputs of the repository's tests and examples: the fixture \<^verbatim>\<open>sample_data\<close> of
  \<^verbatim>\<open>tests/test_plotshpcreate.py\<close>, and a call that leaves every optional parameter at the
  default of the signature (lines 19--38).
\<close>

definition sample_data :: dataframe where
  "sample_data =
     \<lparr>columns = [''Plot'', ''Range'', ''Row'', ''Barcode''],
      rows = [\<lparr>Plot_col = 1, Range_col = 1, Row_col = 1, Barcode_col = ''BC001''\<rparr>,
              \<lparr>Plot_col = 1, Range_col = 1, Row_col = 2, Barcode_col = ''BC002''\<rparr>,
              \<lparr>Plot_col = 2, Range_col = 1, Row_col = 3, Barcode_col = ''BC003''\<rparr>,
              \<lparr>Plot_col = 2, Range_col = 1, Row_col = 4, Barcode_col = ''BC004''\<rparr>,
              \<lparr>Plot_col = 3, Range_col = 2, Row_col = 1, Barcode_col = ''BC005''\<rparr>,
              \<lparr>Plot_col = 3, Range_col = 2, Row_col = 2, Barcode_col = ''BC006''\<rparr>,
              \<lparr>Plot_col = 4, Range_col = 2, Row_col = 3, Barcode_col = ''BC007''\<rparr>,
              \<lparr>Plot_col = 4, Range_col = 2, Row_col = 4, Barcode_col = ''BC008''\<rparr>]\<rparr>"

text \<open>
  Two further tables: the grid of three ranges by two rows of the specification's serpentine
  example, and a table whose Range column skips the value 2.
\<close>

definition grid_3x2 :: "plot_row list" where
  "grid_3x2 =
     [\<lparr>Plot_col = 1, Range_col = 1, Row_col = 1, Barcode_col = ''P1''\<rparr>,
      \<lparr>Plot_col = 2, Range_col = 1, Row_col = 2, Barcode_col = ''P2''\<rparr>,
      \<lparr>Plot_col = 3, Range_col = 2, Row_col = 1, Barcode_col = ''P3''\<rparr>,
      \<lparr>Plot_col = 4, Range_col = 2, Row_col = 2, Barcode_col = ''P4''\<rparr>,
      \<lparr>Plot_col = 5, Range_col = 3, Row_col = 1, Barcode_col = ''P5''\<rparr>,
      \<lparr>Plot_col = 6, Range_col = 3, Row_col = 2, Barcode_col = ''P6''\<rparr>]"

definition gapped_data :: dataframe where
  "gapped_data =
     \<lparr>columns = [''Plot'', ''Range'', ''Row'', ''Barcode''],
      rows = [\<lparr>Plot_col = 1, Range_col = 1, Row_col = 1, Barcode_col = ''G1''\<rparr>,
              \<lparr>Plot_col = 2, Range_col = 1, Row_col = 2, Barcode_col = ''G2''\<rparr>,
              \<lparr>Plot_col = 3, Range_col = 3, Row_col = 1, Barcode_col = ''G3''\<rparr>,
              \<lparr>Plot_col = 4, Range_col = 3, Row_col = 2, Barcode_col = ''G4''\<rparr>]\<rparr>"

definition default_args :: "real \<times> real \<Rightarrow> real \<times> real \<Rightarrow> dataframe \<Rightarrow> string \<Rightarrow> args" where
  "default_args A B df out =
     \<lparr>A_point = A, B_point = B, infile = df, outfile = out, UTMzone = None,
      Hemisphere = ''N'', nrowplot = 1, multirowind = False, rowspc = 2.5, rowbuf = 0.1,
      rangespc = 25, rangebuf = 2, stagger = None, plotsubset = 0, field_id = None,
      unit_name = ''feet'', SquarePlot = True, RotatePlot = True\<rparr>"

section \<open>Properties\<close>

subsection \<open>Masks, index lists and sorting\<close>

lemma compress_map: "compress (map P xs) xs = filter P xs"
  by (induction xs) (auto simp: compress_def)

lemma compress_map_zip:
  "length ys = length xs \<Longrightarrow>
   compress (map P xs) ys = map snd (filter (\<lambda>p. P (fst p)) (zip xs ys))"
  by (induction xs ys rule: list_induct2') (auto simp: compress_def)

lemma compress_zip:
  "zip (compress m xs) (compress m ys) = compress m (zip xs ys)"
proof (induction m arbitrary: xs ys)
  case Nil
  then show ?case by (simp add: compress_def)
next
  case (Cons b m)
  then show ?case
    by (cases xs; cases ys) (auto simp: compress_def)
qed

lemma length_compress_map:
  "length ys = length xs \<Longrightarrow> length (compress (map P xs) ys) = length (filter P xs)"
  by (induction xs ys rule: list_induct2') (auto simp: compress_def)

lemma select_names_ok:
  "length msk \<le> length names \<Longrightarrow> select_names msk names = Inr (compress msk names)"
  by (auto simp: select_names_def list_ex_iff)

lemma insort_key_map:
  "map g (insort_key (\<lambda>j. f (g j)) x xs) = insort_key f (g x) (map g xs)"
  by (induction xs) auto

lemma sort_key_map:
  "map g (sort_key (\<lambda>j. f (g j)) xs) = sort_key f (map g xs)"
  by (induction xs) (auto simp: insort_key_map)

lemma insort_key_cong_set:
  "f x = g x \<Longrightarrow> (\<And>y. y \<in> set ys \<Longrightarrow> f y = g y) \<Longrightarrow> insort_key f x ys = insort_key g x ys"
  by (induction ys) auto

lemma sort_key_cong_set:
  "(\<And>x. x \<in> set xs \<Longrightarrow> f x = g x) \<Longrightarrow> sort_key f xs = sort_key g xs"
proof (induction xs)
  case Nil
  then show ?case by simp
next
  case (Cons x xs)
  have "sort_key f xs = sort_key g xs" using Cons by simp
  moreover have "insort_key f x (sort_key g xs) = insort_key g x (sort_key g xs)"
    by (rule insort_key_cong_set) (use Cons.prems in auto)
  ultimately show ?case by simp
qed

lemma argsort_sorts:
  assumes "length ks = length zs" and "\<And>j. j < length zs \<Longrightarrow> ks ! j = h (zs ! j)"
  shows "map (nth zs) (argsort ks) = sort_key h zs"
proof -
  have "sort_key (\<lambda>j. ks ! j) [0..<length ks] = sort_key (\<lambda>j. h (zs ! j)) [0..<length ks]"
    by (rule sort_key_cong_set) (use assms in simp)
  hence "map (nth zs) (argsort ks) = map (nth zs) (sort_key (\<lambda>j. h (zs ! j)) [0..<length zs])"
    by (simp add: argsort_def assms(1))
  also have "\<dots> = sort_key h (map (nth zs) [0..<length zs])"
    by (rule sort_key_map)
  finally show ?thesis by (simp add: map_nth)
qed

lemma set_argsort: "set (argsort ks) = {0..<length ks}"
  by (simp add: argsort_def)

lemma length_argsort: "length (argsort ks) = length ks"
  by (simp add: argsort_def)


lemma filter_fst_zip:
  "length ys = length xs \<Longrightarrow> map fst (filter (\<lambda>p. P (fst p)) (zip xs ys)) = filter P xs"
  by (induction xs ys rule: list_induct2') auto

lemma index_all_ok:
  "\<forall>j\<in>set idx. j < length xs \<Longrightarrow> index_all xs idx = Inr (map (nth xs) idx)"
  by (auto simp: index_all_def list_ex_iff)

lemma map_nth_map:
  "\<forall>j\<in>set idx. j < length zs \<Longrightarrow> map (nth (map f zs)) idx = map f (map (nth zs) idx)"
  by (induction idx) auto

lemma serp_range_eq:
  assumes len: "length row_names = length M"
  shows "serp_range argsort M row_names i =
           Inr (map fst (serp_pass i (zip M row_names)), map snd (serp_pass i (zip M row_names)))"
proof -
  define Z where "Z = filter (\<lambda>p. c1 (fst p) = i) (zip M row_names)"
  define idx0 where "idx0 = argsort (map c2 (map fst Z))"
  define idx where "idx = (if i mod 2 = 0 then rev idx0 else idx0)"
  have sub: "compress (map (\<lambda>r. c1 r = i) M) M = map fst Z"
    by (simp add: compress_map Z_def filter_fst_zip [where P = "\<lambda>r. c1 r = i"] len)
  have nms: "select_names (map (\<lambda>r. c1 r = i) M) row_names = Inr (map snd Z)"
    by (simp add: select_names_ok len compress_map_zip Z_def)
  have bound: "\<forall>j\<in>set idx. j < length Z"
    by (auto simp: idx_def idx0_def set_argsort)
  have sorted0: "map (nth Z) idx0 = sort_key (\<lambda>p. c2 (fst p)) Z"
    unfolding idx0_def by (rule argsort_sorts) simp_all
  have revd: "map (nth Z) (rev idx0) = rev (sort_key (\<lambda>p. c2 (fst p)) Z)"
    by (simp only: rev_map [symmetric] sorted0)
  have sortedZ: "map (nth Z) idx = serp_pass i (zip M row_names)"
    using sorted0 revd unfolding idx_def serp_pass_def Z_def Let_def
    by (simp add: even_iff_mod_2_eq_zero)
  have ia: "index_all (map snd Z) idx = Inr (map (nth (map snd Z)) idx)"
    by (rule index_all_ok) (use bound in simp)
  have "serp_range argsort M row_names i =
          (case index_all (map snd Z) idx of
             Inl e \<Rightarrow> Inl e
           | Inr names' \<Rightarrow> Inr (map (nth (map fst Z)) idx, names'))"
    unfolding serp_range_def Let_def sub nms idx_def idx0_def by (simp only: sum.case)
  hence "serp_range argsort M row_names i = Inr (map (nth (map fst Z)) idx, map (nth (map snd Z)) idx)"
    by (simp only: ia sum.case)
  thus ?thesis
    by (simp add: map_nth_map bound sortedZ)
qed

lemma serp_loop_eq:
  assumes len: "length row_names = length M"
  shows "serp_loop argsort M row_names is =
           Inr (map (\<lambda>i. map fst (serp_pass i (zip M row_names))) is,
                concat (map (\<lambda>i. map snd (serp_pass i (zip M row_names))) is))"
  by (induction "is") (simp_all add: serp_range_eq [OF len])

lemma serpentine_eq:
  assumes len: "length row_names = length M" and pos: "0 < nRange"
  shows "serpentine nRange M row_names =
           Inr (map fst (serpentine_spec nRange (zip M row_names)),
                map snd (serpentine_spec nRange (zip M row_names)))"
proof -
  have ne: "[1..int nRange] \<noteq> []" using pos by (simp add: upto.simps)
  show ?thesis
    using ne by (simp add: serpentine_def serpentine_by_def serp_loop_eq [OF len] serpentine_spec_def map_concat comp_def)
qed

lemma serpentine_empty: "serpentine 0 M row_names = Inl LibraryValueError"
  by (simp add: serpentine_def serpentine_by_def)


lemma is_argsort_set: "is_argsort ks idx \<Longrightarrow> set idx = {0..<length ks}"
  by (metis is_argsort_def mset_eq_setD set_upt)

lemma is_argsort_argsort: "is_argsort ks (argsort ks)"
proof -
  have "sorted (map (nth ks) (sort_key (nth ks) [0..<length ks]))"
    by (rule sorted_sort_key)
  thus ?thesis unfolding is_argsort_def argsort_def by simp
qed

lemma mset_map_nth_perm:
  assumes "mset idx = mset [0..<length zs]"
  shows "mset (map (nth zs) idx) = mset zs"
proof -
  have "mset (map (nth zs) idx) = image_mset (nth zs) (mset idx)" by simp
  also have "\<dots> = mset (map (nth zs) [0..<length zs])" unfolding assms by simp
  finally show ?thesis by (simp add: map_nth)
qed

lemma serp_range_by_eq:
  assumes srt: "\<And>ks. is_argsort ks (srt ks)" and len: "length row_names = length M"
  shows "serp_range srt M row_names i =
           Inr (map fst (pass_by srt i (zip M row_names)), map snd (pass_by srt i (zip M row_names)))"
proof -
  define Z where "Z = filter (\<lambda>p. c1 (fst p) = i) (zip M row_names)"
  define idx0 where "idx0 = srt (map c2 (map fst Z))"
  define idx where "idx = (if i mod 2 = 0 then rev idx0 else idx0)"
  have sub: "compress (map (\<lambda>r. c1 r = i) M) M = map fst Z"
    by (simp add: compress_map Z_def filter_fst_zip [where P = "\<lambda>r. c1 r = i"] len)
  have nms: "select_names (map (\<lambda>r. c1 r = i) M) row_names = Inr (map snd Z)"
    by (simp add: select_names_ok len compress_map_zip Z_def)
  have "set idx0 = {0..<length Z}"
    using is_argsort_set [OF srt, of "map c2 (map fst Z)"] by (simp add: idx0_def)
  hence bound: "\<forall>j\<in>set idx. j < length Z"
    by (auto simp: idx_def)
  have P: "map (nth Z) idx = pass_by srt i (zip M row_names)"
    unfolding pass_by_def Let_def idx_def idx0_def Z_def
    by (simp add: even_iff_mod_2_eq_zero comp_def)
  have ia: "index_all (map snd Z) idx = Inr (map (nth (map snd Z)) idx)"
    by (rule index_all_ok) (use bound in simp)
  have "serp_range srt M row_names i =
          (case index_all (map snd Z) idx of
             Inl e \<Rightarrow> Inl e
           | Inr names' \<Rightarrow> Inr (map (nth (map fst Z)) idx, names'))"
    unfolding serp_range_def Let_def sub nms idx_def idx0_def by (simp only: sum.case)
  hence "serp_range srt M row_names i = Inr (map (nth (map fst Z)) idx, map (nth (map snd Z)) idx)"
    by (simp only: ia sum.case)
  thus ?thesis
    by (simp add: map_nth_map bound P)
qed

lemma pass_by_ok:
  assumes srt: "\<And>ks. is_argsort ks (srt ks)"
  shows "serp_pass_ok recs i (pass_by srt i recs)"
proof -
  define Z where "Z = filter (\<lambda>p. c1 (fst p) = i) recs"
  define ks where "ks = map (\<lambda>p. c2 (fst p)) Z"
  define idx0 where "idx0 = srt ks"
  have a: "is_argsort ks idx0" unfolding idx0_def by (rule srt)
  have lz: "length ks = length Z" by (simp add: ks_def)
  have perm: "mset idx0 = mset [0..<length Z]" using a by (simp add: is_argsort_def lz)
  have bound: "\<forall>j\<in>set idx0. j < length Z"
    using is_argsort_set [OF a] by (simp add: lz)
  have m0: "mset (map (nth Z) idx0) = mset Z" by (rule mset_map_nth_perm [OF perm])
  have "mset (map (nth Z) (rev idx0)) = mset (map (nth Z) idx0)"
    by (simp add: rev_map [symmetric] del: rev_map)
  hence m1: "mset (map (nth Z) (rev idx0)) = mset Z" using m0 by simp
  have keys: "map (\<lambda>p. c2 (fst p)) (map (nth Z) idx0) = map (nth ks) idx0"
    unfolding ks_def using map_nth_map [OF bound, of "\<lambda>p. c2 (fst p)"] by simp
  have s0: "sorted (map (\<lambda>p. c2 (fst p)) (map (nth Z) idx0))"
    unfolding keys using a by (simp add: is_argsort_def)
  have r: "rev (map (nth Z) (rev idx0)) = map (nth Z) idx0"
    by (simp add: rev_map)
  have P: "pass_by srt i recs = map (nth Z) (if even i then rev idx0 else idx0)"
    by (simp add: pass_by_def Let_def Z_def idx0_def ks_def)
  show ?thesis
  proof (cases "even i")
    case True
    thus ?thesis unfolding serp_pass_ok_def P using m1 s0 r by (simp add: Z_def)
  next
    case False
    thus ?thesis unfolding serp_pass_ok_def P using m0 s0 by (simp add: Z_def)
  qed
qed

lemma serp_pass_ok_unique:
  assumes ok: "serp_pass_ok recs i pass"
    and d: "distinct (map (\<lambda>p. c2 (fst p)) (filter (\<lambda>p. c1 (fst p) = i) recs))"
  shows "pass = serp_pass i recs"
proof -
  define Z where "Z = filter (\<lambda>p. c1 (fst p) = i) recs"
  define key where "key = (\<lambda>p::psm_row \<times> 'a. c2 (fst p))"
  define xs where "xs = (if even i then rev pass else pass)"
  have mx: "mset xs = mset Z" using ok by (simp add: serp_pass_ok_def xs_def Z_def)
  have sx: "sorted (map key xs)" using ok by (simp add: serp_pass_ok_def xs_def key_def)
  have dZ: "distinct (map key Z)" using d by (simp add: Z_def key_def)
  have dx: "distinct (map key xs)"
    using dZ mx by (metis mset_eq_imp_distinct_iff mset_map)
  have inj: "inj_on key (set xs \<union> set (sort_key key Z))"
    using dZ mx by (metis distinct_map mset_eq_setD set_sort sup.idem)
  have "xs = sort_key key Z"
  proof (rule map_sorted_distinct_set_unique [OF inj sx dx])
    show "sorted (map key (sort_key key Z))" by simp
    show "distinct (map key (sort_key key Z))" using dZ by (simp add: distinct_map)
    show "set xs = set (sort_key key Z)" using mx by (metis mset_eq_setD set_sort)
  qed
  hence "(if even i then rev pass else pass) = sort_key key Z" by (simp add: xs_def)
  hence "pass = (if even i then rev (sort_key key Z) else sort_key key Z)"
    by (cases "even i") (simp_all add: rev_swap)
  thus ?thesis by (simp add: serp_pass_def Let_def Z_def key_def)
qed


lemma serp_loop_by_eq:
  assumes srt: "\<And>ks. is_argsort ks (srt ks)" and len: "length row_names = length M"
  shows "serp_loop srt M row_names is =
           Inr (map (\<lambda>i. map fst (pass_by srt i (zip M row_names))) is,
                concat (map (\<lambda>i. map snd (pass_by srt i (zip M row_names))) is))"
  by (induction "is") (simp_all add: serp_range_by_eq [OF srt len])

lemma serpentine_by_eq:
  assumes srt: "\<And>ks. is_argsort ks (srt ks)"
    and len: "length row_names = length M" and pos: "0 < nRange"
  shows "serpentine_by srt nRange M row_names =
           Inr (map fst (concat (map (\<lambda>i. pass_by srt i (zip M row_names)) [1..int nRange])),
                map snd (concat (map (\<lambda>i. pass_by srt i (zip M row_names)) [1..int nRange])))"
proof -
  have ne: "[1..int nRange] \<noteq> []" using pos by (simp add: upto.simps)
  show ?thesis
    using ne by (simp add: serpentine_by_def serp_loop_by_eq [OF srt len] map_concat comp_def)
qed

lemma mset_concat_passes:
  assumes "\<And>i. mset (f i) = filter_mset (\<lambda>p. c1 (fst p) = i) (mset recs)"
  shows "mset (concat (map f [1..int n])) =
     filter_mset (\<lambda>p. 1 \<le> c1 (fst p) \<and> c1 (fst p) \<le> int n) (mset recs)"
proof (induction n)
  case 0
  have "\<And>p. \<not> (1 \<le> c1 (fst p) \<and> c1 (fst p) \<le> 0)" by auto
  then show ?case by simp
next
  case (Suc n)
  have up: "[1..int (Suc n)] = [1..int n] @ [int n + 1]"
    by (simp add: upto_rec2)
  have "mset (concat (map f [1..int (Suc n)])) =
          mset (concat (map f [1..int n])) + mset (f (int n + 1))"
    unfolding up by simp
  also have "\<dots> = filter_mset (\<lambda>p. 1 \<le> c1 (fst p) \<and> c1 (fst p) \<le> int n) (mset recs)
                  + filter_mset (\<lambda>p. c1 (fst p) = int n + 1) (mset recs)"
    by (simp add: Suc.IH assms)
  also have "\<dots> = filter_mset (\<lambda>p. 1 \<le> c1 (fst p) \<and> c1 (fst p) \<le> int (Suc n)) (mset recs)"
    by (rule multiset_eqI) auto
  finally show ?case .
qed

lemma distinct_cells_pass:
  assumes d: "distinct (map (\<lambda>r. (c1 r, c2 r)) M)" and len: "length row_names = length M"
  shows "distinct (map (\<lambda>p. c2 (fst p)) (filter (\<lambda>p. c1 (fst p) = i) (zip M row_names)))"
proof -
  have "map (\<lambda>p. c2 (fst p)) (filter (\<lambda>p. c1 (fst p) = i) (zip M row_names))
          = map c2 (map fst (filter (\<lambda>p. c1 (fst p) = i) (zip M row_names)))"
    by simp
  also have "\<dots> = map c2 (filter (\<lambda>r. c1 r = i) M)"
    by (simp only: filter_fst_zip [OF len, where P = "\<lambda>r. c1 r = i"])
  finally have e: "map (\<lambda>p. c2 (fst p)) (filter (\<lambda>p. c1 (fst p) = i) (zip M row_names))
          = map c2 (filter (\<lambda>r. c1 r = i) M)" .
  have "distinct (map (\<lambda>r. (c1 r, c2 r)) (filter (\<lambda>r. c1 r = i) M))"
    using d by (rule distinct_map_filter)
  hence dF: "distinct (filter (\<lambda>r. c1 r = i) M)"
    and inj: "inj_on (\<lambda>r. (c1 r, c2 r)) (set (filter (\<lambda>r. c1 r = i) M))"
    by (simp_all add: distinct_map)
  have "inj_on c2 (set (filter (\<lambda>r. c1 r = i) M))"
  proof (rule inj_onI)
    fix x y
    assume x: "x \<in> set (filter (\<lambda>r. c1 r = i) M)"
      and y: "y \<in> set (filter (\<lambda>r. c1 r = i) M)" and c: "c2 x = c2 y"
    have "(c1 x, c2 x) = (c1 y, c2 y)" using x y c by simp
    thus "x = y" using inj x y by (meson inj_onD)
  qed
  hence "distinct (map c2 (filter (\<lambda>r. c1 r = i) M))"
    using dF by (simp add: distinct_map)
  thus ?thesis unfolding e .
qed

lemma zip_labels_rings:
  "zip (map snd S) (map f (map fst S)) = map (\<lambda>p. (snd p, f (fst p))) S"
  by (induction S) auto

lemma mset_serp_pass: "mset (serp_pass i recs) = filter_mset (\<lambda>p. c1 (fst p) = i) (mset recs)"
  by (simp add: serp_pass_def Let_def)

lemma mset_serpentine_spec:
  "mset (serpentine_spec n recs) =
     filter_mset (\<lambda>p. 1 \<le> c1 (fst p) \<and> c1 (fst p) \<le> int n) (mset recs)"
proof (induction n)
  case 0
  have "\<And>p. \<not> (1 \<le> c1 (fst p) \<and> c1 (fst p) \<le> 0)" by auto
  then show ?case by (simp add: serpentine_spec_def)
next
  case (Suc n)
  have up: "[1..int (Suc n)] = [1..int n] @ [int n + 1]"
    by (simp add: upto_rec2)
  have "mset (serpentine_spec (Suc n) recs) =
          mset (serpentine_spec n recs) + mset (serp_pass (int n + 1) recs)"
    unfolding serpentine_spec_def up by simp
  also have "\<dots> = filter_mset (\<lambda>p. 1 \<le> c1 (fst p) \<and> c1 (fst p) \<le> int n) (mset recs)
                  + filter_mset (\<lambda>p. c1 (fst p) = int n + 1) (mset recs)"
    by (simp add: Suc.IH mset_serp_pass)
  also have "\<dots> = filter_mset (\<lambda>p. 1 \<le> c1 (fst p) \<and> c1 (fst p) \<le> int (Suc n)) (mset recs)"
    by (rule multiset_eqI) auto
  finally show ?case .
qed

subsection \<open>Row grouping keeps labels and rows aligned\<close>

lemma arange_mem:
  assumes "0 < step"
  shows "x \<in> set (arange start stop step) \<longleftrightarrow>
           start \<le> x \<and> x < stop \<and> (x - start) mod step = 0"
proof
  assume "x \<in> set (arange start stop step)"
  then obtain k where k: "k < nat \<lceil>real_of_int (stop - start) / real_of_int step\<rceil>"
    and x: "x = start + int k * step"
    by (auto simp: arange_def)
  from k have "int k < \<lceil>real_of_int (stop - start) / real_of_int step\<rceil>" by linarith
  hence "real_of_int (int k) < real_of_int (stop - start) / real_of_int step"
    by (simp only: less_ceiling_iff)
  hence "real_of_int (int k) * real_of_int step < real_of_int (stop - start)"
    using assms by (simp add: pos_less_divide_eq)
  hence "int k * step < stop - start"
    by (metis of_int_less_iff of_int_mult)
  moreover have "0 \<le> int k * step" using assms by simp
  ultimately show "start \<le> x \<and> x < stop \<and> (x - start) mod step = 0"
    using x by simp
next
  assume h: "start \<le> x \<and> x < stop \<and> (x - start) mod step = 0"
  define k where "k = nat ((x - start) div step)"
  have d: "0 \<le> (x - start) div step"
    using h assms by (simp add: pos_imp_zdiv_nonneg_iff)
  have xk: "x = start + int k * step"
    using h d by (auto simp: k_def)
  have "int k * step < stop - start" using h xk by linarith
  hence "real_of_int (int k * step) < real_of_int (stop - start)"
    by (simp only: of_int_less_iff)
  hence "real_of_int (int k) < real_of_int (stop - start) / real_of_int step"
    using assms by (simp add: pos_less_divide_eq)
  hence "int k < \<lceil>real_of_int (stop - start) / real_of_int step\<rceil>"
    by (simp only: less_ceiling_iff)
  hence "k < nat \<lceil>real_of_int (stop - start) / real_of_int step\<rceil>" by linarith
  thus "x \<in> set (arange start stop step)"
    unfolding arange_def using xk by auto
qed

lemma set_unique: "set (unique xs) = set xs"
  by (induction xs rule: unique.induct) auto

lemma distinct_unique: "distinct (unique xs)"
  by (induction xs rule: unique.induct) (auto simp: set_unique)

lemma length_unique: "length (unique xs) = card (set xs)"
  by (metis distinct_card distinct_unique set_unique)

lemma sum_counts_unique:
  "sum_list (map (\<lambda>b. length (filter (\<lambda>y. y = b) xs)) (unique xs)) = length xs"
proof (induction xs rule: unique.induct)
  case 1
  then show ?case by simp
next
  case (2 x xs)
  let ?ys = "filter (\<lambda>y. y \<noteq> x) xs"
  have same: "\<And>b. b \<in> set (unique ?ys) \<Longrightarrow>
      length (filter (\<lambda>y. y = b) (x # xs)) = length (filter (\<lambda>y. y = b) ?ys)"
  proof -
    fix b assume "b \<in> set (unique ?ys)"
    hence "b \<noteq> x" by (simp add: set_unique)
    moreover have "filter (\<lambda>y. y = b) ?ys = filter (\<lambda>y. y = b \<and> y \<noteq> x) xs"
      by (simp add: conj_commute)
    moreover have "filter (\<lambda>y. y = b \<and> y \<noteq> x) xs = filter (\<lambda>y. y = b) xs"
      using \<open>b \<noteq> x\<close> by (intro filter_cong) auto
    ultimately show "length (filter (\<lambda>y. y = b) (x # xs)) = length (filter (\<lambda>y. y = b) ?ys)"
      by simp
  qed
  have "sum_list (map (\<lambda>b. length (filter (\<lambda>y. y = b) (x # xs))) (unique ?ys))
        = sum_list (map (\<lambda>b. length (filter (\<lambda>y. y = b) ?ys)) (unique ?ys))"
    by (rule arg_cong [where f = sum_list]) (use same in simp)
  also have "\<dots> = length ?ys" by (rule "2.IH")
  finally have rest: "sum_list (map (\<lambda>b. length (filter (\<lambda>y. y = b) (x # xs))) (unique ?ys))
       = length ?ys" .
  have "length (filter (\<lambda>y. y = x) xs) + length ?ys = length xs"
    by (rule sum_length_filter_compl)
  thus ?case using rest by simp
qed

lemma length_new_row_names: "length (new_row_names bs) = length bs"
proof -
  have "length (new_row_names bs)
        = sum_list (map (\<lambda>b. length (filter (\<lambda>y. y = b) bs)) (unique bs))"
    by (simp add: new_row_names_def length_concat comp_def)
  thus ?thesis by (simp add: sum_counts_unique)
qed

lemma length_init_matrix: "length (init_matrix rs) = length rs"
  by (simp add: init_matrix_def Let_def)

lemma length_relabel:
  "length M \<le> length barcodes \<Longrightarrow> length (relabel barcodes M) = length M"
  by (simp add: relabel_def length_new_row_names)

lemma combine_rows_eq:
  assumes "length row_names = length M" and "M \<noteq> []"
  shows "combine_rows n k M row_names =
           Inr (map (renumber n) (compress (combined_mask n k M) M),
                compress (combined_mask n k M) row_names)"
proof -
  have "length (combined_mask n k M) \<le> length row_names"
    by (simp add: combined_mask_def assms(1))
  thus ?thesis
    using assms(2) by (simp add: combine_rows_def Let_def select_names_ok)
qed

lemma length_compress_same:
  "length xs = length ys \<Longrightarrow> length (compress m xs) = length (compress m ys)"
proof (induction m arbitrary: xs ys)
  case Nil
  then show ?case by (simp add: compress_def)
next
  case (Cons b m)
  then show ?case by (cases xs; cases ys) (auto simp: compress_def)
qed

lemma subset_rows_eq:
  assumes "length row_names = length M" and "check_subset n k = Inr ()"
  shows "subset_rows n k M row_names =
           Inr (compress (plot_mask k M) M, compress (plot_mask k M) row_names)"
proof -
  have "length (plot_mask k M) \<le> length row_names"
    by (simp add: plot_mask_def assms(1))
  thus ?thesis
    by (simp add: subset_rows_def Let_def select_names_ok assms(2))
qed

lemma combine_rows_length:
  assumes "length row_names = length M" and "combine_rows n k M row_names = Inr (M', names')"
  shows "length names' = length M'"
proof -
  have "M \<noteq> []" using assms(2) by (auto simp: combine_rows_def)
  from combine_rows_eq [OF assms(1) this] assms(2)
  show ?thesis by (auto simp: length_compress_same [OF assms(1)])
qed

lemma subset_rows_length:
  assumes "length row_names = length M" and "subset_rows n k M row_names = Inr (M', names')"
  shows "length names' = length M'"
proof -
  have "check_subset n k = Inr ()"
    using assms(2) by (cases "check_subset n k") (auto simp: subset_rows_def)
  from subset_rows_eq [OF assms(1) this] assms(2)
  show ?thesis by (auto simp: length_compress_same [OF assms(1)])
qed

lemma row_grouping_length:
  assumes "length row_names = length M" and "length barcodes = length M"
    and "row_grouping n mi k barcodes M row_names = Inr (M', names')"
  shows "length names' = length M'"
proof (cases "n > 1 \<and> \<not> mi \<and> k = 0")
  case True
  hence "combine_rows n k M row_names = Inr (M', names')"
    using assms(3) by (auto simp: row_grouping_def split: sum.splits prod.splits)
  thus ?thesis by (rule combine_rows_length [OF assms(1)])
next
  case False
  show ?thesis
  proof (cases "k \<noteq> 0")
    case True
    have "length (relabel barcodes M) = length M"
      by (simp add: length_relabel assms(2))
    moreover have "subset_rows n k M (relabel barcodes M) = Inr (M', names')"
      using assms(3) False True by (auto simp: row_grouping_def Let_def)
    ultimately show ?thesis by (rule subset_rows_length)
  next
    case k0: False
    show ?thesis
      using assms False k0
      by (auto simp: row_grouping_def Let_def length_relabel split: if_splits)
  qed
qed

lemma serpentine_length:
  assumes "length row_names = length M" and "serpentine nRange M row_names = Inr (M', names')"
  shows "length names' = length M'"
proof (cases "nRange = 0")
  case True
  thus ?thesis using assms(2) by (simp add: serpentine_empty)
next
  case False
  hence "0 < nRange" by simp
  from serpentine_eq [OF assms(1) this] assms(2) show ?thesis by auto
qed

lemma grid_stage_length:
  assumes "grid_stage a tbl nRange = Inr (M, row_names)"
  shows "length row_names = length M"
proof -
  from assms obtain M1 names1 where
    g: "row_grouping (nrowplot a) (multirowind a) (plotsubset a)
          (map Barcode_col tbl) (init_matrix tbl) (map Barcode_col tbl) = Inr (M1, names1)"
    and s: "serpentine nRange M1 names1 = Inr (M, row_names)"
    by (auto simp: grid_stage_def split: sum.splits prod.splits)
  have "length names1 = length M1"
    by (rule row_grouping_length [OF _ _ g]) (simp_all add: length_init_matrix)
  thus ?thesis using s by (rule serpentine_length)
qed

subsection \<open>What row grouping keeps of the matrix\<close>

lemma init_matrix_rows:
  assumes "r \<in> set (init_matrix tbl)"
  shows "\<exists>t\<in>set tbl. c0 r = Plot_col t
           \<and> c1 r = Range_col t - Min (set (map Range_col tbl)) + 1
           \<and> c2 r = Row_col t - Min (set (map Row_col tbl)) + 1
           \<and> c11 r = c2 r"
  using assms by (auto simp: init_matrix_def Let_def)

lemma init_matrix_c1_ge: "r \<in> set (init_matrix tbl) \<Longrightarrow> 1 \<le> c1 r"
proof -
  assume "r \<in> set (init_matrix tbl)"
  then obtain t where t: "t \<in> set tbl"
    and c: "c1 r = Range_col t - Min (set (map Range_col tbl)) + 1"
    using init_matrix_rows by blast
  have "Min (set (map Range_col tbl)) \<le> Range_col t"
    using t by (intro Min_le) auto
  thus ?thesis using c by simp
qed

lemma init_matrix_c2_ge: "r \<in> set (init_matrix tbl) \<Longrightarrow> 1 \<le> c2 r"
proof -
  assume "r \<in> set (init_matrix tbl)"
  then obtain t where t: "t \<in> set tbl"
    and c: "c2 r = Row_col t - Min (set (map Row_col tbl)) + 1"
    using init_matrix_rows by blast
  have "Min (set (map Row_col tbl)) \<le> Row_col t"
    using t by (intro Min_le) auto
  thus ?thesis using c by simp
qed

lemma set_compress: "set (compress m xs) \<subseteq> set xs"
  by (auto simp: compress_def dest: set_zip_rightD)

lemma c1_renumber [simp]: "c1 (renumber n r) = c1 r"
  by (simp add: renumber_def)

lemma combine_rows_c1:
  assumes "combine_rows n k M ns = Inr (M', ns')" and "r \<in> set M'"
  shows "\<exists>q\<in>set M. c1 r = c1 q"
  using assms set_compress [of "combined_mask n k M" M]
  by (fastforce simp: combine_rows_def Let_def split: if_splits sum.splits)

lemma subset_rows_c1:
  assumes "subset_rows n k M ns = Inr (M', ns')" and "r \<in> set M'"
  shows "r \<in> set M"
  using assms set_compress [of "plot_mask k M" M]
  by (auto simp: subset_rows_def Let_def split: if_splits sum.splits)

lemma row_grouping_c1:
  assumes "row_grouping n mi k bs M ns = Inr (M', ns')" and "r \<in> set M'"
  shows "\<exists>q\<in>set M. c1 r = c1 q"
proof (cases "n > 1 \<and> \<not> mi \<and> k = 0")
  case True
  hence "combine_rows n k M ns = Inr (M', ns')"
    using assms(1) by (auto simp: row_grouping_def split: sum.splits prod.splits)
  thus ?thesis using assms(2) by (rule combine_rows_c1)
next
  case False
  show ?thesis
  proof (cases "k \<noteq> 0")
    case True
    hence "subset_rows n k M (relabel bs M) = Inr (M', ns')"
      using assms(1) False by (auto simp: row_grouping_def Let_def)
    hence "r \<in> set M" using assms(2) by (rule subset_rows_c1)
    thus ?thesis by blast
  next
    case k0: False
    hence "M' = M"
      using assms(1) False by (auto simp: row_grouping_def Let_def split: if_splits)
    thus ?thesis using assms(2) by blast
  qed
qed

lemma ceiling_one_div:
  assumes "1 \<le> (n::int)"
  shows "\<lceil>1 / real_of_int n\<rceil> = 1"
proof -
  have "0 < 1 / real_of_int n" "1 / real_of_int n \<le> 1"
    using assms by simp_all
  thus ?thesis by (simp add: ceiling_eq_iff)
qed

lemma renumber_ceiling:
  assumes "1 \<le> n" and "1 \<le> c2 r"
  shows "renumber n r = r\<lparr>c2 := \<lceil>real_of_int (c2 r) / real_of_int n\<rceil>\<rparr>"
proof (cases "c2 r > 1")
  case True
  thus ?thesis by (simp add: renumber_def)
next
  case False
  hence "c2 r = 1" using assms(2) by simp
  thus ?thesis using ceiling_one_div [OF assms(1)] by (simp add: renumber_def)
qed

lemma combined_mask_kept:
  assumes n: "1 < n" and r: "r \<in> set M" and ge: "1 \<le> c2 r"
  shows "(c2 r = 1 + 0 \<or> c2 r \<in> set (arange (1 + n + 0) (Max (set (map c2 M)) + 1) n))
         \<longleftrightarrow> (\<exists>j::nat. c2 r = 1 + int j * n)"
proof -
  have le: "c2 r \<le> Max (set (map c2 M))"
    using r by (intro Max_ge) auto
  have pos: "0 < n" using n by simp
  show ?thesis
  proof
    assume "c2 r = 1 + 0 \<or> c2 r \<in> set (arange (1 + n + 0) (Max (set (map c2 M)) + 1) n)"
    thus "\<exists>j::nat. c2 r = 1 + int j * n"
    proof
      assume "c2 r = 1 + 0"
      hence "c2 r = 1 + int 0 * n" by simp
      thus ?thesis by blast
    next
      assume "c2 r \<in> set (arange (1 + n + 0) (Max (set (map c2 M)) + 1) n)"
      hence a: "1 + n \<le> c2 r" and m: "(c2 r - (1 + n)) mod n = 0"
        using arange_mem [OF pos] by auto
      define q where "q = (c2 r - (1 + n)) div n"
      have "0 \<le> q" using a pos by (simp add: q_def pos_imp_zdiv_nonneg_iff)
      have "c2 r - (1 + n) = q * n" using m by (auto simp: q_def)
      hence "c2 r = 1 + int (nat (q + 1)) * n"
        using \<open>0 \<le> q\<close> by (simp add: algebra_simps)
      thus ?thesis by blast
    qed
  next
    assume "\<exists>j::nat. c2 r = 1 + int j * n"
    then obtain j :: nat where j: "c2 r = 1 + int j * n" by blast
    show "c2 r = 1 + 0 \<or> c2 r \<in> set (arange (1 + n + 0) (Max (set (map c2 M)) + 1) n)"
    proof (cases j)
      case 0
      thus ?thesis using j by simp
    next
      case (Suc i)
      hence e: "c2 r - (1 + n) = int i * n" using j by (simp add: algebra_simps)
      have "1 + n \<le> c2 r" using e pos
        by (smt (verit) mult_nonneg_nonneg of_nat_0_le_iff)
      moreover have "(c2 r - (1 + n)) mod n = 0" using e by simp
      ultimately have "c2 r \<in> set (arange (1 + n + 0) (Max (set (map c2 M)) + 1) n)"
        using arange_mem [OF pos] le by simp
      thus ?thesis ..
    qed
  qed
qed



lemma to_meters_scale: "to_meters u (c * v) = c * to_meters u v"
  by (simp add: to_meters_def)


subsection \<open>The stages of a call\<close>

lemma warnings_hold_no_shapefile [simp]:
  "shapefiles (length_warning p g w) = []" "shapefiles (crs_warning a) = []"
  by (simp_all add: length_warning_def crs_warning_def shapefiles_def)

lemma warnings_are_no_artifact [simp]:
  "filter is_artifact (length_warning p g w) = []" "filter is_artifact (crs_warning a) = []"
  by (simp_all add: length_warning_def crs_warning_def)

lemma shapefiles_append: "shapefiles (xs @ ys) = shapefiles xs @ shapefiles ys"
  by (simp add: shapefiles_def)

lemma shapefiles_simps:
  "shapefiles [] = []"
  "shapefiles (Warning w # evs) = shapefiles evs"
  "shapefiles (SquarePdf f p q n # evs) = shapefiles evs"
  "shapefiles (RotatedPdf f p q n t # evs) = shapefiles evs"
  "shapefiles (Shapefile f c recs # evs) = recs # shapefiles evs"
  by (simp_all add: shapefiles_def)

lemma write_shapefile_ok:
  "length row_names = length P \<Longrightarrow>
   write_shapefile P row_names fld out crs b =
     Inr (Shapefile (prefixed fld out @ (if b then ''_buff.shp'' else ''.shp'')) crs
            (zip row_names (map ring P)))"
  by (simp add: write_shapefile_def Let_def)

lemma emit_ok:
  assumes len: "length row_names = length M"
    and ne: "(SquarePlot a \<or> RotatePlot a) \<longrightarrow> M \<noteq> []"
  shows "snd (emit a ab M row_names) = Inr ()
       \<and> shapefiles (fst (emit a ab M row_names)) =
           [zip row_names (map ring (plots_adjusted a ab M)),
            zip row_names (map ring (plots_adjusted_buf a ab M))]"
proof -
  have l1: "length row_names = length (plots_adjusted a ab M)"
    by (simp add: plots_adjusted_def len)
  have l2: "length row_names = length (plots_adjusted_buf a ab M)"
    by (simp add: plots_adjusted_buf_def len)
  have e1: "plot_square_4plot a M = [] \<longleftrightarrow> M = []"
    by (simp add: plot_square_4plot_def plots_square_def split: option.splits)
  have e2: "plots_adjusted a ab M = [] \<longleftrightarrow> M = []"
    by (simp add: plots_adjusted_def)
  show ?thesis
    using ne
    by (simp add: emit_def Let_def e1 e2 write_shapefile_ok [OF l1] write_shapefile_ok [OF l2]
        shapefiles_append shapefiles_simps)
qed

lemma emit_fail:
  assumes "(SquarePlot a \<or> RotatePlot a) \<and> M = []"
  shows "emit a ab M row_names = ([], Inl LibraryValueError)"
proof -
  have e1: "plot_square_4plot a [] = []"
    by (simp add: plot_square_4plot_def plots_square_def split: option.splits)
  have e2: "plots_adjusted a ab [] = []"
    by (simp add: plots_adjusted_def)
  show ?thesis using assms by (auto simp: emit_def Let_def e1 e2)
qed

lemma emit_cases:
  assumes len: "length row_names = length M"
  shows "emit a ab M row_names = ([], Inl LibraryValueError)
       \<or> (snd (emit a ab M row_names) = Inr ()
          \<and> shapefiles (fst (emit a ab M row_names)) =
             [zip row_names (map ring (plots_adjusted a ab M)),
              zip row_names (map ring (plots_adjusted_buf a ab M))])"
  using emit_ok [OF len, of a ab] emit_fail [of a M ab row_names] by blast

lemma plotshpcreate_unfold:
  assumes "missing_cols (infile a) = []"
    and "check_stagger (stagger a) (nrowplot a) (multirowind a) = Inr ()"
    and "ab_line_of (A_point a) (B_point a) = Inr ab"
    and "grid_stage a (table_of a) (n_range a) = Inr (M, row_names)"
  shows "snd (plotshpcreate a) = snd (emit a ab M row_names)"
    and "shapefiles (fst (plotshpcreate a)) = shapefiles (fst (emit a ab M row_names))"
  using assms
  by (simp_all add: plotshpcreate_def Let_def table_of_def n_range_def shapefiles_append
      shapefiles_simps split: prod.splits)

lemma plotshpcreate_ok_iff:
  "snd (plotshpcreate a) = Inr () \<Longrightarrow>
     missing_cols (infile a) = []
   \<and> check_stagger (stagger a) (nrowplot a) (multirowind a) = Inr ()
   \<and> (\<exists>ab M row_names.
         ab_line_of (A_point a) (B_point a) = Inr ab
       \<and> grid_stage a (table_of a) (n_range a) = Inr (M, row_names)
       \<and> snd (emit a ab M row_names) = Inr ())"
  by (auto simp: plotshpcreate_def Let_def table_of_def n_range_def
      split: sum.splits prod.splits if_splits)

subsection \<open>Which exceptions a stage can raise\<close>

lemma check_stagger_cases:
  "check_stagger st n mi = Inr () \<or> (\<exists>v. check_stagger st n mi = Inl (ValidationError v))"
  by (auto simp: check_stagger_def split: option.splits)

lemma check_stagger_invalid:
  "check_stagger (stagger a) (nrowplot a) (multirowind a) \<noteq> Inr () \<longleftrightarrow> stagger_invalid a"
  by (auto simp: check_stagger_def stagger_invalid_def split: option.splits)

lemma check_subset_cases:
  "check_subset n k = Inr () \<or> (\<exists>v. check_subset n k = Inl (ValidationError v))"
  by (auto simp: check_subset_def)

lemma check_subset_invalid:
  "check_subset n k \<noteq> Inr () \<longleftrightarrow> (n = 1 \<or> n < 3 \<or> n = 2 * k)"
  by (auto simp: check_subset_def)

lemma select_names_error: "select_names m ns = Inl e \<Longrightarrow> e = IndexError"
  by (auto simp: select_names_def split: if_splits)

lemma index_all_error: "index_all xs idx = Inl e \<Longrightarrow> e = IndexError"
  by (auto simp: index_all_def split: if_splits)

lemma combine_rows_error:
  "combine_rows n k M ns = Inl e \<Longrightarrow> e = IndexError \<or> e = LibraryValueError"
  by (auto simp: combine_rows_def Let_def split: if_splits sum.splits dest: select_names_error)

lemma subset_rows_validation:
  "subset_rows n k M ns = Inl (ValidationError v) \<longleftrightarrow> check_subset n k = Inl (ValidationError v)"
  by (auto simp: subset_rows_def Let_def split: sum.splits dest: select_names_error)

lemma row_grouping_validation:
  "row_grouping n mi k bs M ns = Inl (ValidationError v) \<longleftrightarrow>
     k \<noteq> 0 \<and> check_subset n k = Inl (ValidationError v)"
proof (cases "n > 1 \<and> \<not> mi \<and> k = 0")
  case True
  thus ?thesis
    by (auto simp: row_grouping_def split: sum.splits dest: combine_rows_error)
next
  case False
  thus ?thesis
    by (auto simp: row_grouping_def Let_def subset_rows_validation)
qed

lemma serp_range_error: "serp_range srt M ns i = Inl e \<Longrightarrow> e = IndexError"
  by (auto simp: serp_range_def Let_def split: sum.splits
      dest: select_names_error index_all_error)

lemma serp_loop_error: "serp_loop srt M ns is = Inl e \<Longrightarrow> e = IndexError"
  by (induction "is" arbitrary: e)
     (auto split: sum.splits prod.splits dest: serp_range_error)

lemma serpentine_error:
  "serpentine n M ns = Inl e \<Longrightarrow> e = IndexError \<or> e = LibraryValueError"
  by (auto simp: serpentine_def serpentine_by_def split: sum.splits prod.splits if_splits
      dest: serp_loop_error)

lemma grid_stage_validation:
  "grid_stage a tbl n = Inl (ValidationError v) \<longleftrightarrow>
     plotsubset a \<noteq> 0 \<and> check_subset (nrowplot a) (plotsubset a) = Inl (ValidationError v)"
proof (cases "row_grouping (nrowplot a) (multirowind a) (plotsubset a)
                (map Barcode_col tbl) (init_matrix tbl) (map Barcode_col tbl)")
  case (Inl e)
  hence "grid_stage a tbl n = Inl e" by (simp add: grid_stage_def)
  thus ?thesis using Inl row_grouping_validation by metis
next
  case (Inr p)
  obtain M ns where p: "p = (M, ns)" by (cases p)
  have g: "grid_stage a tbl n = serpentine n M ns"
    using Inr p by (simp add: grid_stage_def)
  have "serpentine n M ns \<noteq> Inl (ValidationError v)"
    using serpentine_error [of n M ns "ValidationError v"] by auto
  moreover have "\<not> (plotsubset a \<noteq> 0
      \<and> check_subset (nrowplot a) (plotsubset a) = Inl (ValidationError v))"
    using Inr row_grouping_validation
    by (metis Inl_Inr_False)
  ultimately show ?thesis using g by simp
qed

lemma emit_error: "snd (emit a ab M ns) = Inl e \<Longrightarrow> e = LibraryValueError"
  by (auto simp: emit_def Let_def write_shapefile_def split: if_splits sum.splits)

lemma ab_line_error: "ab_line_of A B = Inl e \<longleftrightarrow> fst B = fst A \<and> e = ZeroDivisionError"
  by (auto simp: ab_line_of_def Let_def)

lemma snd_plotshpcreate:
  "snd (plotshpcreate a) =
     (if missing_cols (infile a) \<noteq> []
      then Inl (ValidationError (MissingColumns (missing_cols (infile a))))
      else case check_stagger (stagger a) (nrowplot a) (multirowind a) of
             Inl e \<Rightarrow> Inl e
           | Inr _ \<Rightarrow>
               (case ab_line_of (A_point a) (B_point a) of
                  Inl e \<Rightarrow> Inl e
                | Inr ab \<Rightarrow>
                    (case grid_stage a (table_of a) (n_range a) of
                       Inl e \<Rightarrow> Inl e
                     | Inr (M, row_names) \<Rightarrow> snd (emit a ab M row_names))))"
  by (simp add: plotshpcreate_def Let_def table_of_def n_range_def
      split: sum.splits prod.splits)

lemma plotshpcreate_validation:
  "snd (plotshpcreate a) = Inl (ValidationError v) \<longleftrightarrow>
     (if missing_cols (infile a) \<noteq> [] then v = MissingColumns (missing_cols (infile a))
      else if check_stagger (stagger a) (nrowplot a) (multirowind a) \<noteq> Inr ()
        then check_stagger (stagger a) (nrowplot a) (multirowind a) = Inl (ValidationError v)
      else fst (B_point a) \<noteq> fst (A_point a) \<and> plotsubset a \<noteq> 0
           \<and> check_subset (nrowplot a) (plotsubset a) = Inl (ValidationError v))"
proof (cases "missing_cols (infile a) \<noteq> []")
  case True
  thus ?thesis by (auto simp: snd_plotshpcreate)
next
  case m: False
  show ?thesis
  proof (cases "check_stagger (stagger a) (nrowplot a) (multirowind a)")
    case (Inl e)
    thus ?thesis using m by (auto simp: snd_plotshpcreate)
  next
    case (Inr u)
    show ?thesis
    proof (cases "ab_line_of (A_point a) (B_point a)")
      case (Inl e)
      have e: "fst (B_point a) = fst (A_point a) \<and> e = ZeroDivisionError"
        using Inl by (simp only: ab_line_error)
      have "snd (plotshpcreate a) = Inl e"
        using m Inr Inl by (simp add: snd_plotshpcreate)
      thus ?thesis using m Inr e by auto
    next
      case ab: (Inr ab)
      have ne: "fst (B_point a) \<noteq> fst (A_point a)"
        using ab by (auto simp: ab_line_of_def Let_def split: if_splits)
      show ?thesis
      proof (cases "grid_stage a (table_of a) (n_range a)")
        case (Inl e)
        thus ?thesis using m Inr ab ne grid_stage_validation [of a "table_of a" "n_range a" v]
          by (auto simp: snd_plotshpcreate)
      next
        case g: (Inr p)
        obtain M ns where p: "p = (M, ns)" by (cases p)
        have "grid_stage a (table_of a) (n_range a) \<noteq> Inl (ValidationError v)"
          using g by simp
        hence nv: "\<not> (plotsubset a \<noteq> 0 \<and> check_subset (nrowplot a) (plotsubset a) = Inl (ValidationError v))"
          by (simp add: grid_stage_validation)
        have "snd (plotshpcreate a) = snd (emit a ab M ns)"
          using m Inr ab g p by (simp add: snd_plotshpcreate)
        hence "snd (plotshpcreate a) \<noteq> Inl (ValidationError v)"
          using emit_error [of a ab M ns "ValidationError v"] by auto
        thus ?thesis using m Inr nv by auto
      qed
    qed
  qed
qed

subsection \<open>The log of a successful call\<close>

lemma set_sort_infile [simp]: "set (sort_infile rs) = set rs"
  by (simp add: sort_infile_def)

lemma n_range_card: "n_range a = card (Range_col ` set (rows (infile a)))"
  by (simp add: n_range_def table_of_def length_unique)

lemma fst_plotshpcreate:
  assumes "missing_cols (infile a) = []"
    and "check_stagger (stagger a) (nrowplot a) (multirowind a) = Inr ()"
    and "ab_line_of (A_point a) (B_point a) = Inr ab"
    and "grid_stage a (table_of a) (n_range a) = Inr (M, row_names)"
  shows "fst (plotshpcreate a) =
           length_warning (length (table_of a)) (n_range a)
             (length (unique (map Row_col (table_of a))))
           @ fst (emit a ab M row_names)"
  using assms
  by (simp add: plotshpcreate_def Let_def table_of_def n_range_def split: prod.splits)

lemma length_warning_plain [simp]:
  "filter (\<lambda>e. \<not> is_artifact e) (length_warning p g w) = length_warning p g w"
  by (simp add: length_warning_def)

lemma contiguous_card:
  fixes R :: "int set"
  assumes fin: "finite R" and ne: "R \<noteq> {}"
    and c: "\<forall>v. Min R \<le> v \<and> v \<le> Max R \<longrightarrow> v \<in> R"
  shows "int (card R) = Max R - Min R + 1"
proof -
  define lo where "lo = Min R"
  define hi where "hi = Max R"
  have eq: "R = {lo..hi}"
  proof (rule set_eqI)
    fix v
    show "(v \<in> R) = (v \<in> {lo..hi})"
    proof
      assume v: "v \<in> R"
      have "lo \<le> v" unfolding lo_def using fin v by (rule Min_le)
      moreover have "v \<le> hi" unfolding hi_def using fin v by (rule Max_ge)
      ultimately show "v \<in> {lo..hi}" by (simp only: atLeastAtMost_iff)
    next
      assume "v \<in> {lo..hi}"
      hence "Min R \<le> v \<and> v \<le> Max R" by (simp only: atLeastAtMost_iff lo_def hi_def)
      thus "v \<in> R" using c by blast
    qed
  qed
  obtain x where x: "x \<in> R" using ne by blast
  have "lo \<le> x" unfolding lo_def using fin x by (rule Min_le)
  moreover have "x \<le> hi" unfolding hi_def using fin x by (rule Max_ge)
  ultimately have le: "lo \<le> hi" by linarith
  have c1: "card {lo..hi} = nat (hi - lo + 1)" by (rule card_atLeastAtMost_int)
  have c2: "card R = card {lo..hi}" using eq by (rule arg_cong)
  have "int (card R) = int (nat (hi - lo + 1))" by (simp only: c2 c1)
  also have "\<dots> = hi - lo + 1" using le by linarith
  finally show ?thesis by (simp only: lo_def hi_def)
qed

lemma write_shapefile_artifact:
  "write_shapefile P ns fld out crs b = Inr ev \<Longrightarrow> is_artifact ev"
  by (auto simp: write_shapefile_def Let_def split: if_splits)

lemma warnings_of_emit:
  assumes "snd (emit a ab M ns) = Inr ()"
  shows "filter (\<lambda>e. \<not> is_artifact e) (fst (emit a ab M ns)) = crs_warning a"
proof -
  have w: "filter (\<lambda>e. \<not> is_artifact e) (crs_warning a) = crs_warning a"
    by (simp add: crs_warning_def)
  show ?thesis
    using assms w
    by (auto simp: emit_def Let_def split: if_splits sum.splits
        dest: write_shapefile_artifact)
qed

lemma ab_line_ok: "fst B \<noteq> fst A \<Longrightarrow> \<exists>ab. ab_line_of A B = Inr ab"
  by (cases "ab_line_of A B") (auto simp: ab_line_error)

lemma labels_of_zip: "length xs = length ys \<Longrightarrow> map fst (zip xs ys) = xs"
  by (induction xs ys rule: list_induct2) auto

lemma shapefiles_of_call:
  assumes ok: "snd (plotshpcreate a) = Inr ()"
  shows "\<exists>ab M row_names.
           grid_stage a (table_of a) (n_range a) = Inr (M, row_names)
         \<and> length row_names = length M
         \<and> shapefiles (fst (plotshpcreate a)) =
             [zip row_names (map ring (plots_adjusted a ab M)),
              zip row_names (map ring (plots_adjusted_buf a ab M))]"
proof -
  from plotshpcreate_ok_iff [OF ok] have
    m: "missing_cols (infile a) = []"
    and st: "check_stagger (stagger a) (nrowplot a) (multirowind a) = Inr ()"
    and ex: "\<exists>ab M0 names0. ab_line_of (A_point a) (B_point a) = Inr ab
         \<and> grid_stage a (table_of a) (n_range a) = Inr (M0, names0)
         \<and> snd (emit a ab M0 names0) = Inr ()"
    by blast+
  from ex obtain ab M ns where
    ab: "ab_line_of (A_point a) (B_point a) = Inr ab"
    and g: "grid_stage a (table_of a) (n_range a) = Inr (M, ns)"
    and em: "snd (emit a ab M ns) = Inr ()"
    by blast
  have len: "length ns = length M" using g by (rule grid_stage_length)
  from emit_cases [OF len, of a ab] em
  have sh: "shapefiles (fst (emit a ab M ns)) =
             [zip ns (map ring (plots_adjusted a ab M)),
              zip ns (map ring (plots_adjusted_buf a ab M))]"
    by auto
  have "shapefiles (fst (plotshpcreate a)) = shapefiles (fst (emit a ab M ns))"
    by (rule plotshpcreate_unfold(2) [OF m st ab g])
  thus ?thesis using g len sh by auto
qed

subsection \<open>Rotation keeps distances and areas\<close>










subsection \<open>The origin of staggered plots\<close>

lemma stagger_in_quadrant_I:
  assumes q1: "DeltaNorthing ab > 0 \<and> DeltaEasting ab > 0"
    and st: "stagger a = Some st"
    and chk: "stagger_check st (square_row a r)"
  shows "adjusted_row a ab r =
           rotate_row (Theta ab) (A_point a)
             (stagger_row st (to_meters (unit_name a) (snd (snd st))) (square_row a r))"
proof -
  have o: "row_origin a ab (square_row a r) =
      (fst (A_point a) - to_meters (unit_name a) (snd (snd st)) * sin (Theta ab),
       snd (A_point a) + to_meters (unit_name a) (snd (snd st)) * cos (Theta ab))"
    using q1 st chk by (simp add: row_origin_def origin_of_def stag_origin_def)
  show ?thesis
    unfolding adjusted_row_def Let_def o
    using chk by (simp add: rotate_row_def stagger_row_def algebra_simps)
qed

lemma unstaggered_rotates_about_A:
  assumes "stagger a = Some st" and "\<not> stagger_check st (square_row a r)"
  shows "adjusted_row a ab r = rotate_row (Theta ab) (A_point a) (square_row a r)"
  using assms by (simp add: adjusted_row_def Let_def row_origin_def origin_of_def)

lemma sqrt_25_16: "sqrt (25 / 16) = 5 / 4"
  by (rule real_sqrt_unique) (simp_all add: power2_eq_square)

lemma cos_arctan_3_4: "cos (arctan (3 / 4)) = 4 / 5"
proof -
  have e: "1 + (3 / 4 :: real)\<^sup>2 = 25 / 16" by (simp add: power2_eq_square)
  have "cos (arctan (3 / 4)) = 1 / sqrt (25 / 16)"
    unfolding cos_arctan e ..
  thus ?thesis unfolding sqrt_25_16 by simp
qed

lemma sin_arctan_3_4: "sin (arctan (3 / 4)) = 3 / 5"
proof -
  have e: "1 + (3 / 4 :: real)\<^sup>2 = 25 / 16" by (simp add: power2_eq_square)
  have "sin (arctan (3 / 4)) = (3 / 4) / sqrt (25 / 16)"
    unfolding sin_arctan e ..
  thus ?thesis unfolding sqrt_25_16 by simp
qed

lemma quadrant_II_angle:
  "sin (pi / 2 - arctan (3 / 4)) = 4 / 5" "cos (pi / 2 - arctan (3 / 4)) = 3 / 5"
  by (simp_all add: sin_diff cos_diff cos_arctan_3_4 sin_arctan_3_4)

lemma ab_line_quadrant_II:
  "ab_line_of (746239.817, 3382052.264) (746235.817, 3382055.264) =
     Inr \<lparr>DeltaEasting = - 4, DeltaNorthing = 3, DirectionTheta = arctan (3 / 4),
          Theta = pi / 2 - arctan (3 / 4), srt_theta = 270 + arctan (3 / 4) * (180 / pi)\<rparr>"
  by (simp add: ab_line_of_def Let_def)

subsection \<open>The direction of the example AB line\<close>

lemma sin_coeff_upto_8:
  "sin_coeff 0 = 0" "sin_coeff 1 = 1" "sin_coeff 2 = 0" "sin_coeff 3 = - 1 / 6"
  "sin_coeff 4 = 0" "sin_coeff 5 = 1 / 120" "sin_coeff 6 = 0" "sin_coeff 7 = - 1 / 5040"
  "sin_coeff 8 = 0"
  by (simp_all add: sin_coeff_def fact_numeral)

lemma sin_coeff_Suc_0: "sin_coeff (Suc 0) = 1"
  by (simp add: sin_coeff_def)

lemma lessThan_9: "{..<9::nat} = {0, 1, 2, 3, 4, 5, 6, 7, 8}"
  by (auto simp: lessThan_def)


lemma sum_lessThan_9:
  fixes g :: "nat \<Rightarrow> real"
  shows "(\<Sum>m<9. g m) = g 0 + g 1 + g 2 + g 3 + g 4 + g 5 + g 6 + g 7 + g 8"
  unfolding lessThan_9 by simp

lemma sin_taylor9:
  fixes y :: real
  assumes "0 \<le> y"
  shows "\<bar>sin y - (y - y^3 / 6 + y^5 / 120 - y^7 / 5040)\<bar> \<le> y^9 / 362880"
proof -
  have "(\<Sum>m<9. sin_coeff m * y ^ m) =
      0 * y ^ 0 + 1 * y ^ 1 + 0 * y ^ 2 + (- 1 / 6) * y ^ 3 + 0 * y ^ 4 + (1 / 120) * y ^ 5
      + 0 * y ^ 6 + (- 1 / 5040) * y ^ 7 + 0 * y ^ 8"
    by (simp only: sum_lessThan_9 sin_coeff_upto_8)
  also have "\<dots> = y - y^3 / 6 + y^5 / 120 - y^7 / 5040"
    by simp
  finally have s: "(\<Sum>m<9. sin_coeff m * y ^ m) = y - y^3 / 6 + y^5 / 120 - y^7 / 5040" .
  have "fact 9 = (362880 :: real)" by (simp add: fact_numeral)
  hence f: "inverse (fact 9) * \<bar>y\<bar> ^ 9 = y^9 / 362880"
    using assms by simp
  show ?thesis
    using Maclaurin_sin_bound [of y 9] unfolding s f .
qed

lemma sin_upper:
  fixes y :: real
  assumes "0 \<le> y"
  shows "sin y \<le> (y - y^3 / 6 + y^5 / 120 - y^7 / 5040) + y^9 / 362880"
  using sin_taylor9 [OF assms] by linarith

lemma sin_lower:
  fixes y :: real
  assumes "0 \<le> y"
  shows "(y - y^3 / 6 + y^5 / 120 - y^7 / 5040) - y^9 / 362880 \<le> sin y"
  using sin_taylor9 [OF assms] by linarith

lemma sin_81715: "sin (0.81715 :: real) \<le> 0.7292"
proof -
  have "(0.81715 - 0.81715^3 / 6 + 0.81715^5 / 120 - 0.81715^7 / 5040) + 0.81715^9 / 362880
        \<le> (0.7292 :: real)"
    by (simp add: power_divide)
  moreover have "(0::real) \<le> 0.81715" by simp
  ultimately show ?thesis using sin_upper [of "0.81715"] by linarith
qed

lemma sin_408575: "sin (0.408575 :: real) \<le> 0.39731"
proof -
  have "(0.408575 - 0.408575^3 / 6 + 0.408575^5 / 120 - 0.408575^7 / 5040) + 0.408575^9 / 362880
        \<le> (0.39731 :: real)"
    by (simp add: power_divide)
  moreover have "(0::real) \<le> 0.408575" by simp
  ultimately show ?thesis using sin_upper [of "0.408575"] by linarith
qed

lemma sin_81725: "(0.72926 :: real) \<le> sin 0.81725"
proof -
  have "(0.72926 :: real) \<le>
     (0.81725 - 0.81725^3 / 6 + 0.81725^5 / 120 - 0.81725^7 / 5040) - 0.81725^9 / 362880"
    by (simp add: power_divide)
  moreover have "(0::real) \<le> 0.81725" by simp
  ultimately show ?thesis using sin_lower [of "0.81725"] by linarith
qed

lemma sin_408625: "(0.39734 :: real) \<le> sin 0.408625"
proof -
  have "(0.39734 :: real) \<le>
     (0.408625 - 0.408625^3 / 6 + 0.408625^5 / 120 - 0.408625^7 / 5040) - 0.408625^9 / 362880"
    by (simp add: power_divide)
  moreover have "(0::real) \<le> 0.408625" by simp
  ultimately show ?thesis using sin_lower [of "0.408625"] by linarith
qed

lemma direction_lower: "0.81715 < arctan (100606 / 94407 :: real)"
proof -
  let ?al = "0.81715 :: real"
  let ?x = "100606 / 94407 :: real"
  have rng: "- (pi / 2) < ?al" "?al < pi / 2"
    using pi_ge_two by simp_all
  have cpos: "0 < cos ?al" using rng by (rule cos_gt_zero_pi)
  have h0: "0 \<le> sin (0.408575 :: real)"
    using pi_ge_two by (intro sin_ge_zero) simp_all
  have "(sin (0.408575 :: real))\<^sup>2 \<le> 0.39731\<^sup>2"
    using h0 sin_408575 by (intro power_mono) simp_all
  moreover have "cos ?al = 1 - 2 * (sin (0.408575 :: real))\<^sup>2"
    using cos_double_sin [of "0.408575 :: real"] by simp
  ultimately have c: "1 - 2 * 0.39731\<^sup>2 \<le> cos ?al" by linarith
  have num: "(0.7292 :: real) < ?x * (1 - 2 * 0.39731\<^sup>2)"
    by (simp add: power2_eq_square)
  have "?x * (1 - 2 * 0.39731\<^sup>2) \<le> ?x * cos ?al"
    using c by (intro mult_left_mono) simp_all
  hence "sin ?al < ?x * cos ?al"
    using sin_81715 num by linarith
  hence "tan ?al < ?x"
    using cpos by (simp add: tan_def pos_divide_less_eq)
  hence "arctan (tan ?al) < arctan ?x"
    by (simp only: arctan_less_iff)
  thus ?thesis
    using arctan_tan [OF rng] by simp
qed

lemma direction_upper: "arctan (100606 / 94407 :: real) < 0.81725"
proof -
  let ?be = "0.81725 :: real"
  let ?x = "100606 / 94407 :: real"
  have rng: "- (pi / 2) < ?be" "?be < pi / 2"
    using pi_ge_two by simp_all
  have cpos: "0 < cos ?be" using rng by (rule cos_gt_zero_pi)
  have "(0.39734 :: real)\<^sup>2 \<le> (sin (0.408625 :: real))\<^sup>2"
    using sin_408625 by (intro power_mono) simp_all
  moreover have "cos ?be = 1 - 2 * (sin (0.408625 :: real))\<^sup>2"
    using cos_double_sin [of "0.408625 :: real"] by simp
  ultimately have c: "cos ?be \<le> 1 - 2 * 0.39734\<^sup>2" by linarith
  have num: "?x * (1 - 2 * 0.39734\<^sup>2) < (0.72926 :: real)"
    by (simp add: power2_eq_square)
  have "?x * cos ?be \<le> ?x * (1 - 2 * 0.39734\<^sup>2)"
    using c by (intro mult_left_mono) simp_all
  hence "?x * cos ?be < sin ?be"
    using sin_81725 num by linarith
  hence "?x < tan ?be"
    using cpos by (simp add: tan_def pos_less_divide_eq)
  hence "arctan ?x < arctan (tan ?be)"
    by (simp only: arctan_less_iff)
  thus ?thesis
    using arctan_tan [OF rng] by simp
qed

lemma ab_line_example:
  "ab_line_of (746239.817, 3382052.264) (746334.224, 3382152.870) =
     Inr \<lparr>DeltaEasting = 94.407, DeltaNorthing = 100.606,
          DirectionTheta = arctan (100606 / 94407),
          Theta = 3 * pi / 2 + arctan (100606 / 94407),
          srt_theta = 90 - arctan (100606 / 94407) * (180 / pi)\<rparr>"
  by (simp add: ab_line_of_def Let_def)

lemma first_corner_is_origin:
  assumes "c1 r = 1" and "c2 r = 1"
  shows "hd (ring (adjusted_row a ab r)) = row_origin a ab (square_row a r)"
  using assms
  by (simp add: adjusted_row_def Let_def ring_def rotate_row_def square_row_def
      square_corners_def)

subsection \<open>Rounding to float64\<close>

lemma round_even_err: "\<bar>of_int (round_even x) - x\<bar> \<le> 1 / 2"
  unfolding round_even_def Let_def by (auto simp: abs_le_iff)

lemma expo_bracket:
  assumes "x \<noteq> 0"
  shows "2 powi (expo x) \<le> \<bar>x\<bar>" and "\<bar>x\<bar> < 2 powi (expo x + 1)"
proof -
  show "2 powi (expo x) \<le> \<bar>x\<bar>"
  proof (cases "1 \<le> \<bar>x\<bar>")
    case True
    define n where "n = \<lfloor>\<bar>x\<bar>\<rfloor>"
    have n: "0 < n" using True by (simp add: n_def)
    have e: "expo x = bitlen n - 1" using True by (simp add: expo_def n_def)
    have b: "0 \<le> bitlen n - 1" using bitlen_bounds [OF n] n
      by (smt (verit) bitlen_nonneg nat_0_iff power_0 bitlen_eq_zero_iff)
    have "(2::int) ^ nat (bitlen n - 1) \<le> n" using bitlen_bounds [OF n] by simp
    hence "(2::real) ^ nat (bitlen n - 1) \<le> of_int n"
      by (metis of_int_le_iff of_int_numeral of_int_power)
    also have "\<dots> \<le> \<bar>x\<bar>" by (simp add: n_def)
    finally show ?thesis using b by (simp add: e power_int_def)
  next
    case False
    define m where "m = \<lceil>1 / \<bar>x\<bar>\<rceil> - 1"
    have x: "0 < \<bar>x\<bar>" "\<bar>x\<bar> < 1" using assms False by simp_all
    hence "1 < 1 / \<bar>x\<bar>" by simp
    hence m: "0 < m" unfolding m_def by linarith
    have e: "expo x = - bitlen m" using False by (simp add: expo_def m_def)
    have "m < 2 ^ nat (bitlen m)" using bitlen_bounds [OF m] by simp
    hence "m + 1 \<le> 2 ^ nat (bitlen m)" by simp
    hence "real_of_int (m + 1) \<le> 2 ^ nat (bitlen m)"
      by (metis of_int_le_iff of_int_numeral of_int_power)
    moreover have "1 / \<bar>x\<bar> \<le> real_of_int (m + 1)" unfolding m_def by simp
    ultimately have "1 / \<bar>x\<bar> \<le> 2 ^ nat (bitlen m)" by linarith
    hence "1 / 2 ^ nat (bitlen m) \<le> \<bar>x\<bar>"
      using x by (simp add: field_simps)
    moreover have "1 \<le> bitlen m"
      using m bitlen_eq_zero_iff [of m] bitlen_nonneg [of m] by linarith
    ultimately show ?thesis
      by (simp add: e power_int_def inverse_eq_divide power_one_over)
  qed
  show "\<bar>x\<bar> < 2 powi (expo x + 1)"
  proof (cases "1 \<le> \<bar>x\<bar>")
    case True
    define n where "n = \<lfloor>\<bar>x\<bar>\<rfloor>"
    have n: "0 < n" using True by (simp add: n_def)
    have e: "expo x = bitlen n - 1" using True by (simp add: expo_def n_def)
    have "n < 2 ^ nat (bitlen n)" using bitlen_bounds [OF n] by simp
    hence "n + 1 \<le> 2 ^ nat (bitlen n)" by simp
    hence "real_of_int (n + 1) \<le> 2 ^ nat (bitlen n)"
      by (metis of_int_le_iff of_int_numeral of_int_power)
    moreover have "\<bar>x\<bar> < real_of_int (n + 1)" unfolding n_def by linarith
    ultimately have "\<bar>x\<bar> < 2 ^ nat (bitlen n)" by linarith
    thus ?thesis using bitlen_nonneg [of n] by (simp add: e power_int_def)
  next
    case False
    define m where "m = \<lceil>1 / \<bar>x\<bar>\<rceil> - 1"
    have x: "0 < \<bar>x\<bar>" "\<bar>x\<bar> < 1" using assms False by simp_all
    hence "1 < 1 / \<bar>x\<bar>" by simp
    hence m: "0 < m" unfolding m_def by linarith
    have e: "expo x = - bitlen m" using False by (simp add: expo_def m_def)
    have bl: "1 \<le> bitlen m" using m bitlen_eq_zero_iff [of m] bitlen_nonneg [of m] by linarith
    have "(2::int) ^ nat (bitlen m - 1) \<le> m" using bitlen_bounds [OF m] by simp
    hence "(2::real) ^ nat (bitlen m - 1) \<le> of_int m"
      by (metis of_int_le_iff of_int_numeral of_int_power)
    moreover have "real_of_int m < 1 / \<bar>x\<bar>" unfolding m_def by linarith
    ultimately have "2 ^ nat (bitlen m - 1) < 1 / \<bar>x\<bar>" by linarith
    hence "\<bar>x\<bar> < 1 / 2 ^ nat (bitlen m - 1)"
      using x by (simp add: field_simps)
    moreover have "- bitlen m + 1 \<le> 0" using bl by simp
    moreover have "nat (- (- bitlen m + 1)) = nat (bitlen m - 1)" by simp
    ultimately show ?thesis
      using bl x by (simp add: e power_int_def inverse_eq_divide power_one_over)
  qed
qed


lemma float64_err: "\<bar>float64 x - x\<bar> \<le> \<bar>x\<bar> / 2 ^ 53 + 1 / 2 ^ 1075"
proof (cases "x = 0")
  case True
  thus ?thesis by (simp add: float64_def)
next
  case False
  define e where "e = max (expo x) (- 1022) - 52"
  define s :: real where "s = 2 powi e"
  have s: "0 < s" by (simp add: s_def zero_less_power_int)
  have f: "float64 x = of_int (round_even (x / s)) * s"
    using False by (simp add: float64_def Let_def e_def s_def)
  have "float64 x - x = (of_int (round_even (x / s)) - x / s) * s"
    using s unfolding f by (simp add: left_diff_distrib)
  hence "\<bar>float64 x - x\<bar> = \<bar>of_int (round_even (x / s)) - x / s\<bar> * s"
    using s by (simp add: abs_mult)
  also have "\<dots> \<le> (1 / 2) * s"
    using s round_even_err [of "x / s"] by (intro mult_right_mono) simp_all
  finally have h: "\<bar>float64 x - x\<bar> \<le> s / 2" by simp
  show ?thesis
  proof (cases "- 1022 \<le> expo x")
    case True
    hence "e = expo x + (- 52)" by (simp add: e_def)
    moreover have "(2::real) powi (expo x + (- 52)) = 2 powi (expo x) * 2 powi (- 52)"
      by (rule power_int_add) simp
    ultimately have "s = 2 powi (expo x) / 2 ^ 52"
      unfolding s_def by (simp add: power_int_minus inverse_eq_divide)
    hence "s / 2 = 2 powi (expo x) / 2 ^ 53" by simp
    also have "\<dots> \<le> \<bar>x\<bar> / 2 ^ 53"
      using expo_bracket(1) [OF False] by (simp add: divide_right_mono)
    finally show ?thesis using h by simp
  next
    case False
    hence "e = - 1074" by (simp add: e_def)
    hence "s = 1 / 2 ^ 1074"
      unfolding s_def by (simp only: power_int_minus power_int_numeral inverse_eq_divide)
    hence "s / 2 = 1 / 2 ^ 1075" by simp
    hence "\<bar>float64 x - x\<bar> \<le> 1 / 2 ^ 1075" using h by (simp only:)
    thus ?thesis by (rule add_increasing [rotated]) simp
  qed
qed


lemma float64_close:
  assumes "\<bar>x' - x\<bar> \<le> d" and "\<bar>x\<bar> \<le> B"
  shows "\<bar>float64 x' - x\<bar> \<le> d + (B + d) / 2 ^ 53 + 1 / 2 ^ 100"
proof -
  have "(1::real) / 2 ^ 1075 \<le> 1 / 2 ^ 100"
    by (intro divide_left_mono power_increasing) simp_all
  hence e: "\<bar>float64 x' - x'\<bar> \<le> \<bar>x'\<bar> / 2 ^ 53 + 1 / 2 ^ 100"
    using float64_err [of x'] by linarith
  have "\<bar>x'\<bar> \<le> B + d" using assms by linarith
  hence "\<bar>x'\<bar> / 2 ^ 53 \<le> (B + d) / 2 ^ 53" by (simp add: divide_right_mono)
  moreover have "\<bar>float64 x' - x\<bar> \<le> \<bar>float64 x' - x'\<bar> + \<bar>x' - x\<bar>" by linarith
  ultimately show ?thesis using e assms(1) by linarith
qed

lemma product_close:
  fixes y c :: real
  assumes "\<bar>y' - y\<bar> \<le> d" and "\<bar>y\<bar> \<le> B" and "\<bar>c' - c\<bar> \<le> e" and "\<bar>c\<bar> \<le> 1"
  shows "\<bar>y' * c' - y * c\<bar> \<le> d * (1 + e) + B * e"
proof -
  have d: "0 \<le> d" and e: "0 \<le> e" and B: "0 \<le> B" using assms by linarith+
  have "y' * c' - y * c = (y' - y) * c' + y * (c' - c)" by (simp add: algebra_simps)
  hence "\<bar>y' * c' - y * c\<bar> \<le> \<bar>y' - y\<bar> * \<bar>c'\<bar> + \<bar>y\<bar> * \<bar>c' - c\<bar>"
    by (metis abs_mult abs_triangle_ineq)
  moreover have "\<bar>c'\<bar> \<le> 1 + e" using assms by linarith
  hence "\<bar>y' - y\<bar> * \<bar>c'\<bar> \<le> d * (1 + e)"
    using assms(1) by (intro mult_mono) simp_all
  moreover have "\<bar>y\<bar> * \<bar>c' - c\<bar> \<le> B * e"
    using assms(2,3) B by (intro mult_mono) simp_all
  ultimately show ?thesis by linarith
qed


lemma square_coordinate_close:
  fixes S n a :: real
  assumes S: "0 \<le> S" "S \<le> 4096" and n: "0 \<le> n" "n * S \<le> 4096"
    and a: "\<bar>a - n\<bar> \<le> n / 2 ^ 53 + 1 / 2 ^ 100"
  shows "\<bar>float64 (0 + float64 (a * S)) - n * S\<bar> \<le> 1 / 2 ^ 39"
proof -
  have "a * S - n * S = (a - n) * S" by (simp add: algebra_simps)
  hence "\<bar>a * S - n * S\<bar> = \<bar>a - n\<bar> * S" using S(1) by (simp add: abs_mult)
  also have "\<dots> \<le> (n / 2 ^ 53 + 1 / 2 ^ 100) * S"
    using a S(1) by (rule mult_right_mono)
  also have "\<dots> = (n * S) / 2 ^ 53 + S / 2 ^ 100" by (simp add: algebra_simps)
  also have "\<dots> \<le> 4096 / 2 ^ 53 + 4096 / 2 ^ 100"
    using n(2) S(2) by (intro add_mono divide_right_mono) simp_all
  finally have d0: "\<bar>a * S - n * S\<bar> \<le> 4096 / 2 ^ 53 + 4096 / 2 ^ 100" .
  have B: "\<bar>n * S\<bar> \<le> 4096" using n S by simp
  have d1: "\<bar>float64 (a * S) - n * S\<bar> \<le> 1 / 2 ^ 40 + 1 / 2 ^ 80"
    using float64_close [OF d0 B] by simp
  have "\<bar>float64 (float64 (a * S)) - n * S\<bar> \<le> 1 / 2 ^ 39"
    using float64_close [OF d1 B] by simp
  thus ?thesis by simp
qed

lemma rotated_coordinate_close:
  fixes x y :: real
  assumes y: "\<bar>y' - y\<bar> \<le> 1 / 2 ^ 39" "\<bar>y\<bar> \<le> 4096"
    and x: "\<bar>x' - x\<bar> \<le> 1 / 2 ^ 39" "\<bar>x\<bar> \<le> 4096"
    and c: "\<bar>cT - c\<bar> \<le> 1 / 2 ^ 50" "\<bar>c\<bar> \<le> 1"
    and s: "\<bar>sT - s\<bar> \<le> 1 / 2 ^ 50" "\<bar>s\<bar> \<le> 1"
    and o: "\<bar>og\<bar> \<le> 2 ^ 24"
  shows "\<bar>float64 (float64 (float64 (y' * cT) + float64 (x' * sT)) + og)
          - (y * c + x * s + og)\<bar> \<le> 1 / 2 ^ 28"
    and "\<bar>float64 (float64 (float64 (x' * cT) - float64 (y' * sT)) + og)
          - (x * c - y * s + og)\<bar> \<le> 1 / 2 ^ 28"
proof -
  have prod: "\<bar>float64 (v' * k') - v * k\<bar> \<le> 1 / 2 ^ 37"
    if "\<bar>v' - v\<bar> \<le> 1 / 2 ^ 39" "\<bar>v\<bar> \<le> 4096" "\<bar>k' - k\<bar> \<le> 1 / 2 ^ 50" "\<bar>k\<bar> \<le> 1"
    for v v' k k' :: real
  proof -
    have "\<bar>v' * k' - v * k\<bar> \<le> 1 / 2 ^ 39 * (1 + 1 / 2 ^ 50) + 4096 * (1 / 2 ^ 50)"
      by (rule product_close [OF that])
    hence p: "\<bar>v' * k' - v * k\<bar> \<le> 1 / 2 ^ 38 + 1 / 2 ^ 39 + 1 / 2 ^ 89" by simp
    have "\<bar>v * k\<bar> \<le> 4096 * 1"
      unfolding abs_mult using that(2,4) by (intro mult_mono) simp_all
    hence B: "\<bar>v * k\<bar> \<le> 4096" by simp
    show ?thesis using float64_close [OF p B] by simp
  qed
  have yc: "\<bar>float64 (y' * cT) - y * c\<bar> \<le> 1 / 2 ^ 37" by (rule prod [OF y c])
  have xs: "\<bar>float64 (x' * sT) - x * s\<bar> \<le> 1 / 2 ^ 37" by (rule prod [OF x s])
  have xc: "\<bar>float64 (x' * cT) - x * c\<bar> \<le> 1 / 2 ^ 37" by (rule prod [OF x c])
  have ys: "\<bar>float64 (y' * sT) - y * s\<bar> \<le> 1 / 2 ^ 37" by (rule prod [OF y s])
  have b: "\<bar>v * k\<bar> \<le> 4096" if "\<bar>v\<bar> \<le> 4096" "\<bar>k\<bar> \<le> 1" for v k :: real
  proof -
    have "\<bar>v * k\<bar> \<le> 4096 * 1"
      unfolding abs_mult using that by (intro mult_mono) simp_all
    thus ?thesis by simp
  qed
  have "\<bar>(float64 (y' * cT) + float64 (x' * sT)) - (y * c + x * s)\<bar>
          \<le> 1 / 2 ^ 37 + 1 / 2 ^ 37"
    using yc xs by linarith
  hence s1: "\<bar>(float64 (y' * cT) + float64 (x' * sT)) - (y * c + x * s)\<bar> \<le> 1 / 2 ^ 36"
    by simp
  have B1: "\<bar>y * c + x * s\<bar> \<le> 8192"
    using b [OF y(2) c(2)] b [OF x(2) s(2)] by linarith
  have t1: "\<bar>float64 (float64 (y' * cT) + float64 (x' * sT)) - (y * c + x * s)\<bar>
              \<le> 1 / 2 ^ 36 + 1 / 2 ^ 39"
    using float64_close [OF s1 B1] by simp
  hence t1': "\<bar>(float64 (float64 (y' * cT) + float64 (x' * sT)) + og) - (y * c + x * s + og)\<bar>
              \<le> 1 / 2 ^ 36 + 1 / 2 ^ 39" by simp
  have B1': "\<bar>y * c + x * s + og\<bar> \<le> 8192 + 2 ^ 24" using B1 o by linarith
  show "\<bar>float64 (float64 (float64 (y' * cT) + float64 (x' * sT)) + og)
          - (y * c + x * s + og)\<bar> \<le> 1 / 2 ^ 28"
    using float64_close [OF t1' B1'] by simp
  have "\<bar>(float64 (x' * cT) - float64 (y' * sT)) - (x * c - y * s)\<bar>
          \<le> 1 / 2 ^ 37 + 1 / 2 ^ 37"
    using xc ys by linarith
  hence s2: "\<bar>(float64 (x' * cT) - float64 (y' * sT)) - (x * c - y * s)\<bar> \<le> 1 / 2 ^ 36"
    by simp
  have B2: "\<bar>x * c - y * s\<bar> \<le> 8192"
    using b [OF x(2) c(2)] b [OF y(2) s(2)] by linarith
  have t2: "\<bar>float64 (float64 (x' * cT) - float64 (y' * sT)) - (x * c - y * s)\<bar>
              \<le> 1 / 2 ^ 36 + 1 / 2 ^ 39"
    using float64_close [OF s2 B2] by simp
  hence t2': "\<bar>(float64 (float64 (x' * cT) - float64 (y' * sT)) + og) - (x * c - y * s + og)\<bar>
              \<le> 1 / 2 ^ 36 + 1 / 2 ^ 39" by simp
  have B2': "\<bar>x * c - y * s + og\<bar> \<le> 8192 + 2 ^ 24" using B2 o by linarith
  show "\<bar>float64 (float64 (float64 (x' * cT) - float64 (y' * sT)) + og)
          - (x * c - y * s + og)\<bar> \<le> 1 / 2 ^ 28"
    using float64_close [OF t2' B2'] by simp
qed

subsection \<open>The AB line\<close>

text \<open>
  Claim C1. For points \<open>A\<close>, \<open>B\<close> whose Easting and Northing differences are both nonzero,
  the call computes \<open>DeltaEasting = Bx - Ax\<close>, \<open>DeltaNorthing = By - Ay\<close> and
  \<open>DirectionTheta = arctan (|DeltaNorthing| / |DeltaEasting|)\<close>, which lies in \<open>[0, pi/2)\<close>,
  and selects the rotation angle and the label angle (in degrees) by the signs of
  (DeltaNorthing, DeltaEasting): (+,+) gives \<open>3 pi/2 + DirectionTheta\<close> and
  \<open>90 - deg DirectionTheta\<close>; (+,-) gives \<open>pi/2 - DirectionTheta\<close> and
  \<open>270 + deg DirectionTheta\<close>; (-,-) gives \<open>pi/2 + DirectionTheta\<close> and \<open>deg DirectionTheta\<close>;
  (-,+) gives \<open>3 pi/2 - DirectionTheta\<close> and \<open>270 + deg DirectionTheta\<close>.
\<close>

theorem ab_line_quadrant_table:
  assumes "fst B - fst A \<noteq> 0" and "snd B - snd A \<noteq> 0"
  shows "\<exists>ab. ab_line_of A B = Inr ab
    \<and> DeltaEasting ab = fst B - fst A
    \<and> DeltaNorthing ab = snd B - snd A
    \<and> DirectionTheta ab = arctan (\<bar>DeltaNorthing ab\<bar> / \<bar>DeltaEasting ab\<bar>)
    \<and> 0 \<le> DirectionTheta ab \<and> DirectionTheta ab < pi / 2
    \<and> (DeltaNorthing ab > 0 \<and> DeltaEasting ab > 0 \<longrightarrow>
          Theta ab = 3 * pi / 2 + DirectionTheta ab
          \<and> srt_theta ab = 90 - DirectionTheta ab * (180 / pi))
    \<and> (DeltaNorthing ab > 0 \<and> DeltaEasting ab < 0 \<longrightarrow>
          Theta ab = pi / 2 - DirectionTheta ab
          \<and> srt_theta ab = 270 + DirectionTheta ab * (180 / pi))
    \<and> (DeltaNorthing ab < 0 \<and> DeltaEasting ab < 0 \<longrightarrow>
          Theta ab = pi / 2 + DirectionTheta ab
          \<and> srt_theta ab = DirectionTheta ab * (180 / pi))
    \<and> (DeltaNorthing ab < 0 \<and> DeltaEasting ab > 0 \<longrightarrow>
          Theta ab = 3 * pi / 2 - DirectionTheta ab
          \<and> srt_theta ab = 270 + DirectionTheta ab * (180 / pi))"
proof -
  have pos: "0 \<le> \<bar>snd B - snd A\<bar> / \<bar>fst B - fst A\<bar>"
    by simp
  have lo: "0 \<le> arctan (\<bar>snd B - snd A\<bar> / \<bar>fst B - fst A\<bar>)"
    using pos by (simp only: zero_le_arctan_iff)
  have hi: "arctan (\<bar>snd B - snd A\<bar> / \<bar>fst B - fst A\<bar>) < pi / 2"
    by (rule arctan_ubound)
  show ?thesis
    using assms lo hi by (auto simp: ab_line_of_def Let_def)
qed

text \<open>The table at \<open>A = (0, 0)\<close>, \<open>B = (1, 1)\<close>: first quadrant, 45 degrees.\<close>

theorem ab_line_quadrant_table_witness:
  "fst (1::real, 1::real) - fst (0::real, 0::real) \<noteq> 0
   \<and> snd (1::real, 1::real) - snd (0::real, 0::real) \<noteq> 0
   \<and> (\<exists>ab. ab_line_of (0, 0) (1, 1) = Inr ab
         \<and> DirectionTheta ab = pi / 4
         \<and> Theta ab = 3 * pi / 2 + pi / 4
         \<and> srt_theta ab = 45)"
proof -
  have h1: "fst (1::real, 1::real) - fst (0::real, 0::real) \<noteq> 0" by simp
  have h2: "snd (1::real, 1::real) - snd (0::real, 0::real) \<noteq> 0" by simp
  have "\<exists>ab. ab_line_of (0::real, 0::real) (1::real, 1::real) = Inr ab
    \<and> DeltaEasting ab = 1 \<and> DeltaNorthing ab = 1
    \<and> DirectionTheta ab = arctan (\<bar>DeltaNorthing ab\<bar> / \<bar>DeltaEasting ab\<bar>)
    \<and> (DeltaNorthing ab > 0 \<and> DeltaEasting ab > 0 \<longrightarrow>
          Theta ab = 3 * pi / 2 + DirectionTheta ab
          \<and> srt_theta ab = 90 - DirectionTheta ab * (180 / pi))"
    using ab_line_quadrant_table [OF h1 h2]
    by (simp only: fst_conv snd_conv diff_zero) blast
  then obtain ab where
    r: "ab_line_of (0::real, 0::real) (1::real, 1::real) = Inr ab"
    and e: "DeltaEasting ab = 1" and n: "DeltaNorthing ab = 1"
    and d: "DirectionTheta ab = arctan (\<bar>DeltaNorthing ab\<bar> / \<bar>DeltaEasting ab\<bar>)"
    and q: "DeltaNorthing ab > 0 \<and> DeltaEasting ab > 0 \<longrightarrow>
          Theta ab = 3 * pi / 2 + DirectionTheta ab
          \<and> srt_theta ab = 90 - DirectionTheta ab * (180 / pi)"
    by blast
  have d4: "DirectionTheta ab = pi / 4"
    using d e n by (simp add: arctan_one)
  have t: "Theta ab = 3 * pi / 2 + pi / 4"
    using q e n d4 by simp
  have "srt_theta ab = 90 - (pi / 4) * (180 / pi)"
    using q e n d4 by simp
  then have s: "srt_theta ab = 45" by simp
  show ?thesis using h1 h2 r d4 t s by blast
qed

subsection \<open>Validation\<close>

lemma raises_validation_iff:
  "raises_validation a \<longleftrightarrow> (\<exists>v. snd (plotshpcreate a) = Inl (ValidationError v))"
  by (auto simp: raises_validation_def split: sum.splits error.splits)

text \<open>
  Claim C6, as amended. The call raises one of its own validation errors exactly when a
  required column (Plot, Range, Row, Barcode) is missing; or the stagger has start row 1,
  or a start row above rows per pass plus one, or meets combined rows (\<open>nrowplot > 1\<close>
  without \<open>multirowind\<close>) with \<open>nrowplot\<close> above half the rows per pass; or the Eastings
  of \<open>A\<close> and \<open>B\<close> differ and \<open>plotsubset\<close> is nonzero with \<open>nrowplot = 1\<close>, \<open>nrowplot < 3\<close> or
  \<open>nrowplot = 2 * plotsubset\<close>. The subset is validated at lines 228--234, after the
  direction of the AB line has been computed at line 150.
\<close>

theorem validation_error_iff:
  "raises_validation a \<longleftrightarrow>
     (stagger_invalid a \<or> missing_cols (infile a) \<noteq> []
      \<or> (fst (B_point a) \<noteq> fst (A_point a) \<and> subset_invalid a))"
proof -
  have st: "stagger_invalid a \<longleftrightarrow>
      (\<exists>v. check_stagger (stagger a) (nrowplot a) (multirowind a) = Inl (ValidationError v))"
    using check_stagger_invalid [of a]
      check_stagger_cases [of "stagger a" "nrowplot a" "multirowind a"] by auto
  have su: "subset_invalid a \<longleftrightarrow>
      plotsubset a \<noteq> 0 \<and> (\<exists>v. check_subset (nrowplot a) (plotsubset a) = Inl (ValidationError v))"
    using check_subset_invalid [of "nrowplot a" "plotsubset a"]
      check_subset_cases [of "nrowplot a" "plotsubset a"]
    by (auto simp: subset_invalid_def)
  show ?thesis
  proof (cases "missing_cols (infile a) = []")
    case True
    thus ?thesis
      unfolding raises_validation_iff plotshpcreate_validation st su
      using check_stagger_cases [of "stagger a" "nrowplot a" "multirowind a"]
      by auto
  next
    case False
    thus ?thesis
      unfolding raises_validation_iff plotshpcreate_validation by simp
  qed
qed

text \<open>
  The two configurations the specification names, \<open>stagger = (1, 2, 0.5)\<close> and
  \<open>nrowplot = 2\<close> with \<open>plotsubset = 1\<close>, raise; the defaults do not.
\<close>

theorem validation_error_iff_witness:
  "raises_validation
     ((default_args (746239.817, 3382052.264) (746334.224, 3382152.870) sample_data ''test'')
        \<lparr>stagger := Some (1, 2, 0.5)\<rparr>)
   \<and> raises_validation
     ((default_args (746239.817, 3382052.264) (746334.224, 3382152.870) sample_data ''test'')
        \<lparr>nrowplot := 2, plotsubset := 1\<rparr>)
   \<and> \<not> raises_validation
     (default_args (746239.817, 3382052.264) (746334.224, 3382152.870) sample_data ''test'')"
  using validation_error_iff
     [of "(default_args (746239.817, 3382052.264) (746334.224, 3382152.870) sample_data ''test'')
        \<lparr>stagger := Some (1, 2, 0.5)\<rparr>"]
    validation_error_iff
     [of "(default_args (746239.817, 3382052.264) (746334.224, 3382152.870) sample_data ''test'')
        \<lparr>nrowplot := 2, plotsubset := 1\<rparr>"]
    validation_error_iff
     [of "default_args (746239.817, 3382052.264) (746334.224, 3382152.870) sample_data ''test''"]
  by (simp add: default_args_def stagger_invalid_def subset_invalid_def missing_cols_def
      required_cols_def sample_data_def)

text \<open>
  Claim C6 as stated fails: with \<open>A\<close> and \<open>B\<close> on one Easting, the invalid subset
  configuration \<open>nrowplot = 2\<close>, \<open>plotsubset = 1\<close> ends in the division by zero of line
  150, not in a validation error.
\<close>

theorem validation_exactly_counterexample:
  "\<not> (raises_validation
        ((default_args (746239.817, 3382052.264) (746239.817, 3382152.870) sample_data ''test'')
           \<lparr>nrowplot := 2, plotsubset := 1\<rparr>)
      \<longleftrightarrow>
      invalid_configuration
        ((default_args (746239.817, 3382052.264) (746239.817, 3382152.870) sample_data ''test'')
           \<lparr>nrowplot := 2, plotsubset := 1\<rparr>))"
proof -
  let ?a = "(default_args (746239.817, 3382052.264) (746239.817, 3382152.870) sample_data ''test'')
           \<lparr>nrowplot := 2, plotsubset := 1\<rparr>"
  have m: "missing_cols (infile ?a) = []"
    by (simp add: default_args_def missing_cols_def required_cols_def sample_data_def)
  have s: "check_stagger (stagger ?a) (nrowplot ?a) (multirowind ?a) = Inr ()"
    by (simp add: default_args_def check_stagger_def)
  have z: "ab_line_of (A_point ?a) (B_point ?a) = Inl ZeroDivisionError"
    by (simp add: default_args_def ab_line_of_def)
  have "snd (plotshpcreate ?a) = Inl ZeroDivisionError"
    by (simp only: snd_plotshpcreate m s z if_False sum.case simp_thms)
  hence "\<not> raises_validation ?a"
    by (simp add: raises_validation_def)
  moreover have "invalid_configuration ?a"
    by (simp add: invalid_configuration_def subset_invalid_def default_args_def)
  ultimately show ?thesis by blast
qed

text \<open>
  Claim C7. Whenever the call raises one of its validation errors, it has handed nothing
  to the renderers or to the shapefile writer: the log of the call holds no artifact,
  neither an unbuffered nor a buffered polygon set.
\<close>

theorem no_artifact_on_validation_error:
  assumes "snd (plotshpcreate a) = Inl (ValidationError v)"
  shows "filter is_artifact (fst (plotshpcreate a)) = []"
proof (cases "missing_cols (infile a) \<noteq> []")
  case True
  thus ?thesis by (simp add: plotshpcreate_def Let_def)
next
  case m: False
  show ?thesis
  proof (cases "check_stagger (stagger a) (nrowplot a) (multirowind a)")
    case (Inl e)
    thus ?thesis using m by (simp add: plotshpcreate_def Let_def)
  next
    case (Inr u)
    show ?thesis
    proof (cases "ab_line_of (A_point a) (B_point a)")
      case (Inl e)
      thus ?thesis using m Inr by (simp add: plotshpcreate_def Let_def)
    next
      case ab: (Inr ab)
      show ?thesis
      proof (cases "grid_stage a (table_of a) (n_range a)")
        case (Inl e)
        thus ?thesis using m Inr ab
          by (simp add: plotshpcreate_def Let_def table_of_def n_range_def)
      next
        case g: (Inr p)
        obtain M ns where p: "p = (M, ns)" by (cases p)
        have "snd (plotshpcreate a) = snd (emit a ab M ns)"
          using m Inr ab g p by (simp add: snd_plotshpcreate)
        hence False
          using assms emit_error [of a ab M ns "ValidationError v"] by auto
        thus ?thesis ..
      qed
    qed
  qed
qed

text \<open>
  Both kinds of validation error on the test table: the stagger check at the start of the
  call, and the subset check after the table has been sorted and the matrix built.
\<close>

theorem no_artifact_on_validation_error_witness:
  "snd (plotshpcreate
     ((default_args (746239.817, 3382052.264) (746334.224, 3382152.870) sample_data ''test'')
        \<lparr>stagger := Some (1, 2, 0.5)\<rparr>)) = Inl (ValidationError StaggerFirstPlot)
   \<and> filter is_artifact (fst (plotshpcreate
     ((default_args (746239.817, 3382052.264) (746334.224, 3382152.870) sample_data ''test'')
        \<lparr>stagger := Some (1, 2, 0.5)\<rparr>))) = []
   \<and> snd (plotshpcreate
     ((default_args (746239.817, 3382052.264) (746334.224, 3382152.870) sample_data ''test'')
        \<lparr>nrowplot := 2, plotsubset := 1\<rparr>)) = Inl (ValidationError SubsetCentral)
   \<and> filter is_artifact (fst (plotshpcreate
     ((default_args (746239.817, 3382052.264) (746334.224, 3382152.870) sample_data ''test'')
        \<lparr>nrowplot := 2, plotsubset := 1\<rparr>))) = []"
proof -
  let ?a1 = "(default_args (746239.817, 3382052.264) (746334.224, 3382152.870) sample_data ''test'')
        \<lparr>stagger := Some (1, 2, 0.5)\<rparr>"
  let ?a2 = "(default_args (746239.817, 3382052.264) (746334.224, 3382152.870) sample_data ''test'')
        \<lparr>nrowplot := 2, plotsubset := 1\<rparr>"
  have h1: "snd (plotshpcreate ?a1) = Inl (ValidationError StaggerFirstPlot)"
    unfolding plotshpcreate_validation
    by (simp add: default_args_def missing_cols_def required_cols_def sample_data_def
        check_stagger_def)
  have h2: "snd (plotshpcreate ?a2) = Inl (ValidationError SubsetCentral)"
    unfolding plotshpcreate_validation
    by (simp add: default_args_def missing_cols_def required_cols_def sample_data_def
        check_stagger_def check_subset_def)
  show ?thesis
    using h1 h2 no_artifact_on_validation_error [OF h1] no_artifact_on_validation_error [OF h2]
    by simp
qed

subsection \<open>Combined rows\<close>

text \<open>
  Claim C4. In combined-rows mode (\<open>nrowplot > 1\<close>, \<open>multirowind\<close> false, \<open>plotsubset = 0\<close>)
  on a table with at least one record, row grouping keeps exactly the records whose local
  row is one of \<open>1, 1 + nrowplot, 1 + 2 nrowplot, ...\<close>, renumbers each kept record to
  \<open>ceil (row / nrowplot)\<close> and keeps its label as it is, without a suffix; the row spacing
  used for the rectangles is \<open>nrowplot\<close> times the spacing of a single row.
\<close>

theorem combined_rows_mode:
  assumes n: "1 < nrowplot a" and mi: "\<not> multirowind a" and k: "plotsubset a = 0"
    and ne: "tbl \<noteq> []"
  shows "row_grouping (nrowplot a) (multirowind a) (plotsubset a)
           (map Barcode_col tbl) (init_matrix tbl) (map Barcode_col tbl)
         = Inr (map (\<lambda>r. r\<lparr>c2 := \<lceil>real_of_int (c2 r) / real_of_int (nrowplot a)\<rceil>\<rparr>)
                  (filter (\<lambda>r. (c2 r - 1) mod nrowplot a = 0) (init_matrix tbl)),
                map snd (filter (\<lambda>p. (c2 (fst p) - 1) mod nrowplot a = 0)
                           (zip (init_matrix tbl) (map Barcode_col tbl))))
       \<and> (\<forall>r\<in>set (init_matrix tbl).
            ((c2 r - 1) mod nrowplot a = 0) = (\<exists>j::nat. c2 r = 1 + int j * nrowplot a))
       \<and> row_spacing_m a = real_of_int (nrowplot a) * to_meters (unit_name a) (rowspc a)"
proof -
  let ?n = "nrowplot a"
  let ?M = "init_matrix tbl"
  let ?ns = "map Barcode_col tbl"
  let ?P = "\<lambda>r. c2 r = 1 + 0 \<or> c2 r \<in> set (arange (1 + ?n + 0) (Max (set (map c2 ?M)) + 1) ?n)"
  let ?K = "\<lambda>r. (c2 r - 1) mod ?n = 0"
  have len: "length ?ns = length ?M" by (simp add: length_init_matrix)
  have Mne: "?M \<noteq> []" using ne by (simp add: init_matrix_def Let_def)
  have pos: "0 < ?n" using n by simp
  have kept: "\<And>r. r \<in> set ?M \<Longrightarrow> ?K r = (\<exists>j::nat. c2 r = 1 + int j * ?n)"
  proof -
    fix r assume r: "r \<in> set ?M"
    have ge: "1 \<le> c2 r" using r by (rule init_matrix_c2_ge)
    show "?K r = (\<exists>j::nat. c2 r = 1 + int j * ?n)"
    proof
      assume m: "?K r"
      define q where "q = (c2 r - 1) div ?n"
      have "0 \<le> q" using ge pos by (simp add: q_def pos_imp_zdiv_nonneg_iff)
      moreover have "c2 r - 1 = q * ?n" using m by (auto simp: q_def)
      ultimately have "c2 r = 1 + int (nat q) * ?n" by simp
      thus "\<exists>j::nat. c2 r = 1 + int j * ?n" by blast
    next
      assume "\<exists>j::nat. c2 r = 1 + int j * ?n"
      thus "?K r" by auto
    qed
  qed
  have PK: "\<And>r. r \<in> set ?M \<Longrightarrow> ?P r = ?K r"
  proof -
    fix r assume r: "r \<in> set ?M"
    have "?P r = (\<exists>j::nat. c2 r = 1 + int j * ?n)"
      by (rule combined_mask_kept [OF n r init_matrix_c2_ge [OF r]])
    thus "?P r = ?K r" using kept [OF r] by simp
  qed
  have msk: "combined_mask ?n 0 ?M = map ?P ?M"
    by (simp add: combined_mask_def)
  have f1: "compress (combined_mask ?n 0 ?M) ?M = filter ?K ?M"
    unfolding msk compress_map
  proof (rule filter_cong [OF refl])
    fix r assume "r \<in> set ?M"
    thus "?P r = ?K r" by (rule PK)
  qed
  have f2: "compress (combined_mask ?n 0 ?M) ?ns
            = map snd (filter (\<lambda>p. ?K (fst p)) (zip ?M ?ns))"
  proof -
    have "compress (map ?P ?M) ?ns = map snd (filter (\<lambda>p. ?P (fst p)) (zip ?M ?ns))"
      by (rule compress_map_zip [OF len])
    moreover have "filter (\<lambda>p. ?P (fst p)) (zip ?M ?ns) = filter (\<lambda>p. ?K (fst p)) (zip ?M ?ns)"
    proof (rule filter_cong [OF refl])
      fix p assume "p \<in> set (zip ?M ?ns)"
      hence "fst p \<in> set ?M" by (metis prod.collapse set_zip_leftD)
      thus "?P (fst p) = ?K (fst p)" by (rule PK)
    qed
    ultimately show ?thesis unfolding msk by simp
  qed
  have f3: "map (renumber ?n) (filter ?K ?M)
            = map (\<lambda>r. r\<lparr>c2 := \<lceil>real_of_int (c2 r) / real_of_int ?n\<rceil>\<rparr>) (filter ?K ?M)"
  proof (rule map_cong [OF refl])
    fix r assume "r \<in> set (filter ?K ?M)"
    hence "1 \<le> c2 r" by (auto intro: init_matrix_c2_ge)
    moreover have "1 \<le> ?n" using n by simp
    ultimately show "renumber ?n r = r\<lparr>c2 := \<lceil>real_of_int (c2 r) / real_of_int ?n\<rceil>\<rparr>"
      by (intro renumber_ceiling)
  qed
  have "row_grouping ?n (multirowind a) (plotsubset a) ?ns ?M ?ns = combine_rows ?n 0 ?M ?ns"
    using n mi k by (simp add: row_grouping_def split: sum.splits)
  also have "\<dots> = Inr (map (renumber ?n) (compress (combined_mask ?n 0 ?M) ?M),
                        compress (combined_mask ?n 0 ?M) ?ns)"
    by (rule combine_rows_eq [OF len Mne])
  finally have g: "row_grouping ?n (multirowind a) (plotsubset a) ?ns ?M ?ns
      = Inr (map (\<lambda>r. r\<lparr>c2 := \<lceil>real_of_int (c2 r) / real_of_int ?n\<rceil>\<rparr>) (filter ?K ?M),
             map snd (filter (\<lambda>p. ?K (fst p)) (zip ?M ?ns)))"
    by (simp only: f1 f2 f3)
  have sp: "row_spacing_m a = real_of_int ?n * to_meters (unit_name a) (rowspc a)"
    using n mi k by (simp add: row_spacing_m_def to_meters_scale)
  have all: "\<forall>r\<in>set ?M. ?K r = (\<exists>j::nat. c2 r = 1 + int j * ?n)"
    by (intro ballI) (rule kept)
  from g all sp show ?thesis by (intro conjI)
qed

text \<open>
  The test table has local rows 1 to 4 in each range: with \<open>nrowplot = 2\<close> rows 1 and 3 are
  kept and become rows 1 and 2, under the labels of rows 1 and 3, and the spacing doubles.
\<close>

theorem combined_rows_mode_witness:
  "1 < nrowplot ((default_args (746239.817, 3382052.264) (746334.224, 3382152.870) sample_data ''test'')\<lparr>nrowplot := 2\<rparr>)
   \<and> rows sample_data \<noteq> []
   \<and> row_grouping 2 False 0 (map Barcode_col (rows sample_data)) (init_matrix (rows sample_data))
        (map Barcode_col (rows sample_data))
      = Inr ([\<lparr>c0 = 1, c1 = 1, c2 = 1, c3 = 0, c4 = 0, c5 = 0, c6 = 0, c7 = 0,
                 c8 = 0, c9 = 0, c10 = 0, c11 = 1\<rparr>,
              \<lparr>c0 = 2, c1 = 1, c2 = 2, c3 = 0, c4 = 0, c5 = 0, c6 = 0, c7 = 0,
                 c8 = 0, c9 = 0, c10 = 0, c11 = 3\<rparr>,
              \<lparr>c0 = 3, c1 = 2, c2 = 1, c3 = 0, c4 = 0, c5 = 0, c6 = 0, c7 = 0,
                 c8 = 0, c9 = 0, c10 = 0, c11 = 1\<rparr>,
              \<lparr>c0 = 4, c1 = 2, c2 = 2, c3 = 0, c4 = 0, c5 = 0, c6 = 0, c7 = 0,
                 c8 = 0, c9 = 0, c10 = 0, c11 = 3\<rparr>],
             [''BC001'', ''BC003'', ''BC005'', ''BC007''])
   \<and> row_spacing_m ((default_args (746239.817, 3382052.264) (746334.224, 3382152.870) sample_data ''test'')\<lparr>nrowplot := 2\<rparr>)
      = 2 * (2.5 / 3.281)"
proof -
  let ?a = "(default_args (746239.817, 3382052.264) (746334.224, 3382152.870) sample_data ''test'')\<lparr>nrowplot := 2\<rparr>"
  have h1: "1 < nrowplot ?a" by (simp add: default_args_def)
  have h2: "\<not> multirowind ?a" by (simp add: default_args_def)
  have h3: "plotsubset ?a = 0" by (simp add: default_args_def)
  have h4: "rows sample_data \<noteq> []" by (simp add: sample_data_def)
  have v: "nrowplot ?a = 2" "multirowind ?a = False" "plotsubset ?a = 0" "unit_name ?a = ''feet''"
    "rowspc ?a = 2.5"
    by (simp_all add: default_args_def)
  have M: "init_matrix (rows sample_data) =
      [\<lparr>c0 = 1, c1 = 1, c2 = 1, c3 = 0, c4 = 0, c5 = 0, c6 = 0, c7 = 0, c8 = 0, c9 = 0, c10 = 0, c11 = 1\<rparr>,
       \<lparr>c0 = 1, c1 = 1, c2 = 2, c3 = 0, c4 = 0, c5 = 0, c6 = 0, c7 = 0, c8 = 0, c9 = 0, c10 = 0, c11 = 2\<rparr>,
       \<lparr>c0 = 2, c1 = 1, c2 = 3, c3 = 0, c4 = 0, c5 = 0, c6 = 0, c7 = 0, c8 = 0, c9 = 0, c10 = 0, c11 = 3\<rparr>,
       \<lparr>c0 = 2, c1 = 1, c2 = 4, c3 = 0, c4 = 0, c5 = 0, c6 = 0, c7 = 0, c8 = 0, c9 = 0, c10 = 0, c11 = 4\<rparr>,
       \<lparr>c0 = 3, c1 = 2, c2 = 1, c3 = 0, c4 = 0, c5 = 0, c6 = 0, c7 = 0, c8 = 0, c9 = 0, c10 = 0, c11 = 1\<rparr>,
       \<lparr>c0 = 3, c1 = 2, c2 = 2, c3 = 0, c4 = 0, c5 = 0, c6 = 0, c7 = 0, c8 = 0, c9 = 0, c10 = 0, c11 = 2\<rparr>,
       \<lparr>c0 = 4, c1 = 2, c2 = 3, c3 = 0, c4 = 0, c5 = 0, c6 = 0, c7 = 0, c8 = 0, c9 = 0, c10 = 0, c11 = 3\<rparr>,
       \<lparr>c0 = 4, c1 = 2, c2 = 4, c3 = 0, c4 = 0, c5 = 0, c6 = 0, c7 = 0, c8 = 0, c9 = 0, c10 = 0, c11 = 4\<rparr>]"
    by code_simp
  note t = combined_rows_mode [OF h1 h2 h3 h4]
  from t have g: "row_grouping 2 False 0 (map Barcode_col (rows sample_data))
        (init_matrix (rows sample_data)) (map Barcode_col (rows sample_data))
      = Inr (map (\<lambda>r. r\<lparr>c2 := \<lceil>real_of_int (c2 r) / real_of_int 2\<rceil>\<rparr>)
                  (filter (\<lambda>r. (c2 r - 1) mod 2 = 0) (init_matrix (rows sample_data))),
                map snd (filter (\<lambda>p. (c2 (fst p) - 1) mod 2 = 0)
                           (zip (init_matrix (rows sample_data)) (map Barcode_col (rows sample_data)))))"
    unfolding v by blast
  from t have s: "row_spacing_m ?a = real_of_int 2 * to_meters ''feet'' 2.5"
    unfolding v by blast
  have r1: "map (\<lambda>r. r\<lparr>c2 := \<lceil>real_of_int (c2 r) / real_of_int 2\<rceil>\<rparr>)
                  (filter (\<lambda>r. (c2 r - 1) mod 2 = 0) (init_matrix (rows sample_data)))
       = [\<lparr>c0 = 1, c1 = 1, c2 = 1, c3 = 0, c4 = 0, c5 = 0, c6 = 0, c7 = 0,
                 c8 = 0, c9 = 0, c10 = 0, c11 = 1\<rparr>,
              \<lparr>c0 = 2, c1 = 1, c2 = 2, c3 = 0, c4 = 0, c5 = 0, c6 = 0, c7 = 0,
                 c8 = 0, c9 = 0, c10 = 0, c11 = 3\<rparr>,
              \<lparr>c0 = 3, c1 = 2, c2 = 1, c3 = 0, c4 = 0, c5 = 0, c6 = 0, c7 = 0,
                 c8 = 0, c9 = 0, c10 = 0, c11 = 1\<rparr>,
              \<lparr>c0 = 4, c1 = 2, c2 = 2, c3 = 0, c4 = 0, c5 = 0, c6 = 0, c7 = 0,
                 c8 = 0, c9 = 0, c10 = 0, c11 = 3\<rparr>]"
    unfolding M by (simp add: ceiling_eq_iff)
  have r2: "map snd (filter (\<lambda>p. (c2 (fst p) - 1) mod 2 = 0)
                (zip (init_matrix (rows sample_data)) (map Barcode_col (rows sample_data))))
       = [''BC001'', ''BC003'', ''BC005'', ''BC007'']"
    unfolding M by (simp add: sample_data_def)
  have g': "row_grouping 2 False 0 (map Barcode_col (rows sample_data))
        (init_matrix (rows sample_data)) (map Barcode_col (rows sample_data))
      = Inr ([\<lparr>c0 = 1, c1 = 1, c2 = 1, c3 = 0, c4 = 0, c5 = 0, c6 = 0, c7 = 0,
                 c8 = 0, c9 = 0, c10 = 0, c11 = 1\<rparr>,
              \<lparr>c0 = 2, c1 = 1, c2 = 2, c3 = 0, c4 = 0, c5 = 0, c6 = 0, c7 = 0,
                 c8 = 0, c9 = 0, c10 = 0, c11 = 3\<rparr>,
              \<lparr>c0 = 3, c1 = 2, c2 = 1, c3 = 0, c4 = 0, c5 = 0, c6 = 0, c7 = 0,
                 c8 = 0, c9 = 0, c10 = 0, c11 = 1\<rparr>,
              \<lparr>c0 = 4, c1 = 2, c2 = 2, c3 = 0, c4 = 0, c5 = 0, c6 = 0, c7 = 0,
                 c8 = 0, c9 = 0, c10 = 0, c11 = 3\<rparr>],
             [''BC001'', ''BC003'', ''BC005'', ''BC007''])"
    using g by (simp only: r1 r2)
  have s': "row_spacing_m ?a = 2 * (2.5 / 3.281)"
    unfolding s by (simp add: to_meters_def)
  show ?thesis using h1 h4 g' s' by blast
qed

subsection \<open>Serpentine order\<close>

text \<open>
  Claim C5. Let the sorting routine behind \<^verbatim>\<open>np.argsort\<close> be any routine that returns a
  permutation of the positions putting the keys in ascending order. On a matrix with one
  label per row and \<open>nRange > 0\<close> the serpentine stage succeeds, and its output is the
  concatenation, in increasing range order, of one pass per range index from 1 to
  \<open>nRange\<close>: each pass holds exactly the records of its range, with their labels, sorted
  ascending by local row and reversed when the index is even. When no two records share a
  range and a row, that fixes the output: it is the sequence of the specification. The
  labelled rectangles written for the output, unbuffered and buffered, are as a multiset
  the rectangles of the input records with range index in \<open>1..nRange\<close>, each computed from
  its record alone: the order of emission changes no corner coordinate.
\<close>

theorem serpentine_order:
  assumes srt: "\<And>ks. is_argsort ks (srt ks)"
    and len: "length row_names = length M" and pos: "0 < nRange"
  shows "\<exists>passes.
       serpentine_by srt nRange M row_names
         = Inr (map fst (concat passes), map snd (concat passes))
     \<and> list_all2 (serp_pass_ok (zip M row_names)) [1..int nRange] passes
     \<and> (distinct (map (\<lambda>r. (c1 r, c2 r)) M)
          \<longrightarrow> concat passes = serpentine_spec nRange (zip M row_names))
     \<and> mset (zip (map snd (concat passes))
                 (map ring (plots_adjusted a ab (map fst (concat passes)))))
         = image_mset (\<lambda>p. (snd p, ring (adjusted_row a ab (fst p))))
             (filter_mset (\<lambda>p. 1 \<le> c1 (fst p) \<and> c1 (fst p) \<le> int nRange)
                (mset (zip M row_names)))
     \<and> mset (zip (map snd (concat passes))
                 (map ring (plots_adjusted_buf a ab (map fst (concat passes)))))
         = image_mset (\<lambda>p. (snd p, ring (adjusted_buf_row a ab (fst p))))
             (filter_mset (\<lambda>p. 1 \<le> c1 (fst p) \<and> c1 (fst p) \<le> int nRange)
                (mset (zip M row_names)))"
proof -
  define recs where "recs = zip M row_names"
  define passes where "passes = map (\<lambda>i. pass_by srt i recs) [1..int nRange]"
  have ok: "serp_pass_ok recs i (pass_by srt i recs)" for i
    by (rule pass_by_ok [OF srt])
  have run: "serpentine_by srt nRange M row_names
         = Inr (map fst (concat passes), map snd (concat passes))"
    unfolding passes_def recs_def by (rule serpentine_by_eq [OF srt len pos])
  have all: "list_all2 (serp_pass_ok recs) [1..int nRange] passes"
    unfolding passes_def by (simp add: list_all2_map2 list_all2_same ok)
  have uniq: "concat passes = serpentine_spec nRange recs"
    if d: "distinct (map (\<lambda>r. (c1 r, c2 r)) M)"
  proof -
    have "pass_by srt i recs = serp_pass i recs" for i
      by (rule serp_pass_ok_unique [OF ok])
         (unfold recs_def, rule distinct_cells_pass [OF d len])
    thus ?thesis by (simp add: passes_def serpentine_spec_def)
  qed
  have ms: "mset (concat passes)
      = filter_mset (\<lambda>p. 1 \<le> c1 (fst p) \<and> c1 (fst p) \<le> int nRange) (mset recs)"
    unfolding passes_def
    by (rule mset_concat_passes) (use ok in \<open>simp add: serp_pass_ok_def\<close>)
  have g1: "mset (zip (map snd (concat passes))
                 (map ring (plots_adjusted a ab (map fst (concat passes)))))
         = image_mset (\<lambda>p. (snd p, ring (adjusted_row a ab (fst p))))
             (filter_mset (\<lambda>p. 1 \<le> c1 (fst p) \<and> c1 (fst p) \<le> int nRange) (mset recs))"
    using zip_labels_rings [of "concat passes" "\<lambda>r. ring (adjusted_row a ab r)"]
    by (simp add: plots_adjusted_def comp_def ms [symmetric])
  have g2: "mset (zip (map snd (concat passes))
                 (map ring (plots_adjusted_buf a ab (map fst (concat passes)))))
         = image_mset (\<lambda>p. (snd p, ring (adjusted_buf_row a ab (fst p))))
             (filter_mset (\<lambda>p. 1 \<le> c1 (fst p) \<and> c1 (fst p) \<le> int nRange) (mset recs))"
    using zip_labels_rings [of "concat passes" "\<lambda>r. ring (adjusted_buf_row a ab r)"]
    by (simp add: plots_adjusted_buf_def comp_def ms [symmetric])
  show ?thesis
    using run all uniq g1 g2 unfolding recs_def by blast
qed

text \<open>Three ranges of two rows: rows 1, 2, then 2, 1, then 1, 2.\<close>

theorem serpentine_order_witness:
  "(\<forall>ks. is_argsort ks (argsort ks))
   \<and> length (map Barcode_col grid_3x2) = length (init_matrix grid_3x2)
   \<and> (0::nat) < 3
   \<and> distinct (map (\<lambda>r. (c1 r, c2 r)) (init_matrix grid_3x2))
   \<and> serpentine_by argsort 3 (init_matrix grid_3x2) (map Barcode_col grid_3x2) =
       Inr ([\<lparr>c0 = 1, c1 = 1, c2 = 1, c3 = 0, c4 = 0, c5 = 0, c6 = 0, c7 = 0,
               c8 = 0, c9 = 0, c10 = 0, c11 = 1\<rparr>,
             \<lparr>c0 = 2, c1 = 1, c2 = 2, c3 = 0, c4 = 0, c5 = 0, c6 = 0, c7 = 0,
               c8 = 0, c9 = 0, c10 = 0, c11 = 2\<rparr>,
             \<lparr>c0 = 4, c1 = 2, c2 = 2, c3 = 0, c4 = 0, c5 = 0, c6 = 0, c7 = 0,
               c8 = 0, c9 = 0, c10 = 0, c11 = 2\<rparr>,
             \<lparr>c0 = 3, c1 = 2, c2 = 1, c3 = 0, c4 = 0, c5 = 0, c6 = 0, c7 = 0,
               c8 = 0, c9 = 0, c10 = 0, c11 = 1\<rparr>,
             \<lparr>c0 = 5, c1 = 3, c2 = 1, c3 = 0, c4 = 0, c5 = 0, c6 = 0, c7 = 0,
               c8 = 0, c9 = 0, c10 = 0, c11 = 1\<rparr>,
             \<lparr>c0 = 6, c1 = 3, c2 = 2, c3 = 0, c4 = 0, c5 = 0, c6 = 0, c7 = 0,
               c8 = 0, c9 = 0, c10 = 0, c11 = 2\<rparr>],
            [''P1'', ''P2'', ''P4'', ''P3'', ''P5'', ''P6''])"
proof -
  have h0: "is_argsort ks (argsort ks)" for ks by (rule is_argsort_argsort)
  have h1: "length (map Barcode_col grid_3x2) = length (init_matrix grid_3x2)"
    by (simp add: length_init_matrix)
  have h2: "(0::nat) < 3" by simp
  have d: "distinct (map (\<lambda>r. (c1 r, c2 r)) (init_matrix grid_3x2))"
    by code_simp
  have S: "serpentine_spec 3 (zip (init_matrix grid_3x2) (map Barcode_col grid_3x2)) =
       [(\<lparr>c0 = 1, c1 = 1, c2 = 1, c3 = 0, c4 = 0, c5 = 0, c6 = 0, c7 = 0,
               c8 = 0, c9 = 0, c10 = 0, c11 = 1\<rparr>, ''P1''),
        (\<lparr>c0 = 2, c1 = 1, c2 = 2, c3 = 0, c4 = 0, c5 = 0, c6 = 0, c7 = 0,
               c8 = 0, c9 = 0, c10 = 0, c11 = 2\<rparr>, ''P2''),
        (\<lparr>c0 = 4, c1 = 2, c2 = 2, c3 = 0, c4 = 0, c5 = 0, c6 = 0, c7 = 0,
               c8 = 0, c9 = 0, c10 = 0, c11 = 2\<rparr>, ''P4''),
        (\<lparr>c0 = 3, c1 = 2, c2 = 1, c3 = 0, c4 = 0, c5 = 0, c6 = 0, c7 = 0,
               c8 = 0, c9 = 0, c10 = 0, c11 = 1\<rparr>, ''P3''),
        (\<lparr>c0 = 5, c1 = 3, c2 = 1, c3 = 0, c4 = 0, c5 = 0, c6 = 0, c7 = 0,
               c8 = 0, c9 = 0, c10 = 0, c11 = 1\<rparr>, ''P5''),
        (\<lparr>c0 = 6, c1 = 3, c2 = 2, c3 = 0, c4 = 0, c5 = 0, c6 = 0, c7 = 0,
               c8 = 0, c9 = 0, c10 = 0, c11 = 2\<rparr>, ''P6'')]"
    by code_simp
  from serpentine_order [of argsort, OF h0 h1 h2] d
  obtain passes where
    run: "serpentine_by argsort 3 (init_matrix grid_3x2) (map Barcode_col grid_3x2)
            = Inr (map fst (concat passes), map snd (concat passes))"
    and u: "concat passes = serpentine_spec 3 (zip (init_matrix grid_3x2) (map Barcode_col grid_3x2))"
    by blast
  have "serpentine_by argsort 3 (init_matrix grid_3x2) (map Barcode_col grid_3x2) =
       Inr ([\<lparr>c0 = 1, c1 = 1, c2 = 1, c3 = 0, c4 = 0, c5 = 0, c6 = 0, c7 = 0,
               c8 = 0, c9 = 0, c10 = 0, c11 = 1\<rparr>,
             \<lparr>c0 = 2, c1 = 1, c2 = 2, c3 = 0, c4 = 0, c5 = 0, c6 = 0, c7 = 0,
               c8 = 0, c9 = 0, c10 = 0, c11 = 2\<rparr>,
             \<lparr>c0 = 4, c1 = 2, c2 = 2, c3 = 0, c4 = 0, c5 = 0, c6 = 0, c7 = 0,
               c8 = 0, c9 = 0, c10 = 0, c11 = 2\<rparr>,
             \<lparr>c0 = 3, c1 = 2, c2 = 1, c3 = 0, c4 = 0, c5 = 0, c6 = 0, c7 = 0,
               c8 = 0, c9 = 0, c10 = 0, c11 = 1\<rparr>,
             \<lparr>c0 = 5, c1 = 3, c2 = 1, c3 = 0, c4 = 0, c5 = 0, c6 = 0, c7 = 0,
               c8 = 0, c9 = 0, c10 = 0, c11 = 1\<rparr>,
             \<lparr>c0 = 6, c1 = 3, c2 = 2, c3 = 0, c4 = 0, c5 = 0, c6 = 0, c7 = 0,
               c8 = 0, c9 = 0, c10 = 0, c11 = 2\<rparr>],
            [''P1'', ''P2'', ''P4'', ''P3'', ''P5'', ''P6''])"
    unfolding run u S by simp
  thus ?thesis using h0 h1 h2 d by blast
qed

text \<open>
  Claim C9. For a table with at least one record, on which row grouping succeeds with matrix
  \<open>M\<close>: \<open>nRange\<close> is the number of distinct Range values of the input; every row of \<open>M\<close>
  has the range index \<open>Range - min Range + 1\<close> of a record of the input; the serpentine
  stage succeeds and emits, as a multiset, exactly the labelled rows of \<open>M\<close> whose range
  index lies in \<open>1..nRange\<close>. Hence when the Range values are contiguous the stage permutes
  its input, and a row whose range index exceeds \<open>nRange\<close> is emitted nowhere; when the call
  succeeds, both shapefiles hold the records of the emitted rows only, and the only
  warnings of the call are the length warning and the CRS warning.
\<close>

theorem serpentine_keeps_ranges_up_to_nRange:
  assumes ne: "rows (infile a) \<noteq> []"
    and g: "row_grouping (nrowplot a) (multirowind a) (plotsubset a)
              (map Barcode_col (table_of a)) (init_matrix (table_of a))
              (map Barcode_col (table_of a)) = Inr (M, row_names)"
  shows "\<exists>M' names'.
       grid_stage a (table_of a) (n_range a) = Inr (M', names')
     \<and> n_range a = card (Range_col ` set (rows (infile a)))
     \<and> (\<forall>r\<in>set M. \<exists>t\<in>set (rows (infile a)).
            c1 r = Range_col t - Min (Range_col ` set (rows (infile a))) + 1)
     \<and> mset (zip M' names') =
         filter_mset (\<lambda>p. 1 \<le> c1 (fst p) \<and> c1 (fst p) \<le> int (n_range a)) (mset (zip M row_names))
     \<and> ((\<forall>v. Min (Range_col ` set (rows (infile a))) \<le> v
              \<and> v \<le> Max (Range_col ` set (rows (infile a)))
              \<longrightarrow> v \<in> Range_col ` set (rows (infile a)))
          \<longrightarrow> mset (zip M' names') = mset (zip M row_names))
     \<and> (\<forall>p\<in>set (zip M row_names). int (n_range a) < c1 (fst p) \<longrightarrow> p \<notin> set (zip M' names'))
     \<and> (snd (plotshpcreate a) = Inr () \<longrightarrow>
          (\<exists>ab. shapefiles (fst (plotshpcreate a)) =
                  [zip names' (map ring (plots_adjusted a ab M')),
                   zip names' (map ring (plots_adjusted_buf a ab M'))])
          \<and> filter (\<lambda>e. \<not> is_artifact e) (fst (plotshpcreate a)) =
              length_warning (length (table_of a)) (n_range a)
                (length (unique (map Row_col (table_of a)))) @ crs_warning a)"
proof -
  let ?R = "Range_col ` set (rows (infile a))"
  let ?S = "serpentine_spec (n_range a) (zip M row_names)"
  have fin: "finite ?R" by simp
  have Rne: "?R \<noteq> {}" using ne by simp
  have card: "n_range a = card ?R" by (rule n_range_card)
  have pos: "0 < n_range a"
    unfolding card using fin Rne by (simp add: card_gt_0_iff)
  have len: "length row_names = length M"
    by (rule row_grouping_length [OF _ _ g]) (simp_all add: length_init_matrix)
  have gs: "grid_stage a (table_of a) (n_range a) = Inr (map fst ?S, map snd ?S)"
    using g serpentine_eq [OF len pos] by (simp add: grid_stage_def)
  have zipS: "zip (map fst ?S) (map snd ?S) = ?S"
    by (simp add: zip_map_fst_snd)
  have ms: "mset (zip (map fst ?S) (map snd ?S)) =
      filter_mset (\<lambda>p. 1 \<le> c1 (fst p) \<and> c1 (fst p) \<le> int (n_range a)) (mset (zip M row_names))"
    unfolding zipS by (rule mset_serpentine_spec)
  have setR: "set (map Range_col (table_of a)) = ?R"
    by (simp add: table_of_def)
  have c1M: "\<forall>r\<in>set M. \<exists>t\<in>set (rows (infile a)). c1 r = Range_col t - Min ?R + 1"
  proof
    fix r assume "r \<in> set M"
    then obtain q where q: "q \<in> set (init_matrix (table_of a))" and e: "c1 r = c1 q"
      using row_grouping_c1 [OF g] by blast
    from init_matrix_rows [OF q] obtain t where "t \<in> set (table_of a)"
      and "c1 q = Range_col t - Min (set (map Range_col (table_of a))) + 1"
      by blast
    thus "\<exists>t\<in>set (rows (infile a)). c1 r = Range_col t - Min ?R + 1"
      using e unfolding setR by (auto simp: table_of_def)
  qed
  have ge1: "\<forall>r\<in>set M. 1 \<le> c1 r"
  proof
    fix r assume "r \<in> set M"
    then obtain t where t: "t \<in> set (rows (infile a))" and c: "c1 r = Range_col t - Min ?R + 1"
      using c1M by blast
    have "Min ?R \<le> Range_col t" using t by (intro Min_le) auto
    thus "1 \<le> c1 r" using c by simp
  qed
  have contig: "(\<forall>v. Min ?R \<le> v \<and> v \<le> Max ?R \<longrightarrow> v \<in> ?R)
          \<longrightarrow> mset (zip (map fst ?S) (map snd ?S)) = mset (zip M row_names)"
  proof
    assume c: "\<forall>v. Min ?R \<le> v \<and> v \<le> Max ?R \<longrightarrow> v \<in> ?R"
    have n: "int (n_range a) = Max ?R - Min ?R + 1"
      unfolding card by (rule contiguous_card [OF fin Rne c])
    have "\<forall>p\<in>#mset (zip M row_names). 1 \<le> c1 (fst p) \<and> c1 (fst p) \<le> int (n_range a)"
    proof
      fix p assume "p \<in># mset (zip M row_names)"
      hence "(fst p, snd p) \<in> set (zip M row_names)" by simp
      hence m: "fst p \<in> set M" by (rule set_zip_leftD)
      then obtain t where t: "t \<in> set (rows (infile a))"
        and e: "c1 (fst p) = Range_col t - Min ?R + 1"
        using c1M by blast
      have "Range_col t \<le> Max ?R" using t by (intro Max_ge) auto
      thus "1 \<le> c1 (fst p) \<and> c1 (fst p) \<le> int (n_range a)"
        using ge1 m e n by auto
    qed
    hence "filter_mset (\<lambda>p. 1 \<le> c1 (fst p) \<and> c1 (fst p) \<le> int (n_range a)) (mset (zip M row_names))
           = mset (zip M row_names)"
      by (simp add: filter_mset_eq_conv)
    thus "mset (zip (map fst ?S) (map snd ?S)) = mset (zip M row_names)"
      using ms by simp
  qed
  have dropped: "\<forall>p\<in>set (zip M row_names). int (n_range a) < c1 (fst p)
                   \<longrightarrow> p \<notin> set (zip (map fst ?S) (map snd ?S))"
  proof (intro ballI impI)
    fix p assume "p \<in> set (zip M row_names)" and big: "int (n_range a) < c1 (fst p)"
    have "p \<notin># filter_mset (\<lambda>p. 1 \<le> c1 (fst p) \<and> c1 (fst p) \<le> int (n_range a))
                   (mset (zip M row_names))"
      using big by simp
    hence "p \<notin># mset (zip (map fst ?S) (map snd ?S))"
      unfolding ms .
    thus "p \<notin> set (zip (map fst ?S) (map snd ?S))"
      by simp
  qed
  have run: "snd (plotshpcreate a) = Inr () \<longrightarrow>
          (\<exists>ab. shapefiles (fst (plotshpcreate a)) =
                  [zip (map snd ?S) (map ring (plots_adjusted a ab (map fst ?S))),
                   zip (map snd ?S) (map ring (plots_adjusted_buf a ab (map fst ?S)))])
          \<and> filter (\<lambda>e. \<not> is_artifact e) (fst (plotshpcreate a)) =
              length_warning (length (table_of a)) (n_range a)
                (length (unique (map Row_col (table_of a)))) @ crs_warning a"
  proof
    assume ok: "snd (plotshpcreate a) = Inr ()"
    from plotshpcreate_ok_iff [OF ok] have
      m: "missing_cols (infile a) = []"
      and st: "check_stagger (stagger a) (nrowplot a) (multirowind a) = Inr ()"
      and ex: "\<exists>ab M0 names0. ab_line_of (A_point a) (B_point a) = Inr ab
           \<and> grid_stage a (table_of a) (n_range a) = Inr (M0, names0)
           \<and> snd (emit a ab M0 names0) = Inr ()"
      by blast+
    from ex obtain ab M0 names0 where
      ab: "ab_line_of (A_point a) (B_point a) = Inr ab"
      and g0: "grid_stage a (table_of a) (n_range a) = Inr (M0, names0)"
      and em0: "snd (emit a ab M0 names0) = Inr ()"
      by blast
    have "M0 = map fst ?S" "names0 = map snd ?S"
      using g0 gs by simp_all
    hence em: "snd (emit a ab (map fst ?S) (map snd ?S)) = Inr ()"
      using em0 by simp
    have lenS: "length (map snd ?S) = length (map fst ?S)" by simp
    from emit_cases [OF lenS, of a ab] em
    have sh: "shapefiles (fst (emit a ab (map fst ?S) (map snd ?S))) =
             [zip (map snd ?S) (map ring (plots_adjusted a ab (map fst ?S))),
              zip (map snd ?S) (map ring (plots_adjusted_buf a ab (map fst ?S)))]"
      by auto
    have "shapefiles (fst (plotshpcreate a)) = shapefiles (fst (emit a ab (map fst ?S) (map snd ?S)))"
      by (rule plotshpcreate_unfold(2) [OF m st ab gs])
    hence s1: "\<exists>ab. shapefiles (fst (plotshpcreate a)) =
                  [zip (map snd ?S) (map ring (plots_adjusted a ab (map fst ?S))),
                   zip (map snd ?S) (map ring (plots_adjusted_buf a ab (map fst ?S)))]"
      using sh by auto
    have s2: "filter (\<lambda>e. \<not> is_artifact e) (fst (plotshpcreate a)) =
              length_warning (length (table_of a)) (n_range a)
                (length (unique (map Row_col (table_of a)))) @ crs_warning a"
      unfolding fst_plotshpcreate [OF m st ab gs]
      by (simp add: warnings_of_emit [OF em])
    show "(\<exists>ab. shapefiles (fst (plotshpcreate a)) =
                  [zip (map snd ?S) (map ring (plots_adjusted a ab (map fst ?S))),
                   zip (map snd ?S) (map ring (plots_adjusted_buf a ab (map fst ?S)))])
          \<and> filter (\<lambda>e. \<not> is_artifact e) (fst (plotshpcreate a)) =
              length_warning (length (table_of a)) (n_range a)
                (length (unique (map Row_col (table_of a)))) @ crs_warning a"
      using s1 s2 by (rule conjI)
  qed
  show ?thesis
    apply (rule exI [of _ "map fst ?S"])
    apply (rule exI [of _ "map snd ?S"])
    apply (intro conjI)
          apply (rule gs)
         apply (rule card)
        apply (rule c1M)
       apply (rule ms)
      apply (rule contig)
     apply (rule dropped)
    apply (rule run)
    done
qed

text \<open>
  A table with ranges 1 and 3 and rows 1 and 2 has \<open>nRange = 2\<close> and range indices 1 and 3:
  the call succeeds, both shapefiles hold the two plots of range 1 only, and the log has no
  warning.
\<close>

theorem serpentine_keeps_ranges_up_to_nRange_witness:
  "rows (infile ((default_args (746239.817, 3382052.264) (746334.224, 3382152.870) gapped_data ''gap'')
           \<lparr>UTMzone := Some ''14'', SquarePlot := False, RotatePlot := False\<rparr>)) \<noteq> []
   \<and> n_range ((default_args (746239.817, 3382052.264) (746334.224, 3382152.870) gapped_data ''gap'')
           \<lparr>UTMzone := Some ''14'', SquarePlot := False, RotatePlot := False\<rparr>) = 2
   \<and> map c1 (init_matrix (rows gapped_data)) = [1, 1, 3, 3]
   \<and> snd (plotshpcreate ((default_args (746239.817, 3382052.264) (746334.224, 3382152.870) gapped_data ''gap'')
           \<lparr>UTMzone := Some ''14'', SquarePlot := False, RotatePlot := False\<rparr>)) = Inr ()
   \<and> map (map fst) (shapefiles (fst (plotshpcreate
         ((default_args (746239.817, 3382052.264) (746334.224, 3382152.870) gapped_data ''gap'')
           \<lparr>UTMzone := Some ''14'', SquarePlot := False, RotatePlot := False\<rparr>))))
       = [[''G1'', ''G2''], [''G1'', ''G2'']]
   \<and> filter (\<lambda>e. \<not> is_artifact e) (fst (plotshpcreate
         ((default_args (746239.817, 3382052.264) (746334.224, 3382152.870) gapped_data ''gap'')
           \<lparr>UTMzone := Some ''14'', SquarePlot := False, RotatePlot := False\<rparr>))) = []"
proof -
  let ?a = "(default_args (746239.817, 3382052.264) (746334.224, 3382152.870) gapped_data ''gap'')
           \<lparr>UTMzone := Some ''14'', SquarePlot := False, RotatePlot := False\<rparr>"
  have tbl: "table_of ?a = rows gapped_data" by code_simp
  have h1: "rows (infile ?a) \<noteq> []"
    by (simp add: default_args_def gapped_data_def)
  have nr: "n_range ?a = 2" by code_simp
  have c1s: "map c1 (init_matrix (rows gapped_data)) = [1, 1, 3, 3]" by code_simp
  have h2: "row_grouping (nrowplot ?a) (multirowind ?a) (plotsubset ?a)
              (map Barcode_col (table_of ?a)) (init_matrix (table_of ?a))
              (map Barcode_col (table_of ?a))
            = Inr (init_matrix (table_of ?a), map Barcode_col (table_of ?a))"
    by (simp add: row_grouping_def default_args_def)
  have gs: "grid_stage ?a (table_of ?a) (n_range ?a) =
      Inr ([\<lparr>c0 = 1, c1 = 1, c2 = 1, c3 = 0, c4 = 0, c5 = 0, c6 = 0, c7 = 0,
              c8 = 0, c9 = 0, c10 = 0, c11 = 1\<rparr>,
            \<lparr>c0 = 2, c1 = 1, c2 = 2, c3 = 0, c4 = 0, c5 = 0, c6 = 0, c7 = 0,
              c8 = 0, c9 = 0, c10 = 0, c11 = 2\<rparr>],
           [''G1'', ''G2''])"
    by code_simp
  have m: "missing_cols (infile ?a) = []"
    by (simp add: default_args_def missing_cols_def required_cols_def gapped_data_def)
  have st: "check_stagger (stagger ?a) (nrowplot ?a) (multirowind ?a) = Inr ()"
    by (simp add: default_args_def check_stagger_def)
  have "fst (B_point ?a) \<noteq> fst (A_point ?a)" by (simp add: default_args_def)
  then obtain ab where ab: "ab_line_of (A_point ?a) (B_point ?a) = Inr ab"
    using ab_line_ok by blast
  have noplot: "(SquarePlot ?a \<or> RotatePlot ?a) \<longrightarrow>
      [\<lparr>c0 = 1, c1 = 1, c2 = 1, c3 = 0, c4 = 0, c5 = 0, c6 = 0, c7 = 0,
              c8 = 0, c9 = 0, c10 = 0, c11 = 1\<rparr>,
            \<lparr>c0 = 2, c1 = 1, c2 = 2, c3 = 0, c4 = 0, c5 = 0, c6 = 0, c7 = 0,
              c8 = 0, c9 = 0, c10 = 0, c11 = 2\<rparr>] \<noteq> []"
    by simp
  have ok: "snd (plotshpcreate ?a) = Inr ()"
    unfolding plotshpcreate_unfold(1) [OF m st ab gs]
    using emit_ok [OF _ noplot, of "[''G1'', ''G2'']" ab] by simp
  from serpentine_keeps_ranges_up_to_nRange [OF h1 h2] obtain M' names' where
    g': "grid_stage ?a (table_of ?a) (n_range ?a) = Inr (M', names')"
    and run: "snd (plotshpcreate ?a) = Inr () \<longrightarrow>
          (\<exists>ab. shapefiles (fst (plotshpcreate ?a)) =
                  [zip names' (map ring (plots_adjusted ?a ab M')),
                   zip names' (map ring (plots_adjusted_buf ?a ab M'))])
          \<and> filter (\<lambda>e. \<not> is_artifact e) (fst (plotshpcreate ?a)) =
              length_warning (length (table_of ?a)) (n_range ?a)
                (length (unique (map Row_col (table_of ?a)))) @ crs_warning ?a"
    by blast
  have n': "names' = [''G1'', ''G2'']" and M': "length M' = 2"
    using g' gs by auto
  from run ok obtain ab' where
    sh: "shapefiles (fst (plotshpcreate ?a)) =
                  [zip names' (map ring (plots_adjusted ?a ab' M')),
                   zip names' (map ring (plots_adjusted_buf ?a ab' M'))]"
    and wn: "filter (\<lambda>e. \<not> is_artifact e) (fst (plotshpcreate ?a)) =
              length_warning (length (table_of ?a)) (n_range ?a)
                (length (unique (map Row_col (table_of ?a)))) @ crs_warning ?a"
    by blast
  have l1: "length names' = length (map ring (plots_adjusted ?a ab' M'))"
    by (simp add: n' M' plots_adjusted_def)
  have l2: "length names' = length (map ring (plots_adjusted_buf ?a ab' M'))"
    by (simp add: n' M' plots_adjusted_buf_def)
  have labels: "map (map fst) (shapefiles (fst (plotshpcreate ?a))) = [[''G1'', ''G2''], [''G1'', ''G2'']]"
    unfolding sh using labels_of_zip [OF l1] labels_of_zip [OF l2] n' by simp
  have nrow: "length (unique (map Row_col (table_of ?a))) = 2" by code_simp
  have ltab: "length (table_of ?a) = 4" by code_simp
  have crs: "crs_warning ?a = []" by (simp add: crs_warning_def default_args_def)
  have nowarn: "filter (\<lambda>e. \<not> is_artifact e) (fst (plotshpcreate ?a)) = []"
    unfolding wn nr nrow ltab crs by (simp add: length_warning_def)
  show ?thesis
    using h1 nr c1s ok labels nowarn by (intro conjI)
qed

subsection \<open>Labels and records stay aligned\<close>

text \<open>
  Claim C10. Starting from a matrix with one label per row: combined-row filtering and
  subset filtering each select rows and labels by one and the same mask, of the length of
  the matrix, and return as many labels as rows; relabelling returns one label per row;
  row grouping as a whole, the serpentine stage and the whole grid stage return as many
  labels as rows. A call that succeeds has written two shapefiles, the unbuffered and the
  buffered one, with the same number of records and the same sequence of labels.
\<close>

theorem labels_follow_records:
  assumes len: "length row_names = length M" and bc: "length barcodes = length M"
  shows "(\<forall>M' names'. combine_rows n k M row_names = Inr (M', names') \<longrightarrow>
            length names' = length M'
          \<and> length (combined_mask n k M) = length M
          \<and> M' = map (renumber n) (compress (combined_mask n k M) M)
          \<and> names' = compress (combined_mask n k M) row_names)
       \<and> length (relabel barcodes M) = length M
       \<and> (\<forall>M' names'. subset_rows n k M row_names = Inr (M', names') \<longrightarrow>
            length names' = length M'
          \<and> length (plot_mask k M) = length M
          \<and> M' = compress (plot_mask k M) M
          \<and> names' = compress (plot_mask k M) row_names)
       \<and> (\<forall>M' names'. row_grouping n mi k barcodes M row_names = Inr (M', names') \<longrightarrow>
            length names' = length M')
       \<and> (\<forall>M' names'. serpentine nRange M row_names = Inr (M', names') \<longrightarrow>
            length names' = length M')
       \<and> (\<forall>tbl M' names'. grid_stage a tbl nRange = Inr (M', names') \<longrightarrow>
            length names' = length M')
       \<and> (snd (plotshpcreate a) = Inr () \<longrightarrow>
            (\<exists>u b. shapefiles (fst (plotshpcreate a)) = [u, b]
                 \<and> length u = length b \<and> map fst u = map fst b))"
proof -
  have p1: "\<forall>M' names'. combine_rows n k M row_names = Inr (M', names') \<longrightarrow>
            length names' = length M'
          \<and> length (combined_mask n k M) = length M
          \<and> M' = map (renumber n) (compress (combined_mask n k M) M)
          \<and> names' = compress (combined_mask n k M) row_names"
  proof (intro allI impI)
    fix M' names' assume c: "combine_rows n k M row_names = Inr (M', names')"
    have "M \<noteq> []" using c by (auto simp: combine_rows_def)
    from combine_rows_eq [OF len this, of n k] c
    have e: "M' = map (renumber n) (compress (combined_mask n k M) M)"
        "names' = compress (combined_mask n k M) row_names"
      by simp_all
    have l: "length names' = length M'" using len c by (rule combine_rows_length)
    have lm: "length (combined_mask n k M) = length M" by (simp add: combined_mask_def)
    show "length names' = length M'
          \<and> length (combined_mask n k M) = length M
          \<and> M' = map (renumber n) (compress (combined_mask n k M) M)
          \<and> names' = compress (combined_mask n k M) row_names"
      using l lm e by (intro conjI)
  qed
  have p2: "length (relabel barcodes M) = length M"
    by (rule length_relabel) (simp add: bc)
  have p3: "\<forall>M' names'. subset_rows n k M row_names = Inr (M', names') \<longrightarrow>
            length names' = length M'
          \<and> length (plot_mask k M) = length M
          \<and> M' = compress (plot_mask k M) M
          \<and> names' = compress (plot_mask k M) row_names"
  proof (intro allI impI)
    fix M' names' assume c: "subset_rows n k M row_names = Inr (M', names')"
    have "check_subset n k = Inr ()"
      using c by (cases "check_subset n k") (auto simp: subset_rows_def)
    from subset_rows_eq [OF len this] c
    have e: "M' = compress (plot_mask k M) M" "names' = compress (plot_mask k M) row_names"
      by simp_all
    have l: "length names' = length M'" using len c by (rule subset_rows_length)
    have lm: "length (plot_mask k M) = length M" by (simp add: plot_mask_def)
    show "length names' = length M'
          \<and> length (plot_mask k M) = length M
          \<and> M' = compress (plot_mask k M) M
          \<and> names' = compress (plot_mask k M) row_names"
      using l lm e by (intro conjI)
  qed
  have p4: "\<forall>M' names'. row_grouping n mi k barcodes M row_names = Inr (M', names') \<longrightarrow>
            length names' = length M'"
    using row_grouping_length [OF len bc] by blast
  have p5: "\<forall>M' names'. serpentine nRange M row_names = Inr (M', names') \<longrightarrow>
            length names' = length M'"
    using serpentine_length [OF len] by blast
  have p6: "\<forall>tbl M' names'. grid_stage a tbl nRange = Inr (M', names') \<longrightarrow>
            length names' = length M'"
    using grid_stage_length by blast
  have p7: "snd (plotshpcreate a) = Inr () \<longrightarrow>
            (\<exists>u b. shapefiles (fst (plotshpcreate a)) = [u, b]
                 \<and> length u = length b \<and> map fst u = map fst b)"
  proof
    assume ok: "snd (plotshpcreate a) = Inr ()"
    from shapefiles_of_call [OF ok] obtain ab M0 ns where
      l: "length ns = length M0"
      and sh: "shapefiles (fst (plotshpcreate a)) =
             [zip ns (map ring (plots_adjusted a ab M0)),
              zip ns (map ring (plots_adjusted_buf a ab M0))]"
      by blast
    have l1: "length ns = length (map ring (plots_adjusted a ab M0))"
      by (simp add: l plots_adjusted_def)
    have l2: "length ns = length (map ring (plots_adjusted_buf a ab M0))"
      by (simp add: l plots_adjusted_buf_def)
    have "length (zip ns (map ring (plots_adjusted a ab M0)))
          = length (zip ns (map ring (plots_adjusted_buf a ab M0)))"
      using l1 l2 by simp
    moreover have "map fst (zip ns (map ring (plots_adjusted a ab M0)))
          = map fst (zip ns (map ring (plots_adjusted_buf a ab M0)))"
      using labels_of_zip [OF l1] labels_of_zip [OF l2] by simp
    ultimately show "\<exists>u b. shapefiles (fst (plotshpcreate a)) = [u, b]
                 \<and> length u = length b \<and> map fst u = map fst b"
      using sh by blast
  qed
  from p1 p2 p3 p4 p5 p6 p7 show ?thesis by (intro conjI)
qed

text \<open>
  On the test table: combining rows in pairs leaves four rows under four labels, and the
  basic call of the tests writes the same eight labels, in serpentine order, to both
  shapefiles.
\<close>

theorem labels_follow_records_witness:
  "length (map Barcode_col (rows sample_data)) = length (init_matrix (rows sample_data))
   \<and> combine_rows 2 0 (init_matrix (rows sample_data)) (map Barcode_col (rows sample_data))
       = Inr (map (renumber 2)
                (compress (combined_mask 2 0 (init_matrix (rows sample_data)))
                   (init_matrix (rows sample_data))),
              [''BC001'', ''BC003'', ''BC005'', ''BC007''])
   \<and> length (map (renumber 2)
                (compress (combined_mask 2 0 (init_matrix (rows sample_data)))
                   (init_matrix (rows sample_data)))) = 4
   \<and> snd (plotshpcreate
        ((default_args (746239.817, 3382052.264) (746334.224, 3382152.870) sample_data ''test_basic'')
           \<lparr>UTMzone := Some ''14'', field_id := Some ''TEST'',
            SquarePlot := False, RotatePlot := False\<rparr>)) = Inr ()
   \<and> map (map fst) (shapefiles (fst (plotshpcreate
        ((default_args (746239.817, 3382052.264) (746334.224, 3382152.870) sample_data ''test_basic'')
           \<lparr>UTMzone := Some ''14'', field_id := Some ''TEST'',
            SquarePlot := False, RotatePlot := False\<rparr>))))
       = [[''BC001'', ''BC002'', ''BC003'', ''BC004'', ''BC008'', ''BC007'', ''BC006'', ''BC005''],
          [''BC001'', ''BC002'', ''BC003'', ''BC004'', ''BC008'', ''BC007'', ''BC006'', ''BC005'']]"
proof -
  let ?a = "(default_args (746239.817, 3382052.264) (746334.224, 3382152.870) sample_data ''test_basic'')
           \<lparr>UTMzone := Some ''14'', field_id := Some ''TEST'',
            SquarePlot := False, RotatePlot := False\<rparr>"
  let ?M = "init_matrix (rows sample_data)"
  let ?N = "map Barcode_col (rows sample_data)"
  have h1: "length ?N = length ?M" by (simp add: length_init_matrix)
  note t = labels_follow_records [OF h1 h1, where n = 2 and k = 0 and a = ?a]
  have cr: "combine_rows 2 0 ?M ?N =
      Inr (map (renumber 2) (compress (combined_mask 2 0 ?M) ?M),
           compress (combined_mask 2 0 ?M) ?N)"
    by (rule combine_rows_eq [OF h1]) (simp add: init_matrix_def sample_data_def)
  have nm: "compress (combined_mask 2 0 ?M) ?N = [''BC001'', ''BC003'', ''BC005'', ''BC007'']"
    by code_simp
  from t cr have l4: "length (compress (combined_mask 2 0 ?M) ?N)
                      = length (map (renumber 2) (compress (combined_mask 2 0 ?M) ?M))"
    by blast
  hence len4: "length (map (renumber 2) (compress (combined_mask 2 0 ?M) ?M)) = 4"
    unfolding nm by simp
  have gs: "grid_stage ?a (table_of ?a) (n_range ?a) =
     Inr (fst (projr (grid_stage ?a (table_of ?a) (n_range ?a))),
          [''BC001'', ''BC002'', ''BC003'', ''BC004'', ''BC008'', ''BC007'', ''BC006'', ''BC005''])"
    by code_simp
  have gl: "length (fst (projr (grid_stage ?a (table_of ?a) (n_range ?a)))) = 8"
    using grid_stage_length [OF gs] by simp
  have m: "missing_cols (infile ?a) = []"
    by (simp add: default_args_def missing_cols_def required_cols_def sample_data_def)
  have st: "check_stagger (stagger ?a) (nrowplot ?a) (multirowind ?a) = Inr ()"
    by (simp add: default_args_def check_stagger_def)
  have "fst (B_point ?a) \<noteq> fst (A_point ?a)" by (simp add: default_args_def)
  then obtain ab where ab: "ab_line_of (A_point ?a) (B_point ?a) = Inr ab"
    using ab_line_ok by blast
  have np: "(SquarePlot ?a \<or> RotatePlot ?a) \<longrightarrow>
      fst (projr (grid_stage ?a (table_of ?a) (n_range ?a))) \<noteq> []"
    by (simp add: default_args_def)
  have ok: "snd (plotshpcreate ?a) = Inr ()"
    unfolding plotshpcreate_unfold(1) [OF m st ab gs]
    using emit_ok [OF _ np, of _ ab] gl by simp
  from t ok obtain u b where
    sh: "shapefiles (fst (plotshpcreate ?a)) = [u, b]"
    and same: "map fst u = map fst b"
    by blast
  from shapefiles_of_call [OF ok] obtain ab' M' ns' where
    g': "grid_stage ?a (table_of ?a) (n_range ?a) = Inr (M', ns')"
    and l': "length ns' = length M'"
    and sh0: "shapefiles (fst (plotshpcreate ?a)) =
      [zip ns' (map ring (plots_adjusted ?a ab' M')),
       zip ns' (map ring (plots_adjusted_buf ?a ab' M'))]"
    by blast
  have ns': "ns' = [''BC001'', ''BC002'', ''BC003'', ''BC004'', ''BC008'', ''BC007'', ''BC006'', ''BC005'']"
    using g' gs by simp
  have lM: "length M' = 8" using l' ns' by simp
  have sh': "shapefiles (fst (plotshpcreate ?a)) =
      [zip [''BC001'', ''BC002'', ''BC003'', ''BC004'', ''BC008'', ''BC007'', ''BC006'', ''BC005'']
         (map ring (plots_adjusted ?a ab' M')),
       zip [''BC001'', ''BC002'', ''BC003'', ''BC004'', ''BC008'', ''BC007'', ''BC006'', ''BC005'']
         (map ring (plots_adjusted_buf ?a ab' M'))]"
    using sh0 unfolding ns' .
  have lu: "length [''BC001'', ''BC002'', ''BC003'', ''BC004'', ''BC008'', ''BC007'', ''BC006'', ''BC005'']
            = length (map ring (plots_adjusted ?a ab' M'))"
    by (simp add: lM plots_adjusted_def)
  have "u = zip [''BC001'', ''BC002'', ''BC003'', ''BC004'', ''BC008'', ''BC007'', ''BC006'', ''BC005'']
         (map ring (plots_adjusted ?a ab' M'))"
    using sh sh' by simp
  hence fu: "map fst u = [''BC001'', ''BC002'', ''BC003'', ''BC004'', ''BC008'', ''BC007'', ''BC006'', ''BC005'']"
    using labels_of_zip [OF lu] by simp
  have labels: "map (map fst) (shapefiles (fst (plotshpcreate ?a)))
       = [[''BC001'', ''BC002'', ''BC003'', ''BC004'', ''BC008'', ''BC007'', ''BC006'', ''BC005''],
          [''BC001'', ''BC002'', ''BC003'', ''BC004'', ''BC008'', ''BC007'', ''BC006'', ''BC005'']]"
    unfolding sh using fu same by simp
  have cr': "combine_rows 2 0 ?M ?N
       = Inr (map (renumber 2) (compress (combined_mask 2 0 ?M) ?M),
              [''BC001'', ''BC003'', ''BC005'', ''BC007''])"
    using cr nm by simp
  show ?thesis
    using h1 cr' len4 ok labels by (intro conjI)
qed

subsection \<open>Rectangles\<close>



subsection \<open>Stagger\<close>

text \<open>
  Claim C2 says that a staggered plot is exported as if the range-axis coordinates of its
  rectangle were shifted by the offset before the rotation about \<open>A\<close>. The rotation of lines
  357--360 moves a shift of \<open>d\<close> along the range axis to the origin offset
  \<open>(- d sin Theta, + d cos Theta)\<close>, which is the offset of the first-quadrant branch
  (lines 325--327, lemma \<open>stagger_in_quadrant_I\<close>). The other branches swap sine and
  cosine. On an AB line in the second quadrant, \<open>B - A = (-4, 3)\<close>, with stagger
  \<open>(2, 2, 5)\<close> in meters, the plot at range 1, row 2 is staggered; the call puts its
  bottom-left corner at \<open>A + (-1.5, 6)\<close>, and shifting before rotating puts it at
  \<open>A + (-2.5, 5)\<close>.
\<close>

theorem stagger_origin_quadrant_II:
  "ab_line_of (746239.817, 3382052.264) (746235.817, 3382055.264) =
     Inr \<lparr>DeltaEasting = - 4, DeltaNorthing = 3, DirectionTheta = arctan (3 / 4),
          Theta = pi / 2 - arctan (3 / 4), srt_theta = 270 + arctan (3 / 4) * (180 / pi)\<rparr>
   \<and> stagger_check (2, 2, 5)
        (square_row
           ((default_args (746239.817, 3382052.264) (746235.817, 3382055.264) sample_data ''test'')
              \<lparr>unit_name := ''meter'', stagger := Some (2, 2, 5)\<rparr>)
           \<lparr>c0 = 1, c1 = 1, c2 = 2, c3 = 0, c4 = 0, c5 = 0, c6 = 0, c7 = 0,
            c8 = 0, c9 = 0, c10 = 0, c11 = 2\<rparr>)
   \<and> hd (ring (adjusted_row
           ((default_args (746239.817, 3382052.264) (746235.817, 3382055.264) sample_data ''test'')
              \<lparr>unit_name := ''meter'', stagger := Some (2, 2, 5)\<rparr>)
           \<lparr>DeltaEasting = - 4, DeltaNorthing = 3, DirectionTheta = arctan (3 / 4),
            Theta = pi / 2 - arctan (3 / 4), srt_theta = 270 + arctan (3 / 4) * (180 / pi)\<rparr>
           \<lparr>c0 = 1, c1 = 1, c2 = 2, c3 = 0, c4 = 0, c5 = 0, c6 = 0, c7 = 0,
            c8 = 0, c9 = 0, c10 = 0, c11 = 2\<rparr>))
       = (746238.317, 3382058.264)
   \<and> hd (ring (rotate_row (pi / 2 - arctan (3 / 4)) (746239.817, 3382052.264)
          (stagger_row (2, 2, 5) 5
             (square_row
                ((default_args (746239.817, 3382052.264) (746235.817, 3382055.264) sample_data ''test'')
                   \<lparr>unit_name := ''meter'', stagger := Some (2, 2, 5)\<rparr>)
                \<lparr>c0 = 1, c1 = 1, c2 = 2, c3 = 0, c4 = 0, c5 = 0, c6 = 0, c7 = 0,
                 c8 = 0, c9 = 0, c10 = 0, c11 = 2\<rparr>))))
       = (746237.317, 3382057.264)"
proof -
  let ?a = "(default_args (746239.817, 3382052.264) (746235.817, 3382055.264) sample_data ''test'')
              \<lparr>unit_name := ''meter'', stagger := Some (2, 2, 5)\<rparr>"
  let ?ab = "\<lparr>DeltaEasting = - 4, DeltaNorthing = 3, DirectionTheta = arctan (3 / 4),
            Theta = pi / 2 - arctan (3 / 4), srt_theta = 270 + arctan (3 / 4) * (180 / pi)\<rparr>"
  let ?r = "\<lparr>c0 = 1, c1 = 1, c2 = 2, c3 = 0, c4 = 0, c5 = 0, c6 = 0, c7 = 0,
            c8 = 0, c9 = 0, c10 = 0, c11 = 2\<rparr> :: psm_row"
  have sq: "square_row ?a ?r =
      \<lparr>c0 = 1, c1 = 1, c2 = 2, c3 = 0, c4 = 2.5, c5 = 0, c6 = 5, c7 = 25,
       c8 = 5, c9 = 25, c10 = 2.5, c11 = 2\<rparr>"
    by (simp add: square_row_def square_corners_def default_args_def to_meters_def
        row_spacing_m_def)
  have chk: "stagger_check (2, 2, 5) (square_row ?a ?r)"
    unfolding sq by (simp add: stagger_check_def ceiling_eq_iff)
  have org: "row_origin ?a ?ab (square_row ?a ?r) = (746239.817 - 3, 3382052.264 + 4)"
    using chk
    by (simp add: row_origin_def origin_of_def stag_origin_def default_args_def to_meters_def
        quadrant_II_angle)
  have code: "hd (ring (adjusted_row ?a ?ab ?r)) = (746238.317, 3382058.264)"
    unfolding adjusted_row_def Let_def org
    unfolding sq by (simp add: ring_def rotate_row_def quadrant_II_angle)
  have claim: "hd (ring (rotate_row (pi / 2 - arctan (3 / 4)) (746239.817, 3382052.264)
          (stagger_row (2, 2, 5) 5 (square_row ?a ?r)))) = (746237.317, 3382057.264)"
    unfolding sq
    by (simp add: stagger_row_def stagger_check_def ceiling_eq_iff ring_def rotate_row_def
        quadrant_II_angle)
  show ?thesis
    using ab_line_quadrant_II chk code claim by (intro conjI)
qed

subsection \<open>The end-to-end example\<close>

text \<open>
  Claim C3, as amended. For \<open>A = (746239.817, 3382052.264)\<close> and
  \<open>B = (746334.224, 3382152.870)\<close> without stagger: \<open>DeltaEasting = 94.407\<close>,
  \<open>DeltaNorthing = 100.606\<close> (first quadrant), \<open>Theta = 3 pi/2 + DirectionTheta\<close> with
  \<open>DirectionTheta\<close> within 0.00005 of 0.8172 rad, and the bottom-left corner of the
  rectangle of a record at local range 1, row 1 is, after the rotation, \<open>A\<close> itself.
\<close>

theorem end_to_end_example:
  assumes A: "A_point a = (746239.817, 3382052.264)"
    and B: "B_point a = (746334.224, 3382152.870)"
    and st: "stagger a = None"
    and r1: "c1 r = 1" and r2: "c2 r = 1"
  shows "\<exists>ab. ab_line_of (A_point a) (B_point a) = Inr ab
     \<and> DeltaEasting ab = 94.407 \<and> DeltaNorthing ab = 100.606
     \<and> Theta ab = 3 * pi / 2 + DirectionTheta ab
     \<and> \<bar>DirectionTheta ab - 0.8172\<bar> < 0.00005
     \<and> hd (ring (adjusted_row a ab r)) = (746239.817, 3382052.264)"
proof -
  let ?ab = "\<lparr>DeltaEasting = 94.407, DeltaNorthing = 100.606,
          DirectionTheta = arctan (100606 / 94407),
          Theta = 3 * pi / 2 + arctan (100606 / 94407),
          srt_theta = 90 - arctan (100606 / 94407) * (180 / pi)\<rparr>"
  have ab: "ab_line_of (A_point a) (B_point a) = Inr ?ab"
    unfolding A B by (rule ab_line_example)
  have e: "DirectionTheta ?ab = arctan (100606 / 94407)" by simp
  have d: "\<bar>DirectionTheta ?ab - 0.8172\<bar> < 0.00005"
    unfolding e abs_less_iff using direction_lower direction_upper by simp
  have o: "row_origin a ?ab (square_row a r) = (746239.817, 3382052.264)"
    using st A by (simp add: row_origin_def)
  have c: "hd (ring (adjusted_row a ?ab r)) = (746239.817, 3382052.264)"
    unfolding first_corner_is_origin [OF r1 r2] by (rule o)
  show ?thesis
    using ab d c by (intro exI [of _ ?ab]) simp
qed

text \<open>
  The default call on the test table: its first emitted record is at range 1, row 1,
  carries the label BC001, and its bottom-left corner is \<open>A\<close>.
\<close>

theorem end_to_end_example_witness:
  "A_point (default_args (746239.817, 3382052.264) (746334.224, 3382152.870) sample_data ''test'')
     = (746239.817, 3382052.264)
   \<and> B_point (default_args (746239.817, 3382052.264) (746334.224, 3382152.870) sample_data ''test'')
     = (746334.224, 3382152.870)
   \<and> stagger (default_args (746239.817, 3382052.264) (746334.224, 3382152.870) sample_data ''test'')
     = None
   \<and> (\<exists>M row_names ab.
         grid_stage (default_args (746239.817, 3382052.264) (746334.224, 3382152.870) sample_data ''test'')
           (table_of (default_args (746239.817, 3382052.264) (746334.224, 3382152.870) sample_data ''test''))
           (n_range (default_args (746239.817, 3382052.264) (746334.224, 3382152.870) sample_data ''test''))
         = Inr (M, row_names)
       \<and> c1 (hd M) = 1 \<and> c2 (hd M) = 1 \<and> hd row_names = ''BC001''
       \<and> ab_line_of (746239.817, 3382052.264) (746334.224, 3382152.870) = Inr ab
       \<and> DeltaEasting ab = 94.407 \<and> DeltaNorthing ab = 100.606
       \<and> Theta ab = 3 * pi / 2 + DirectionTheta ab
       \<and> \<bar>DirectionTheta ab - 0.8172\<bar> < 0.00005
       \<and> hd (ring (adjusted_row
             (default_args (746239.817, 3382052.264) (746334.224, 3382152.870) sample_data ''test'')
             ab (hd M))) = (746239.817, 3382052.264))"
proof -
  let ?a = "default_args (746239.817, 3382052.264) (746334.224, 3382152.870) sample_data ''test''"
  let ?M = "[\<lparr>c0 = 1, c1 = 1, c2 = 1, c3 = 0, c4 = 0, c5 = 0, c6 = 0, c7 = 0,
          c8 = 0, c9 = 0, c10 = 0, c11 = 1\<rparr>,
       \<lparr>c0 = 1, c1 = 1, c2 = 2, c3 = 0, c4 = 0, c5 = 0, c6 = 0, c7 = 0,
          c8 = 0, c9 = 0, c10 = 0, c11 = 2\<rparr>,
       \<lparr>c0 = 2, c1 = 1, c2 = 3, c3 = 0, c4 = 0, c5 = 0, c6 = 0, c7 = 0,
          c8 = 0, c9 = 0, c10 = 0, c11 = 3\<rparr>,
       \<lparr>c0 = 2, c1 = 1, c2 = 4, c3 = 0, c4 = 0, c5 = 0, c6 = 0, c7 = 0,
          c8 = 0, c9 = 0, c10 = 0, c11 = 4\<rparr>,
       \<lparr>c0 = 4, c1 = 2, c2 = 4, c3 = 0, c4 = 0, c5 = 0, c6 = 0, c7 = 0,
          c8 = 0, c9 = 0, c10 = 0, c11 = 4\<rparr>,
       \<lparr>c0 = 4, c1 = 2, c2 = 3, c3 = 0, c4 = 0, c5 = 0, c6 = 0, c7 = 0,
          c8 = 0, c9 = 0, c10 = 0, c11 = 3\<rparr>,
       \<lparr>c0 = 3, c1 = 2, c2 = 2, c3 = 0, c4 = 0, c5 = 0, c6 = 0, c7 = 0,
          c8 = 0, c9 = 0, c10 = 0, c11 = 2\<rparr>,
       \<lparr>c0 = 3, c1 = 2, c2 = 1, c3 = 0, c4 = 0, c5 = 0, c6 = 0, c7 = 0,
          c8 = 0, c9 = 0, c10 = 0, c11 = 1\<rparr>] :: psm_row list"
  let ?N = "[''BC001'', ''BC002'', ''BC003'', ''BC004'', ''BC008'', ''BC007'', ''BC006'', ''BC005'']"
  have hA: "A_point ?a = (746239.817, 3382052.264)" by (simp add: default_args_def)
  have hB: "B_point ?a = (746334.224, 3382152.870)" by (simp add: default_args_def)
  have hS: "stagger ?a = None" by (simp add: default_args_def)
  have gs: "grid_stage ?a (table_of ?a) (n_range ?a) = Inr (?M, ?N)"
    by code_simp
  have r1: "c1 (hd ?M) = 1" and r2: "c2 (hd ?M) = 1" and n1: "hd ?N = ''BC001''"
    by simp_all
  from end_to_end_example [OF hA hB hS r1 r2] obtain ab where
    ab: "ab_line_of (A_point ?a) (B_point ?a) = Inr ab"
    and rest: "DeltaEasting ab = 94.407" "DeltaNorthing ab = 100.606"
      "Theta ab = 3 * pi / 2 + DirectionTheta ab"
      "\<bar>DirectionTheta ab - 0.8172\<bar> < 0.00005"
      "hd (ring (adjusted_row ?a ab (hd ?M))) = (746239.817, 3382052.264)"
    by blast
  have ab': "ab_line_of (746239.817, 3382052.264) (746334.224, 3382152.870) = Inr ab"
    using ab unfolding hA hB .
  have "\<exists>M row_names ab.
         grid_stage ?a (table_of ?a) (n_range ?a) = Inr (M, row_names)
       \<and> c1 (hd M) = 1 \<and> c2 (hd M) = 1 \<and> hd row_names = ''BC001''
       \<and> ab_line_of (746239.817, 3382052.264) (746334.224, 3382152.870) = Inr ab
       \<and> DeltaEasting ab = 94.407 \<and> DeltaNorthing ab = 100.606
       \<and> Theta ab = 3 * pi / 2 + DirectionTheta ab
       \<and> \<bar>DirectionTheta ab - 0.8172\<bar> < 0.00005
       \<and> hd (ring (adjusted_row ?a ab (hd M))) = (746239.817, 3382052.264)"
    apply (rule exI [of _ ?M])
    apply (rule exI [of _ ?N])
    apply (rule exI [of _ ab])
    apply (intro conjI)
             apply (rule gs)
            apply (rule r1)
           apply (rule r2)
          apply (rule n1)
         apply (rule ab')
        apply (rule rest(1))
       apply (rule rest(2))
      apply (rule rest(3))
     apply (rule rest(4))
    apply (rule rest(5))
    done
  thus ?thesis using hA hB hS by (intro conjI)
qed

text \<open>
  Claim C3 as stated gives \<open>DirectionTheta\<close> as approximately 0.8186 rad; the direction of
  this AB line is below 0.81725 and differs from 0.8186 by more than 0.001.
\<close>

theorem direction_0_8186_counterexample:
  "\<not> (\<exists>ab. ab_line_of (746239.817, 3382052.264) (746334.224, 3382152.870) = Inr ab
           \<and> \<bar>DirectionTheta ab - 0.8186\<bar> \<le> 0.001)"
proof
  assume "\<exists>ab. ab_line_of (746239.817, 3382052.264) (746334.224, 3382152.870) = Inr ab
           \<and> \<bar>DirectionTheta ab - 0.8186\<bar> \<le> 0.001"
  then obtain ab where
    ab: "ab_line_of (746239.817, 3382052.264) (746334.224, 3382152.870) = Inr ab"
    and d: "\<bar>DirectionTheta ab - 0.8186\<bar> \<le> 0.001"
    by blast
  have "DirectionTheta ab = arctan (100606 / 94407)"
    using ab unfolding ab_line_example by auto
  hence "\<bar>arctan (100606 / 94407 :: real) - 0.8186\<bar> \<le> 0.001"
    using d by simp
  thus False using direction_upper by (simp add: abs_le_iff)
qed

end
